(* ===== verification/Prelude.thy ===== *)
theory Prelude
  imports Main "HOL-Library.Word" "HOL-Library.State_Monad"
begin

unbundle bit_operations_syntax

section \<open>Prelude: machine types, C memory, C++ strings\<close>

text \<open>
  What the components share: the machine integer types, process exit codes, byte buffers
  with checked accesses (\<^term>\<open>None\<close> stands for an access outside the buffer, undefined
  behaviour in C), C strings, and the few operations of \<open>std::string\<close> and
  \<open>std::getline\<close> that the programs call.

  A C string is the list of its characters before the terminating NUL, so \<open>strlen\<close> is
  \<^term>\<open>length\<close> and reading the element at that index gives the NUL.  \<open>size_t\<close> values that
  count bytes of objects in memory are \<^typ>\<open>nat\<close>; every other integer keeps its width.
\<close>

named_theorems buf_simps \<open>byte-buffer rewriting\<close>
named_theorems io_defs \<open>definitions of the effectful programs\<close>

type_synonym u8 = "8 word"
type_synonym u16 = "16 word"
type_synonym u32 = "32 word"
type_synonym u64 = "64 word"

definition EXIT_SUCCESS :: int where "EXIT_SUCCESS = 0"
definition EXIT_FAILURE :: int where "EXIT_FAILURE = 1"

lemma exit_codes_differ [simp]:
  "EXIT_SUCCESS \<noteq> EXIT_FAILURE" "EXIT_FAILURE \<noteq> EXIT_SUCCESS"
  "EXIT_FAILURE \<noteq> 0" "(EXIT_SUCCESS = 0) = True" "\<not> EXIT_FAILURE < 0" "\<not> EXIT_SUCCESS < 0"
  by (simp_all add: EXIT_SUCCESS_def EXIT_FAILURE_def)


subsection \<open>Byte buffers\<close>

definition get8 :: "nat \<Rightarrow> u8 list \<Rightarrow> u8 option" where
  "get8 p buf = (if p < length buf then Some (buf ! p) else None)"

definition put8 :: "nat \<Rightarrow> u8 \<Rightarrow> u8 list \<Rightarrow> u8 list option" where
  "put8 p b buf = (if p < length buf then Some (buf[p := b]) else None)"

text \<open>The buffer with the bytes \<open>xs\<close> stored from offset \<open>off\<close> on.\<close>

definition blit :: "nat \<Rightarrow> 'a list \<Rightarrow> 'a list \<Rightarrow> 'a list" where
  "blit off xs buf = take off buf @ xs @ drop (off + length xs) buf"

lemma length_blit [buf_simps]:
  "off + length xs \<le> length buf \<Longrightarrow> length (blit off xs buf) = length buf"
  by (simp add: blit_def)

lemma blit_Nil [simp]: "blit off [] buf = buf"
  by (simp add: blit_def)

lemma put8_blit [buf_simps]:
  "p < length buf \<Longrightarrow> put8 p b buf = Some (blit p [b] buf)"
  by (simp add: put8_def blit_def upd_conv_take_nth_drop)

lemma put8_None [buf_simps]: "length buf \<le> p \<Longrightarrow> put8 p b buf = None"
  by (simp add: put8_def)

lemma put8_length: "put8 p b buf = Some buf' \<Longrightarrow> length buf' = length buf"
  by (auto simp: put8_def split: if_splits)

lemma blit_blit [buf_simps]:
  assumes "off' = off + length xs" "off + length xs \<le> length buf"
  shows "blit off' ys (blit off xs buf) = blit off (xs @ ys) buf"
  using assms by (simp add: blit_def ac_simps)

lemma blit_overwrite:
  assumes "length xs = length ys" "off + length xs \<le> length buf"
  shows "blit off ys (blit off xs buf) = blit off ys buf"
  using assms by (simp add: blit_def)

lemma take_blit: "off + length xs \<le> length buf \<Longrightarrow>
    take (off + length xs) (blit off xs buf) = take off buf @ xs"
  by (simp add: blit_def)

lemma nth_blit:
  assumes "off + length xs \<le> length buf" "i < length buf"
  shows "blit off xs buf ! i =
    (if off \<le> i \<and> i < off + length xs then xs ! (i - off) else buf ! i)"
  using assms by (auto simp: blit_def nth_append min_def)


subsection \<open>C strings\<close>

text \<open>Reading element \<open>i\<close> of a C string: the terminating NUL may be read, nothing beyond it.\<close>

definition c_at :: "string \<Rightarrow> nat \<Rightarrow> char option" where
  "c_at s i = (if i < length s then Some (s ! i)
               else if i = length s then Some (CHR 0x00) else None)"

lemma c_at_less [simp]: "i < length s \<Longrightarrow> c_at s i = Some (s ! i)"
  by (simp add: c_at_def)


subsection \<open>Numbers and lists as text\<close>

text \<open>What \<open>std::ostream\<close> and \<open>std::to_string\<close> write for an unsigned integer.\<close>

definition digit_char :: "nat \<Rightarrow> char" where
  "digit_char d = char_of (48 + d)"

function dec :: "nat \<Rightarrow> string" where
  "dec n = (if n < 10 then [digit_char n] else dec (n div 10) @ [digit_char (n mod 10)])"
  by pat_completeness auto
termination
  by (relation "measure id") auto

text \<open>The same under \<open>std::hex\<close>, and the effect of \<open>std::setw\<close> with a fill character.\<close>

function hex :: "nat \<Rightarrow> string" where
  "hex n = (let d = [char_of ((if n mod 16 < 10 then 48 else 87) + n mod 16)] in
     if n < 16 then d else hex (n div 16) @ d)"
  by pat_completeness auto
termination
  by (relation "measure id") auto

declare hex.simps [simp del]

definition setw :: "char \<Rightarrow> nat \<Rightarrow> string \<Rightarrow> string" where
  "setw c w s = replicate (w - length s) c @ s"

text \<open>Strings joined by a separator.\<close>

fun join :: "string \<Rightarrow> string list \<Rightarrow> string" where
  "join sep [] = []"
| "join sep [x] = x"
| "join sep (x # y # zs) = x @ sep @ join sep (y # zs)"

lemma join_snoc: "xs \<noteq> [] \<Longrightarrow> join sep (xs @ [x]) = join sep xs @ sep @ x"
  by (induction sep xs rule: join.induct) auto

lemma join_trailing: "xs \<noteq> [] \<Longrightarrow> concat (map (\<lambda>x. x @ sep) (butlast xs)) @ last xs = join sep xs"
  by (induction sep xs rule: join.induct) auto


subsection \<open>String streams\<close>

text \<open>
  A \<open>std::stringstream\<close> that is only read: the characters left, or \<^term>\<open>None\<close> once it is no longer good.
  \<open>std::getline(ss, x, d)\<close> fails on a stream that is not good or has nothing left; it succeeds when it
  finds the delimiter, which it consumes, and also when it reaches the end after at least one
  character, which leaves the stream not good.
\<close>

type_synonym stream_state = "string option"

fun getline :: "char \<Rightarrow> stream_state \<Rightarrow> (string \<times> stream_state) option" where
  "getline d None = None"
| "getline d (Some rest) =
     (if rest = [] then None
      else if d \<in> set rest
      then Some (takeWhile (\<lambda>c. c \<noteq> d) rest, Some (tl (dropWhile (\<lambda>c. c \<noteq> d) rest)))
      else Some (rest, None))"

lemma getline_delim [simp]:
  assumes "d \<notin> set x"
  shows "getline d (Some (x @ d # rest)) = Some (x, Some rest)"
proof -
  have "\<And>c. c \<in> set x \<Longrightarrow> c \<noteq> d" using assms by blast
  then show ?thesis by (simp add: takeWhile_append2 dropWhile_append2)
qed

lemma getline_last [simp]: "d \<notin> set x \<Longrightarrow> x \<noteq> [] \<Longrightarrow> getline d (Some x) = Some (x, None)"
  by simp

text \<open>What is left of a stream gets shorter with every line read.\<close>

definition left :: "stream_state \<Rightarrow> nat" where
  "left s = (case s of None \<Rightarrow> 0 | Some rest \<Rightarrow> Suc (length rest))"

lemma getline_left: "getline d s = Some (x, s') \<Longrightarrow> left s' < left s"
proof (cases s)
  case (Some rest)
  assume "getline d s = Some (x, s')"
  moreover have "length (tl (dropWhile (\<lambda>c. c \<noteq> d) rest)) < length rest" if "rest \<noteq> []"
    using that length_dropWhile_le [of "\<lambda>c. c \<noteq> d" rest]
    by (metis diff_less length_greater_0_conv length_tl less_le_trans not_less zero_less_one le_eq_less_or_eq diff_le_self)
  ultimately show ?thesis using Some by (auto simp: left_def split: if_splits)
qed simp

end
