(* ===== verification/Sms_Pdu.thy ===== *)
theory Sms_Pdu
  imports Prelude
begin

section \<open>SMS-SUBMIT encoding of the modem client\<close>

text \<open>
  \<^verbatim>\<open>examples/cellular/mbim_sms/client/src/main.c\<close>, functions \<open>NumberToNibbles\<close> and
  \<open>AsciiToPDU\<close>.  The buffer is the list of its bytes, a pointer into it an offset, and every
  access is checked: \<^term>\<open>None\<close> is an access outside the buffer.  A return value comes with
  the buffer it leaves behind.
\<close>

subsection \<open>The code\<close>

function NumberToNibbles_loop ::
  "string \<Rightarrow> nat \<Rightarrow> nat \<Rightarrow> nat \<Rightarrow> u8 list \<Rightarrow> (int \<times> u8 list) option" where
  "NumberToNibbles_loop data numlen i dst buf =
    (if i < numlen then do {
       c0 \<leftarrow> c_at data i;
       if (of_char c0 :: nat) < of_char CHR ''0'' \<or> (of_char c0 :: nat) > of_char CHR ''9''
       then Some (-1, buf)
       else do {
         let c = (of_char c0 - of_char CHR ''0'' :: u8);
         buf' \<leftarrow> (if i mod 2 \<noteq> 0
                  then do {
                    old \<leftarrow> get8 (dst + i div 2) buf;
                    put8 (dst + i div 2) ((old AND 0x0F) OR (push_bit 4 c AND 0xF0)) buf }
                  else put8 (dst + i div 2) (0xF0 OR c) buf);
         NumberToNibbles_loop data numlen (Suc i) dst buf' } }
     else Some (int ((i + 1) div 2), buf))"
  by pat_completeness auto
termination
  by (relation "measure (\<lambda>(data, numlen, i, dst, buf). numlen - i)") auto

definition NumberToNibbles ::
  "string \<Rightarrow> nat \<Rightarrow> nat \<Rightarrow> u8 list \<Rightarrow> (int \<times> u8 list) option" where
  "NumberToNibbles data numlen dst buf = NumberToNibbles_loop data numlen 0 dst buf"

definition PDU_NUM_INTERNATIONAL :: u8 where "PDU_NUM_INTERNATIONAL = 0x91"
definition PDU_LEN_MIN :: nat where "PDU_LEN_MIN = 9"
definition PDU_NUM_LEN_MAX :: nat where "PDU_NUM_LEN_MAX = 6"
definition PDU_FLAGS_MTI_SMS_SUBMIT :: u8 where "PDU_FLAGS_MTI_SMS_SUBMIT = 1"
definition PDU_DCS_ASCII7 :: u8 where "PDU_DCS_ASCII7 = 0"
definition PDU_ASCII7_MAX_DATA_LEN :: nat where "PDU_ASCII7_MAX_DATA_LEN = 160"

lemmas pdu_consts = PDU_NUM_INTERNATIONAL_def PDU_LEN_MIN_def PDU_NUM_LEN_MAX_def
  PDU_FLAGS_MTI_SMS_SUBMIT_def PDU_DCS_ASCII7_def PDU_ASCII7_MAX_DATA_LEN_def

text \<open>\<open>if (s[0] == '+') s++;\<close>\<close>

fun drop_plus :: "string \<Rightarrow> string" where
  "drop_plus [] = []"
| "drop_plus (c # s) = (if c = CHR ''+'' then s else c # s)"

text \<open>The two nested loops that pack the seven low bits of each character.\<close>

function septet_inner ::
  "char \<Rightarrow> nat \<Rightarrow> nat \<Rightarrow> nat \<Rightarrow> u8 list \<Rightarrow> (nat \<times> u8 list) option" where
  "septet_inner c j bitnum pdu buf =
    (if j < 7 then do {
       old \<leftarrow> get8 (pdu + bitnum div 8) buf;
       let b = (if (of_char c :: u8) AND push_bit j 1 \<noteq> 0 then 1 else 0 :: u8);
       buf' \<leftarrow> put8 (pdu + bitnum div 8) (old OR push_bit (bitnum mod 8) b) buf;
       septet_inner c (Suc j) (Suc bitnum) pdu buf' }
     else Some (bitnum, buf))"
  by pat_completeness auto
termination
  by (relation "measure (\<lambda>(c, j, bitnum, pdu, buf). 7 - j)") auto

fun septet_outer :: "string \<Rightarrow> nat \<Rightarrow> nat \<Rightarrow> u8 list \<Rightarrow> u8 list option" where
  "septet_outer [] bitnum pdu buf = Some buf"
| "septet_outer (c # text) bitnum pdu buf = do {
     (bitnum', buf') \<leftarrow> septet_inner c 0 bitnum pdu buf;
     septet_outer text bitnum' pdu buf' }"

text \<open>\<open>memset(pdu, 0, n)\<close>\<close>

definition memset0 :: "nat \<Rightarrow> nat \<Rightarrow> u8 list \<Rightarrow> u8 list option" where
  "memset0 pdu n buf =
    (if pdu + n \<le> length buf then Some (blit pdu (replicate n 0) buf) else None)"

text \<open>
  \<open>AsciiToPDU\<close>, cut at its three blocks.  Each block takes the running \<open>len\<close> and pointer and
  either returns from the function (\<^term>\<open>Inl\<close>) or falls through with the new ones.
\<close>

type_synonym pdu_block = "((int \<times> u8 list) + (nat \<times> nat \<times> u8 list)) option"

definition pdu_sca :: "string option \<Rightarrow> nat \<Rightarrow> u8 list \<Rightarrow> pdu_block" where
  "pdu_sca smsc buflen buf =
    (case smsc of
       Some s0 \<Rightarrow>
         let s = drop_plus s0; numlen = length s; numbytes = (numlen + 1) div 2
         in if numbytes > PDU_NUM_LEN_MAX then Some (Inl (-1, buf))
            else do {
              buf \<leftarrow> put8 0 (1 + of_nat numbytes) buf;
              let len = 2 + numbytes;
              if buflen < len then Some (Inl (-1, buf))
              else do {
                buf \<leftarrow> put8 1 PDU_NUM_INTERNATIONAL buf;
                (ret, buf) \<leftarrow> NumberToNibbles s numlen 2 buf;
                if ret < 0 then Some (Inl (ret, buf))
                else Some (Inr (len, 2 + numbytes, buf)) } }
     | None \<Rightarrow> do { buf \<leftarrow> put8 0 0 buf; Some (Inr (1, 1, buf)) })"

definition pdu_dest :: "string \<Rightarrow> nat \<Rightarrow> nat \<Rightarrow> nat \<Rightarrow> u8 list \<Rightarrow> pdu_block" where
  "pdu_dest dest0 buflen len p buf =
    (let dest = drop_plus dest0; numlen = length dest; numbytes = (numlen + 1) div 2
     in if numbytes > PDU_NUM_LEN_MAX then Some (Inl (-1, buf))
        else do {
          buf \<leftarrow> put8 p (of_nat numlen) buf;
          let len = len + 2 + numbytes;
          if buflen < len then Some (Inl (-1, buf))
          else do {
            buf \<leftarrow> put8 (p + 1) PDU_NUM_INTERNATIONAL buf;
            (ret, buf) \<leftarrow> NumberToNibbles dest numlen (p + 2) buf;
            if ret < 0 then Some (Inl (ret, buf))
            else Some (Inr (len, p + 2 + numbytes, buf)) } })"

definition pdu_user_data :: "string \<Rightarrow> nat \<Rightarrow> nat \<Rightarrow> nat \<Rightarrow> u8 list \<Rightarrow> (int \<times> u8 list) option" where
  "pdu_user_data text buflen len p buf =
    (let textLen = length text; textBytes = (textLen * 7 + 7) div 8
     in if len + textBytes + 1 > buflen \<or> textLen > PDU_ASCII7_MAX_DATA_LEN
        then Some (-1, buf)
        else do {
          buf \<leftarrow> put8 p (of_nat textLen) buf;
          let len = len + 1 + textBytes;
          buf \<leftarrow> memset0 (p + 1) textBytes buf;
          buf \<leftarrow> septet_outer text 0 (p + 1) buf;
          Some (int len, buf) })"

definition AsciiToPDU ::
  "string option \<Rightarrow> string option \<Rightarrow> string option \<Rightarrow> u8 list option \<Rightarrow> nat
    \<Rightarrow> (int \<times> u8 list) option" where
  "AsciiToPDU smsc dest text pdu buflen =
    (case (dest, text, pdu) of
       (Some dest, Some text, Some buf) \<Rightarrow>
         if buflen < PDU_LEN_MIN then Some (-1, buf)
         else do {
           sca \<leftarrow> pdu_sca smsc buflen buf;
           (case sca of
              Inl r \<Rightarrow> Some r
            | Inr (len, p, buf) \<Rightarrow> do {
                buf \<leftarrow> put8 p PDU_FLAGS_MTI_SMS_SUBMIT buf;
                buf \<leftarrow> put8 (p + 1) 0 buf;
                da \<leftarrow> pdu_dest dest buflen (len + 2) (p + 2) buf;
                (case da of
                   Inl r \<Rightarrow> Some r
                 | Inr (len, p, buf) \<Rightarrow> do {
                     buf \<leftarrow> put8 p 0 buf;
                     buf \<leftarrow> put8 (p + 1) PDU_DCS_ASCII7 buf;
                     pdu_user_data text buflen (len + 2) (p + 2) buf }) }) }
     | (_, _, None) \<Rightarrow> Some (-1, [])
     | (_, _, Some buf) \<Rightarrow> Some (-1, buf))"


subsection \<open>Reference encodings\<close>

text \<open>Telephone numbers as packed semi-octets, first digit in the low nibble, odd lengths filled up
  with \<open>0xF\<close>.\<close>

definition is_digit :: "char \<Rightarrow> bool" where
  "is_digit c \<longleftrightarrow> (of_char CHR ''0'' :: nat) \<le> of_char c \<and> (of_char c :: nat) \<le> of_char CHR ''9''"

definition digit_val :: "char \<Rightarrow> u8" where
  "digit_val c = of_char c - of_char CHR ''0''"

fun bcd :: "string \<Rightarrow> u8 list" where
  "bcd [] = []"
| "bcd [a] = [0xF0 OR digit_val a]"
| "bcd (a # b # s) = (digit_val a OR push_bit 4 (digit_val b)) # bcd s"

text \<open>Seven-bit text: bit \<open>k\<close> of the packed data is bit \<open>k mod 7\<close> of character \<open>k div 7\<close>.\<close>

definition septet_bit :: "string \<Rightarrow> nat \<Rightarrow> bool" where
  "septet_bit text k \<longleftrightarrow>
    k < 7 * length text \<and> bit (of_char (text ! (k div 7)) :: u8) (k mod 7)"

definition pack7 :: "string \<Rightarrow> u8 list" where
  "pack7 text = map (\<lambda>k. horner_sum of_bool 2 (map (\<lambda>b. septet_bit text (8 * k + b)) [0..<8]))
    [0..<(length text * 7 + 7) div 8]"

text \<open>The SMS-SUBMIT PDU as a byte list.\<close>

definition sca_bytes :: "string option \<Rightarrow> u8 list" where
  "sca_bytes smsc = (case smsc of None \<Rightarrow> [0]
     | Some s \<Rightarrow> [1 + of_nat ((length (drop_plus s) + 1) div 2), 0x91] @ bcd (drop_plus s))"

definition address_bytes :: "string \<Rightarrow> u8 list" where
  "address_bytes dest = [of_nat (length (drop_plus dest)), 0x91] @ bcd (drop_plus dest)"

definition sms_submit :: "string option \<Rightarrow> string \<Rightarrow> string \<Rightarrow> u8 list" where
  "sms_submit smsc dest text = sca_bytes smsc @ [1, 0] @ address_bytes dest @ [0, 0] @ [of_nat (length text)] @ pack7 text"

text \<open>What \<open>AsciiToPDU\<close> accepts.\<close>

definition number_ok :: "string \<Rightarrow> bool" where
  "number_ok s \<longleftrightarrow> length (drop_plus s) \<le> 12 \<and> list_all is_digit (drop_plus s)"

definition smsc_ok :: "string option \<Rightarrow> bool" where
  "smsc_ok smsc \<longleftrightarrow> (case smsc of None \<Rightarrow> True | Some s \<Rightarrow> number_ok s)"

definition sms_ok :: "string option \<Rightarrow> string \<Rightarrow> string \<Rightarrow> nat \<Rightarrow> bool" where
  "sms_ok smsc dest text buflen \<longleftrightarrow> smsc_ok smsc \<and> number_ok dest \<and> length text \<le> 160 \<and>
    length (sms_submit smsc dest text) \<le> buflen"

text \<open>Decoders for the same encodings.\<close>

definition nibble :: "u8 list \<Rightarrow> nat \<Rightarrow> u8" where
  "nibble bs i = (if even i then bs ! (i div 2) AND 0x0F else drop_bit 4 (bs ! (i div 2)))"

definition unbcd :: "nat \<Rightarrow> u8 list \<Rightarrow> string" where
  "unbcd n bs = map (\<lambda>i. char_of (unat (nibble bs i) + 48)) [0..<n]"

definition unpack7 :: "nat \<Rightarrow> u8 list \<Rightarrow> string" where
  "unpack7 n bs = map (\<lambda>i. char_of (horner_sum of_bool 2
     (map (\<lambda>j. bit (bs ! ((7 * i + j) div 8)) ((7 * i + j) mod 8)) [0..<7]) :: nat)) [0..<n]"

definition decode_sca :: "u8 list \<Rightarrow> string option" where
  "decode_sca bs = (let n = unat (bs ! 0); k = n - 1; ds = take k (drop 2 bs) in
     if n = 0 then None
     else Some (unbcd (if 0 < k \<and> nibble ds (2 * k - 1) = 0xF then 2 * k - 1 else 2 * k) ds))"

definition decode_submit :: "u8 list \<Rightarrow> string option \<times> string \<times> string" where
  "decode_submit bs =
    (let r1 = drop (1 + unat (bs ! 0)) bs; da = unat (r1 ! 2); nb = (da + 1) div 2;
         r2 = drop (4 + nb) r1
     in (decode_sca bs, unbcd da (take nb (drop 4 r1)), unpack7 (unat (r2 ! 2)) (drop 3 r2)))"


text \<open>Invariant of the packing loops: the first \<open>n\<close> bits of the data area are those of the text, the
  others are 0.\<close>

definition septets_upto :: "string \<Rightarrow> nat \<Rightarrow> nat \<Rightarrow> u8 list \<Rightarrow> bool" where
  "septets_upto text n pdu buf \<longleftrightarrow>
    (\<forall>k < (length text * 7 + 7) div 8. \<forall>b < 8.
       bit (buf ! (pdu + k)) b = (8 * k + b < n \<and> septet_bit text (8 * k + b)))"


subsection \<open>Nibbles\<close>

declare NumberToNibbles_loop.simps [simp del] septet_inner.simps [simp del]

lemma unat_of_char [simp]: "unat (of_char c :: u8) = of_char c"
  using unat_of_nat [where 'a = 8, of "of_char c"] nat_of_char_less_256 [of c]
  by (simp add: of_nat_of_char)

lemma length_bcd [simp]: "length (bcd s) = (length s + 1) div 2"
  by (induction s rule: bcd.induct) auto

lemma word_less_16_cases:
  fixes a :: u8
  assumes "a < 16"
  shows "a = 0 \<or> a = 1 \<or> a = 2 \<or> a = 3 \<or> a = 4 \<or> a = 5 \<or> a = 6 \<or> a = 7 \<or>
    a = 8 \<or> a = 9 \<or> a = 10 \<or> a = 11 \<or> a = 12 \<or> a = 13 \<or> a = 14 \<or> a = 15"
proof -
  obtain n where "n < 16" "a = of_nat n"
    using assms that [of "unat a"] by (simp add: word_less_nat_alt)
  then show ?thesis by (auto simp: less_Suc_eq numeral_eq_Suc)
qed

lemma digit_val_less:
  assumes "is_digit c" shows "digit_val c < 16"
proof -
  have "(48 :: u8) \<le> of_char c" "(of_char c :: u8) \<le> 57"
    using assms by (simp_all add: is_digit_def word_le_nat_alt)
  then show ?thesis by (simp add: digit_val_def) unat_arith
qed

lemma low_nibble: "(a :: u8) < 16 \<Longrightarrow> (0xF0 OR a) AND 0x0F = a"
  by (drule word_less_16_cases) (elim disjE; simp)
lemma high_nibble: "(a :: u8) < 16 \<Longrightarrow> push_bit 4 a AND 0xF0 = push_bit 4 a"
  by (drule word_less_16_cases) (elim disjE; simp)

lemma nibble_merge:
  "is_digit a \<Longrightarrow> is_digit b \<Longrightarrow>
    ((0xF0 OR digit_val a) AND 0x0F) OR (push_bit 4 (digit_val b) AND 0xF0) =
    digit_val a OR push_bit 4 (digit_val b)"
  by (simp only: low_nibble high_nibble digit_val_less)

lemma NumberToNibbles_loop_bad:
  assumes "i < length s" "\<not> is_digit (s ! i)"
  shows "NumberToNibbles_loop s (length s) i dst buf = Some (-1, buf)"
  using assms by (subst NumberToNibbles_loop.simps) (auto simp: is_digit_def)

lemma NumberToNibbles_loop_even:
  assumes "i < length s" "is_digit (s ! i)" "even i" "dst + i div 2 < length buf"
  shows "NumberToNibbles_loop s (length s) i dst buf =
    NumberToNibbles_loop s (length s) (Suc i) dst (blit (dst + i div 2) [0xF0 OR digit_val (s ! i)] buf)"
  using assms by (subst NumberToNibbles_loop.simps)
    (auto simp: is_digit_def digit_val_def put8_blit even_iff_mod_2_eq_zero)

lemma NumberToNibbles_loop_odd:
  assumes "i < length s" "is_digit (s ! i)" "odd i" "dst + i div 2 < length buf"
  shows "NumberToNibbles_loop s (length s) i dst buf =
    NumberToNibbles_loop s (length s) (Suc i) dst (blit (dst + i div 2)
      [(buf ! (dst + i div 2) AND 0x0F) OR (push_bit 4 (digit_val (s ! i)) AND 0xF0)] buf)"
  using assms by (subst NumberToNibbles_loop.simps)
    (auto simp: is_digit_def digit_val_def put8_blit get8_def odd_iff_mod_2_eq_one)

lemma NumberToNibbles_loop_done:
  "NumberToNibbles_loop s (length s) (length s) dst buf = Some (int ((length s + 1) div 2), buf)"
  by (subst NumberToNibbles_loop.simps) simp

lemma NumberToNibbles_loop_digits:
  assumes "list_all is_digit ds" "s = pre @ ds" "even (length pre)"
    and "dst + (length s + 1) div 2 \<le> length buf"
  shows "NumberToNibbles_loop s (length s) (length pre) dst buf =
    Some (int ((length s + 1) div 2), blit (dst + length pre div 2) (bcd ds) buf)"
  using assms
proof (induction ds arbitrary: pre buf rule: bcd.induct)
  case 1
  then show ?case by (simp add: NumberToNibbles_loop_done)
next
  case (2 a)
  then have "s ! length pre = a" "length s = Suc (length pre)" by (simp_all add: nth_append)
  with 2 NumberToNibbles_loop_even [of "length pre" s dst buf] show ?case
    using NumberToNibbles_loop_done [of s] by simp
next
  case (3 a b ds)
  define q where "q = dst + length pre div 2"
  have len: "length s = Suc (Suc (length pre + length ds))" using "3.prems" by simp
  have q: "q < length buf" using "3.prems" len by (simp add: q_def)
  have pre: "even (length (pre @ [a, b]))" "length (pre @ [a, b]) div 2 = Suc (length pre div 2)"
    using "3.prems"(3) by simp_all
  have nth: "s ! length pre = a" "s ! Suc (length pre) = b" using "3.prems" by (simp_all add: nth_append)
  let ?b1 = "blit q [0xF0 OR digit_val a] buf"
  have "NumberToNibbles_loop s (length s) (length pre) dst buf =
      NumberToNibbles_loop s (length s) (Suc (length pre)) dst ?b1"
    using NumberToNibbles_loop_even [of "length pre" s dst buf] "3.prems"(1,3) len q nth(1)
    by (simp add: q_def)
  also have "\<dots> = NumberToNibbles_loop s (length s) (length (pre @ [a, b])) dst
      (blit q [digit_val a OR push_bit 4 (digit_val b)] buf)"
    using NumberToNibbles_loop_odd [of "Suc (length pre)" s dst ?b1] nibble_merge [of a b]
      "3.prems"(1,3) len q nth(2)
    by (simp add: q_def length_blit nth_blit blit_overwrite)
  also have "\<dots> = Some (int ((length s + 1) div 2),
      blit (dst + length (pre @ [a, b]) div 2) (bcd ds)
        (blit q [digit_val a OR push_bit 4 (digit_val b)] buf))"
    using "3.prems" len q pre by (intro "3.IH") (simp_all add: length_blit)
  also have "\<dots> = Some (int ((length s + 1) div 2), blit q (bcd (a # b # ds)) buf)"
    using q pre by (simp add: q_def blit_blit)
  finally show ?case by (simp add: q_def)
qed

lemma NumberToNibbles_digits:
  assumes "list_all is_digit s" "dst + (length s + 1) div 2 \<le> length buf"
  shows "NumberToNibbles s (length s) dst buf =
    Some (int ((length s + 1) div 2), blit dst (bcd s) buf)"
  using NumberToNibbles_loop_digits [of s s "[]" dst buf] assms
  by (simp add: NumberToNibbles_def)


lemma NumberToNibbles_loop_step:
  assumes "i < length s" "is_digit (s ! i)" "dst + i div 2 < length buf"
  shows "\<exists>buf'. NumberToNibbles_loop s (length s) i dst buf =
    NumberToNibbles_loop s (length s) (Suc i) dst buf' \<and> length buf' = length buf"
  using assms NumberToNibbles_loop_even [of i s dst buf] NumberToNibbles_loop_odd [of i s dst buf]
  by (cases "even i") (auto simp: length_blit intro!: exI)

lemma NumberToNibbles_loop_not_digits:
  assumes "i \<le> length s" "\<not> list_all is_digit (drop i s)"
    and "dst + (length s + 1) div 2 \<le> length buf"
  shows "\<exists>buf'. NumberToNibbles_loop s (length s) i dst buf = Some (-1, buf') \<and> length buf' = length buf"
  using assms
proof (induction "length s - i" arbitrary: i buf)
  case 0
  then show ?case by simp
next
  case (Suc k)
  then have i: "i < length s" by simp
  show ?case
  proof (cases "is_digit (s ! i)")
    case False
    with i show ?thesis by (simp add: NumberToNibbles_loop_bad)
  next
    case True
    have rest: "\<not> list_all is_digit (drop (Suc i) s)"
      using Suc.prems(2) True i by (simp add: Cons_nth_drop_Suc [symmetric])
    have "dst + i div 2 < length buf" using Suc.prems(3) i by linarith
    with True i obtain buf' where
        step: "NumberToNibbles_loop s (length s) i dst buf =
          NumberToNibbles_loop s (length s) (Suc i) dst buf'" and len: "length buf' = length buf"
      using NumberToNibbles_loop_step by blast
    with Suc i rest show ?thesis using Suc.hyps(1) [of "Suc i" buf'] by simp
  qed
qed

lemma NumberToNibbles_not_digits:
  assumes "\<not> list_all is_digit s" "dst + (length s + 1) div 2 \<le> length buf"
  shows "\<exists>buf'. NumberToNibbles s (length s) dst buf = Some (-1, buf') \<and> length buf' = length buf"
  using NumberToNibbles_loop_not_digits [of 0 s dst buf] assms by (simp add: NumberToNibbles_def)


subsection \<open>Septets\<close>

lemma length_pack7 [simp]: "length (pack7 text) = (length text * 7 + 7) div 8"
  by (simp add: pack7_def)

lemma bit_pack7:
  "k < (length text * 7 + 7) div 8 \<Longrightarrow> b < 8 \<Longrightarrow> bit (pack7 text ! k) b = septet_bit text (8 * k + b)"
  by (simp add: pack7_def bit_horner_sum_bit_iff)

lemma septet_store:
  assumes inv: "septets_upto text n pdu buf" and n: "n < 7 * length text"
    and room: "pdu + (length text * 7 + 7) div 8 \<le> length buf"
  shows "septets_upto text (Suc n) pdu
    (buf[pdu + n div 8 := buf ! (pdu + n div 8) OR push_bit (n mod 8) (of_bool (septet_bit text n))])"
  unfolding septets_upto_def
proof (intro allI impI)
  fix k b assume k: "k < (length text * 7 + 7) div 8" and b: "b < (8::nat)"
  have nk: "n div 8 < (length text * 7 + 7) div 8" using n by linarith
  have eq: "8 * k + b = n \<longleftrightarrow> k = n div 8 \<and> b = n mod 8" using b by auto
  have old: "bit (buf ! (pdu + k)) b = (8 * k + b < n \<and> septet_bit text (8 * k + b))"
    using inv k b by (simp add: septets_upto_def)
  show "bit (buf[pdu + n div 8 := buf ! (pdu + n div 8) OR push_bit (n mod 8) (of_bool (septet_bit text n))]
       ! (pdu + k)) b = (8 * k + b < Suc n \<and> septet_bit text (8 * k + b))"
  proof (cases "k = n div 8")
    case True
    then show ?thesis using old room nk b eq
      by (auto simp: nth_list_update bit_or_iff bit_push_bit_iff bit_of_bool_iff less_Suc_eq)
  next
    case False
    then show ?thesis using old eq by (auto simp: less_Suc_eq)
  qed
qed

lemma septets_upto_pack7:
  assumes "septets_upto text (7 * length text) pdu (blit pdu xs buf)"
    and "length xs = (length text * 7 + 7) div 8" "pdu + length xs \<le> length buf"
  shows "blit pdu xs buf = blit pdu (pack7 text) buf"
proof -
  have "xs = pack7 text"
  proof (rule nth_equalityI)
    show "length xs = length (pack7 text)" using assms by simp
    fix k assume k: "k < length xs"
    show "xs ! k = pack7 text ! k"
    proof (rule bit_word_eqI)
      fix b assume "b < LENGTH(8)"
      with k assms show "bit (xs ! k) b = bit (pack7 text ! k) b"
        by (auto simp: septets_upto_def nth_blit bit_pack7) (auto simp: septet_bit_def)
    qed
  qed
  then show ?thesis by simp
qed

lemma septet_bit_at:
  assumes "j < 7" "text = pre @ c # suf"
  shows "septet_bit text (7 * length pre + j) = bit (of_char c :: u8) j"
proof -
  have "(7 * length pre + j) div 7 = length pre" "(7 * length pre + j) mod 7 = j" using assms by auto
  then show ?thesis using assms by (simp add: septet_bit_def nth_append)
qed

text \<open>The buffer written so far differs from the original only in the data area.\<close>

lemma septet_inner_ok:
  assumes "j \<le> 7" "text = pre @ c # suf" "length xs = (length text * 7 + 7) div 8"
    and "pdu + length xs \<le> length buf"
    and "septets_upto text (7 * length pre + j) pdu (blit pdu xs buf)"
  shows "\<exists>ys. septet_inner c j (7 * length pre + j) pdu (blit pdu xs buf) =
      Some (7 * length (pre @ [c]), blit pdu ys buf) \<and> length ys = length xs \<and>
      septets_upto text (7 * length (pre @ [c])) pdu (blit pdu ys buf)"
  using assms
proof (induction "7 - j" arbitrary: j xs)
  case 0
  then show ?case by (subst septet_inner.simps) (auto simp: add.commute intro!: exI [of _ xs])
next
  case (Suc m)
  let ?n = "7 * length pre + j" and ?B = "blit pdu xs buf"
  define v where "v = ?B ! (pdu + ?n div 8) OR push_bit (?n mod 8) (of_bool (septet_bit text ?n))"
  define ys where "ys = xs[?n div 8 := v]"
  have n: "?n < 7 * length text" "j < 7" using Suc.hyps(2) Suc.prems(2) by auto
  then have at: "?n div 8 < length xs" using Suc.prems(3) by linarith
  have B: "?B[pdu + ?n div 8 := v] = blit pdu ys buf"
    using at Suc.prems(4) by (simp add: blit_def ys_def list_update_append)
  have bit: "(if (of_char c :: u8) AND push_bit j 1 \<noteq> 0 then 1 else 0 :: u8) = of_bool (septet_bit text ?n)"
    using septet_bit_at [OF n(2) Suc.prems(2)] by (simp add: and_exp_eq_0_iff_not_bit)
  have "septet_inner c j ?n pdu ?B = septet_inner c (Suc j) (7 * length pre + Suc j) pdu (blit pdu ys buf)"
    using n at Suc.prems(4) B bit
    by (subst septet_inner.simps) (simp add: get8_def put8_def length_blit v_def)
  moreover have "septets_upto text (7 * length pre + Suc j) pdu (blit pdu ys buf)"
    using septet_store [OF Suc.prems(5) n(1)] Suc.prems(3,4) B by (simp add: v_def length_blit)
  ultimately show ?case
    using Suc.hyps(1) [of "Suc j" ys] Suc.hyps(2) Suc.prems by (simp add: ys_def)
qed

lemma septet_outer_ok:
  assumes "text = pre @ suf" "length xs = (length text * 7 + 7) div 8"
    and "pdu + length xs \<le> length buf"
    and "septets_upto text (7 * length pre) pdu (blit pdu xs buf)"
  shows "septet_outer suf (7 * length pre) pdu (blit pdu xs buf) = Some (blit pdu (pack7 text) buf)"
  using assms
proof (induction suf arbitrary: pre xs)
  case Nil
  then show ?case using septets_upto_pack7 [of "text" pdu xs buf] by simp
next
  case (Cons c suf)
  obtain ys where "septet_inner c 0 (7 * length pre) pdu (blit pdu xs buf) =
      Some (7 * length (pre @ [c]), blit pdu ys buf)" "length ys = length xs"
      "septets_upto text (7 * length (pre @ [c])) pdu (blit pdu ys buf)"
    using septet_inner_ok [of 0 "text" pre c suf xs pdu buf] Cons.prems by auto
  then show ?case using Cons.IH [of "pre @ [c]" ys] Cons.prems by simp
qed

lemma septets_written:
  assumes "pdu + (length text * 7 + 7) div 8 \<le> length buf"
  shows "septet_outer text 0 pdu (blit pdu (replicate ((length text * 7 + 7) div 8) 0) buf) =
    Some (blit pdu (pack7 text) buf)"
  using assms septet_outer_ok [of "text" "[]" "text" "replicate ((length text * 7 + 7) div 8) 0" pdu buf]
  by (simp add: septets_upto_def nth_blit)


subsection \<open>Decoding\<close>

lemma unpack7_pack7:
  assumes "list_all (\<lambda>c. (of_char c :: nat) < 128) text"
  shows "unpack7 (length text) (pack7 text) = text"
proof (rule nth_equalityI)
  show "length (unpack7 (length text) (pack7 text)) = length text" by (simp add: unpack7_def)
  fix i assume "i < length (unpack7 (length text) (pack7 text))"
  then have i: "i < length text" by (simp add: unpack7_def)
  have bits: "bit (pack7 text ! ((7 * i + j) div 8)) ((7 * i + j) mod 8) = bit (of_char (text ! i) :: u8) j"
    if "j < 7" for j
  proof -
    have "(7 * i + j) div 8 < (length text * 7 + 7) div 8" using i that by linarith
    moreover have "(7 * i + j) div 7 = i" "(7 * i + j) mod 7 = j" "7 * i + j < 7 * length text" using i that by auto
    ultimately show ?thesis by (simp add: bit_pack7 septet_bit_def)
  qed
  have "(horner_sum of_bool 2
     (map (\<lambda>j. bit (pack7 text ! ((7 * i + j) div 8)) ((7 * i + j) mod 8)) [0..<7]) :: nat) = of_char (text ! i)"
  proof (rule bit_eqI)
    fix n
    have "(of_char (text ! i) :: nat) < 2 ^ 7" using assms i by (simp add: list_all_length)
    then have "bit (of_char (text ! i) :: nat) n \<Longrightarrow> n < 7"
      by (metis bit_take_bit_iff take_bit_nat_eq_self_iff)
    moreover have "bit (of_char (text ! i) :: u8) n = bit (of_char (text ! i) :: nat) n" if "n < 7"
      using bit_unsigned_iff [of "of_char (text ! i) :: u8" n, where ?'a = nat] that
      by (simp only: unat_of_char) simp
    ultimately show "bit (horner_sum of_bool 2 (map (\<lambda>j. bit (pack7 text ! ((7 * i + j) div 8))
        ((7 * i + j) mod 8)) [0..<7]) :: nat) n = bit (of_char (text ! i) :: nat) n"
      by (auto simp: bit_horner_sum_bit_iff bits)
  qed
  then show "unpack7 (length text) (pack7 text) ! i = text ! i" using i by (simp add: unpack7_def)
qed

lemma nibble_Cons: "nibble (b # bs) (Suc (Suc i)) = nibble bs i"
  by (simp add: nibble_def)

lemma nibble_parts:
  fixes a :: u8
  assumes "a < 16"
  shows "a AND 0x0F = a" "push_bit 4 a AND 0x0F = 0" "drop_bit 4 a = 0" "drop_bit 4 (push_bit 4 a) = a"
  using word_less_16_cases [OF assms] by (elim disjE; simp)+

lemma nibble_join:
  fixes a b :: u8
  assumes "a < 16" "b < 16"
  shows "(a OR push_bit 4 b) AND 0x0F = a" "drop_bit 4 (a OR push_bit 4 b) = b"
  using nibble_parts [OF assms(1)] nibble_parts [OF assms(2)]
  by (simp_all add: word_ao_dist drop_bit_or)

lemma digit_val_inverse:
  assumes "is_digit c" shows "char_of (unat (digit_val c) + 48 :: nat) = c"
proof -
  have "(48 :: u8) \<le> of_char c" "48 \<le> (of_char c :: nat)"
    using assms by (simp_all add: is_digit_def word_le_nat_alt)
  then have "unat (digit_val c) + 48 = of_char c" by (simp add: digit_val_def unat_sub)
  then show ?thesis by simp
qed

lemma unbcd_bcd:
  assumes "list_all is_digit s"
  shows "unbcd (length s) (bcd s) = s"
  using assms
proof (induction s rule: bcd.induct)
  case 1
  then show ?case by (simp add: unbcd_def)
next
  case (2 a)
  then show ?case by (simp add: unbcd_def nibble_def low_nibble digit_val_less digit_val_inverse)
next
  case (3 a b s)
  have "unbcd (length (a # b # s)) (bcd (a # b # s)) =
     a # b # unbcd (length s) (bcd s)"
    using "3.prems" nibble_join [OF digit_val_less [of a] digit_val_less [of b]]
    by (simp add: unbcd_def upt_conv_Cons map_Suc_upt [symmetric] nibble_Cons digit_val_inverse o_def del: upt_Suc) (simp add: nibble_def digit_val_inverse)
  then show ?case using 3 by simp
qed


subsection \<open>The blocks of the PDU\<close>

lemma number_bytes: "number_ok s \<Longrightarrow> \<not> 6 < Suc (length (drop_plus s)) div 2"
  by (auto simp: number_ok_def)

lemma pdu_sca_ok:
  assumes "smsc_ok smsc" "length (sca_bytes smsc) \<le> buflen" "buflen \<le> length buf" "buf \<noteq> []"
  shows "pdu_sca smsc buflen buf =
    Some (Inr (length (sca_bytes smsc), length (sca_bytes smsc), blit 0 (sca_bytes smsc) buf))"
proof (cases smsc)
  case None
  with assms show ?thesis by (simp add: pdu_sca_def sca_bytes_def put8_blit)
next
  case (Some s)
  with assms have "number_ok s" by (simp add: smsc_ok_def)
  with number_bytes [of s] Some assms show ?thesis
    by (simp add: pdu_sca_def sca_bytes_def number_ok_def pdu_consts Let_def
       buf_simps NumberToNibbles_digits)
qed

lemma pdu_dest_ok:
  assumes "number_ok dest" "len + length (address_bytes dest) \<le> buflen" "buflen \<le> length buf"
  shows "pdu_dest dest buflen len len buf =
    Some (Inr (len + length (address_bytes dest), len + length (address_bytes dest), 
       blit len (address_bytes dest) buf))"
  using assms number_bytes [OF assms(1)]
  by (simp add: pdu_dest_def address_bytes_def number_ok_def pdu_consts Let_def
       buf_simps NumberToNibbles_digits)

lemma pdu_user_data_ok:
  assumes "length text \<le> 160" "len + 1 + length (pack7 text) \<le> buflen" "buflen \<le> length buf"
  shows "pdu_user_data text buflen len len buf =
    Some (int (len + 1 + length (pack7 text)), blit len (of_nat (length text) # pack7 text) buf)"
  using assms
  by (simp add: pdu_user_data_def pdu_consts Let_def memset0_def septets_written
      put8_blit length_blit) (simp add: blit_blit)

lemma length_sca: "smsc_ok smsc \<Longrightarrow> length (sca_bytes smsc) \<le> 8"
  by (auto simp: smsc_ok_def number_ok_def sca_bytes_def split: option.splits)
lemma length_addr: "number_ok s \<Longrightarrow> length (address_bytes s) \<le> 8"
  by (auto simp: number_ok_def address_bytes_def)

lemma AsciiToPDU_encodes:
  assumes "smsc_ok smsc" "number_ok dest" "length text \<le> 160"
    and "length (sms_submit smsc dest text) \<le> buflen" "9 \<le> buflen" "buflen \<le> length buf"
  shows "AsciiToPDU smsc (Some dest) (Some text) (Some buf) buflen =
    Some (int (length (sms_submit smsc dest text)), blit 0 (sms_submit smsc dest text) buf)"
proof -
  have "buf \<noteq> []" using assms by auto
  then show ?thesis using assms
    by (simp add: AsciiToPDU_def sms_submit_def pdu_sca_ok pdu_dest_ok pdu_user_data_ok buf_simps
        pdu_consts)
qed

lemma long_number: "\<not> number_ok s \<Longrightarrow> list_all is_digit (drop_plus s) \<Longrightarrow> 6 < (length (drop_plus s) + 1) div 2"
  by (simp add: number_ok_def)

lemma pdu_sca_bad:
  assumes "\<not> smsc_ok smsc" "9 \<le> buflen" "buflen \<le> length buf"
  shows "\<exists>buf'. pdu_sca smsc buflen buf = Some (Inl (-1, buf')) \<and> length buf' = length buf"
proof -
  obtain s where s: "smsc = Some s" "\<not> number_ok s"
    using assms by (auto simp: smsc_ok_def split: option.splits)
  show ?thesis
  proof (cases "6 < (length (drop_plus s) + 1) div 2")
    case True
    then show ?thesis by (simp add: pdu_sca_def s pdu_consts Let_def)
  next
    case False
    define buf2 where "buf2 = buf[0 := 1 + of_nat ((length (drop_plus s) + 1) div 2), 1 := 0x91]"
    have "\<not> list_all is_digit (drop_plus s)" using False long_number s by blast
    moreover have "2 + (length (drop_plus s) + 1) div 2 \<le> length buf2" using False assms by (simp add: buf2_def)
    ultimately obtain buf3 where "NumberToNibbles (drop_plus s) (length (drop_plus s)) 2 buf2 = Some (-1, buf3)"
        "length buf3 = length buf2"
      using NumberToNibbles_not_digits by blast
    moreover have "0 < length buf" "1 < length buf" "\<not> buflen < 2 + (length (drop_plus s) + 1) div 2"
      using False assms by auto
    ultimately show ?thesis using False
      by (simp add: pdu_sca_def s pdu_consts Let_def put8_def buf2_def)
  qed
qed

lemma pdu_dest_bad:
  assumes "\<not> number_ok dest \<or> buflen < len + length (address_bytes dest)" "len < length buf" "buflen \<le> length buf"
  shows "\<exists>buf'. pdu_dest dest buflen len len buf = Some (Inl (-1, buf')) \<and> length buf' = length buf"
proof -
  let ?n = "(length (drop_plus dest) + 1) div 2"
  consider "6 < ?n" | "\<not> 6 < ?n" "buflen < len + 2 + ?n" | "\<not> 6 < ?n" "len + 2 + ?n \<le> buflen" by linarith
  then show ?thesis
  proof cases
    case 1
    then show ?thesis by (simp add: pdu_dest_def pdu_consts Let_def)
  next
    case 2
    then show ?thesis using assms(2) by (simp add: pdu_dest_def pdu_consts Let_def put8_def)
  next
    case 3
    define buf2 where "buf2 = buf[len := of_nat (length (drop_plus dest)), len + 1 := 0x91]"
    have "\<not> list_all is_digit (drop_plus dest)" using 3 assms long_number by (auto simp: address_bytes_def)
    moreover have "len + 2 + ?n \<le> length buf2" using 3 assms by (simp add: buf2_def)
    ultimately obtain buf3 where "NumberToNibbles (drop_plus dest) (length (drop_plus dest)) (len + 2) buf2 = Some (-1, buf3)"
        "length buf3 = length buf2"
      using NumberToNibbles_not_digits by blast
    then show ?thesis using 3 assms
      by (simp add: pdu_dest_def pdu_consts Let_def put8_def buf2_def)
  qed
qed

lemma AsciiToPDU_rejects:
  assumes "\<not> sms_ok smsc dest text buflen" "20 \<le> buflen" "buflen \<le> length buf"
  shows "\<exists>buf'. AsciiToPDU smsc (Some dest) (Some text) (Some buf) buflen = Some (-1, buf') \<and>
     length buf' = length buf"
proof (cases "smsc_ok smsc")
  case False
  then show ?thesis using pdu_sca_bad [of smsc buflen buf] assms
    by (auto simp: AsciiToPDU_def pdu_consts)
next
  case True
  let ?l = "length (sca_bytes smsc)"
  define buf1 where "buf1 = blit 0 (sca_bytes smsc @ [1, 0]) buf"
  have l: "?l \<le> 8" and "buf \<noteq> []" using True length_sca assms by auto
  then have step1: "AsciiToPDU smsc (Some dest) (Some text) (Some buf) buflen =
     (pdu_dest dest buflen (?l + 2) (?l + 2) buf1 \<bind> case_sum Some (\<lambda>(len, p, buf). do {
                     buf \<leftarrow> put8 p 0 buf;
                     buf \<leftarrow> put8 (p + 1) PDU_DCS_ASCII7 buf;
                     pdu_user_data text buflen (len + 2) (p + 2) buf }))"
    using assms True by (simp add: AsciiToPDU_def pdu_consts pdu_sca_ok buf_simps buf1_def)
  have len1: "length buf1 = length buf" using l assms by (simp add: buf1_def length_blit)
  show ?thesis
  proof (cases "number_ok dest \<and> ?l + 2 + length (address_bytes dest) \<le> buflen")
    case False
    then have "\<not> number_ok dest \<or> buflen < ?l + 2 + length (address_bytes dest)" by auto
    from pdu_dest_bad [OF this, of buf1] show ?thesis using assms l len1 step1 by auto
  next
    case True
    then have "length (address_bytes dest) \<le> 8" using length_addr by blast
    then show ?thesis using True assms \<open>smsc_ok smsc\<close> l len1
      by (auto simp: step1 pdu_dest_ok buf_simps pdu_user_data_def Let_def sms_ok_def sms_submit_def pdu_consts)
  qed
qed


subsection \<open>Decoding the whole PDU\<close>

text \<open>Both field encodings are codecs whose decoder is told the number of characters.\<close>

locale length_codec =
  fixes enc :: "string \<Rightarrow> u8 list"
    and dec :: "nat \<Rightarrow> u8 list \<Rightarrow> string"
    and valid :: "string \<Rightarrow> bool"
    and size_of :: "nat \<Rightarrow> nat"
  assumes dec_enc: "valid s \<Longrightarrow> dec (length s) (enc s) = s"
    and length_enc: "length (enc s) = size_of (length s)"
begin

lemma dec_take: "valid s \<Longrightarrow> dec (length s) (take (size_of (length s)) (enc s @ rest)) = s"
  by (simp add: dec_enc length_enc [symmetric])

lemma enc_inj: "valid s \<Longrightarrow> valid t \<Longrightarrow> length s = length t \<Longrightarrow> enc s = enc t \<Longrightarrow> s = t"
  by (metis dec_enc)

end

interpretation digits: length_codec bcd unbcd "list_all is_digit" "\<lambda>n. (n + 1) div 2"
  by unfold_locales (simp_all add: unbcd_bcd)

interpretation septets: length_codec pack7 unpack7
    "list_all (\<lambda>c. (of_char c :: nat) < 128)" "\<lambda>n. (n * 7 + 7) div 8"
  by unfold_locales (simp_all add: unpack7_pack7)

lemma digit_val_le_9: "is_digit c \<Longrightarrow> digit_val c \<le> 9"
proof -
  assume "is_digit c"
  then have "(48 :: u8) \<le> of_char c" "(of_char c :: u8) \<le> 57"
    by (simp_all add: is_digit_def word_le_nat_alt)
  then show ?thesis by (simp add: digit_val_def) unat_arith
qed

lemma nibble_bcd:
  "list_all is_digit s \<Longrightarrow> i < length s \<Longrightarrow> nibble (bcd s) i = digit_val (s ! i)"
proof (induction s arbitrary: i rule: bcd.induct)
  case 1
  then show ?case by simp
next
  case (2 a)
  then show ?case by (simp add: nibble_def low_nibble digit_val_less)
next
  case (3 a b s)
  then have "nibble (bcd (a # b # s)) 0 = digit_val a" "nibble (bcd (a # b # s)) (Suc 0) = digit_val b"
    using nibble_join [OF digit_val_less [of a] digit_val_less [of b]] by (simp_all add: nibble_def)
  then show ?case using 3 by (auto simp: nth_Cons nibble_Cons split: nat.splits)
qed

lemma nibble_bcd_filler:
  "list_all is_digit s \<Longrightarrow> odd (length s) \<Longrightarrow> nibble (bcd s) (length s) = 0xF"
  by (induction s rule: bcd.induct) (simp_all add: nibble_def nibble_parts digit_val_less)

lemma decode_sca_ok:
  assumes "smsc_ok smsc"
  shows "decode_sca (sca_bytes smsc @ rest) = map_option drop_plus smsc"
proof (cases smsc)
  case None
  then show ?thesis by (simp add: decode_sca_def sca_bytes_def)
next
  case (Some s0)
  define s where "s = drop_plus s0"
  define nb where "nb = (length s + 1) div 2"
  have s: "list_all is_digit s" "nb \<le> 6" "length s \<le> 12"
    using assms Some by (auto simp: smsc_ok_def number_ok_def s_def nb_def)
  have n: "unat (1 + of_nat nb :: u8) = 1 + nb" using s(2) by (simp add: unat_word_ariths unat_of_nat)
  have last: "nibble (bcd s) (2 * nb - 1) = 0xF \<longleftrightarrow> odd (length s)" if "0 < nb"
  proof (cases "odd (length s)")
    case True
    then have "2 * nb - 1 = length s" by (auto simp: nb_def elim!: oddE)
    with True s show ?thesis by (simp add: nibble_bcd_filler)
  next
    case False
    then have "2 * nb = length s" by (auto simp: nb_def elim!: evenE)
    then have "2 * nb - 1 < length s" using that by simp
    then have "nibble (bcd s) (2 * nb - 1) \<le> 9" using s
      by (simp add: nibble_bcd digit_val_le_9 list_all_length)
    then have "nibble (bcd s) (2 * nb - 1) \<noteq> 0xF" by auto
    with False show ?thesis by simp
  qed
  have len: "(if 0 < nb \<and> odd (length s) then 2 * nb - 1 else 2 * nb) = length s"
    by (cases "odd (length s)") (auto simp: nb_def elim!: oddE evenE)
  have bs: "sca_bytes smsc @ rest = (1 + of_nat nb) # 0x91 # bcd s @ rest" and lb: "length (bcd s) = nb"
    by (simp_all add: sca_bytes_def Some s_def nb_def)
  show ?thesis unfolding bs
    using n last len digits.dec_enc [OF s(1)] lb
    by (auto simp: decode_sca_def Let_def Some s_def [symmetric] simp del: length_bcd split: if_splits)
qed

lemma decode_submit_ok:
  assumes "smsc_ok smsc" "number_ok dest" "length text \<le> 160" "list_all (\<lambda>c. (of_char c :: nat) < 128) text"
  shows "decode_submit (sms_submit smsc dest text) = (map_option drop_plus smsc, drop_plus dest, text)"
proof -
  have sca: "1 + unat (sms_submit smsc dest text ! 0) = length (sca_bytes smsc)"
    using assms(1) by (cases smsc) (auto simp: sms_submit_def sca_bytes_def smsc_ok_def number_ok_def unat_word_ariths unat_of_nat)
  have da: "unat (of_nat (length (drop_plus dest)) :: u8) = length (drop_plus dest)"
    "unat (of_nat (length text) :: u8) = length text"
    using assms by (auto simp: number_ok_def unat_of_nat)
  have dig: "list_all is_digit (drop_plus dest)" using assms by (simp add: number_ok_def)
  have r1: "drop (length (sca_bytes smsc)) (sms_submit smsc dest text) =
     [1, 0] @ address_bytes dest @ [0, 0] @ [of_nat (length text)] @ pack7 text"
    by (simp add: sms_submit_def)
  define nb where "nb = (length (drop_plus dest) + 1) div 2"
  have r2: "drop (4 + nb) ([1, 0] @ address_bytes dest @ [0, 0] @ [of_nat (length text)] @ pack7 text) =
      [0, 0] @ [of_nat (length text)] @ pack7 text"
      "take nb (drop 4 ([1, 0] @ address_bytes dest @ [0, 0] @ [of_nat (length text)] @ pack7 text)) =
      bcd (drop_plus dest)"
    by (simp_all add: nb_def address_bytes_def numeral_eq_Suc)
  have r3: "unat (([1, 0] @ address_bytes dest @ [0, 0] @ [of_nat (length text)] @ pack7 text) ! 2) = length (drop_plus dest)"
    using da by (simp add: address_bytes_def)
  have "decode_sca (sms_submit smsc dest text) = map_option drop_plus smsc"
    using decode_sca_ok [OF assms(1)] by (simp add: sms_submit_def)
  then show ?thesis
    unfolding decode_submit_def sca r1 Let_def r3 nb_def [symmetric] r2
    using da digits.dec_enc [OF dig] septets.dec_enc [OF assms(4)] by simp
qed

subsection \<open>Properties\<close>

text \<open>\<open>NumberToNibbles\<close> with room for the packed digits never leaves its buffer.  On a string
  of decimal digits it returns the number of bytes and stores exactly the packed semi-octets,
  touching nothing else; on any other string it returns -1.\<close>

lemma NumberToNibbles_spec:
  assumes "dst + (length s + 1) div 2 \<le> length buf"
  shows "if list_all is_digit s
    then NumberToNibbles s (length s) dst buf = Some (int ((length s + 1) div 2), blit dst (bcd s) buf)
    else \<exists>buf'. NumberToNibbles s (length s) dst buf = Some (-1, buf') \<and> length buf' = length buf"
  using assms NumberToNibbles_digits NumberToNibbles_not_digits by simp

text \<open>C1: With a buffer of at least 20 bytes \<open>AsciiToPDU\<close> never accesses memory outside it.  It
  returns the length of the SMS-SUBMIT PDU and stores exactly that PDU when both numbers have at
  most twelve digits and nothing but digits after an optional plus, the text has at most 160
  characters and the PDU fits the buffer; in every other case it returns -1.\<close>

theorem AsciiToPDU_spec:
  assumes "20 \<le> buflen" "buflen \<le> length buf"
  shows "if sms_ok smsc dest text buflen
    then AsciiToPDU smsc (Some dest) (Some text) (Some buf) buflen =
      Some (int (length (sms_submit smsc dest text)), blit 0 (sms_submit smsc dest text) buf)
    else \<exists>buf'. AsciiToPDU smsc (Some dest) (Some text) (Some buf) buflen = Some (-1, buf') \<and>
      length buf' = length buf"
proof (cases "sms_ok smsc dest text buflen")
  case True
  then show ?thesis using AsciiToPDU_encodes [of smsc dest "text" buflen buf] assms
    by (simp add: sms_ok_def)
next
  case False
  then show ?thesis using AsciiToPDU_rejects [of smsc dest "text" buflen buf] assms by simp
qed

theorem AsciiToPDU_spec_witness:
  "AsciiToPDU None (Some ''+79001234567'') (Some ''Hello'') (Some (replicate 20 0)) 20 =
    Some (19, [0, 1, 0, 11, 0x91, 0x97, 0x00, 0x21, 0x43, 0x65, 0xF7, 0, 0,
               5, 0xC8, 0x32, 0x9B, 0xFD, 0x06, 0])"
proof -
  have "sms_ok None ''+79001234567'' ''Hello'' 20" by code_simp
  moreover have "length (sms_submit None ''+79001234567'' ''Hello'') = 19" by code_simp
  moreover have "blit 0 (sms_submit None ''+79001234567'' ''Hello'') (replicate 20 0) =
      [0, 1, 0, 11, 0x91, 0x97, 0x00, 0x21, 0x43, 0x65, 0xF7, 0, 0,
       5, 0xC8, 0x32, 0x9B, 0xFD, 0x06, 0]" by code_simp
  ultimately show ?thesis
    using AsciiToPDU_spec [of 20 "replicate 20 0" None "''+79001234567''" "''Hello''"] by simp
qed

text \<open>C5: Decoding what \<open>AsciiToPDU\<close> stored gives back the service centre number, the
  destination number (both without the plus) and the text, for every input it accepts whose
  characters are seven-bit.\<close>

theorem AsciiToPDU_roundtrip:
  assumes "20 \<le> buflen" "buflen \<le> length buf" "sms_ok smsc dest text buflen"
    and "list_all (\<lambda>c. (of_char c :: nat) < 128) text"
  shows "\<exists>len buf'. AsciiToPDU smsc (Some dest) (Some text) (Some buf) buflen = Some (int len, buf') \<and>
    len \<le> buflen \<and> decode_submit (take len buf') = (map_option drop_plus smsc, drop_plus dest, text)"
proof -
  let ?P = "sms_submit smsc dest text"
  have "AsciiToPDU smsc (Some dest) (Some text) (Some buf) buflen = Some (int (length ?P), blit 0 ?P buf)"
    using assms by (intro AsciiToPDU_encodes) (simp_all add: sms_ok_def)
  moreover have "take (length ?P) (blit 0 ?P buf) = ?P" by (simp add: blit_def)
  ultimately show ?thesis using assms decode_submit_ok [of smsc dest "text"] by (auto simp: sms_ok_def)
qed

theorem AsciiToPDU_roundtrip_witness:
  "\<exists>len buf'. AsciiToPDU (Some ''+7900123'') (Some ''12'') (Some ''Hi'') (Some (replicate 20 0)) 20 =
      Some (int len, buf') \<and> len \<le> 20 \<and>
    decode_submit (take len buf') = (Some ''7900123'', ''12'', ''Hi'')"
proof -
  have "sms_ok (Some ''+7900123'') ''12'' ''Hi'' 20" by code_simp
  moreover have "list_all (\<lambda>c. (of_char c :: nat) < 128) ''Hi''" by code_simp
  ultimately show ?thesis
    using AsciiToPDU_roundtrip [of 20 "replicate 20 0" "Some ''+7900123''" "''12''" "''Hi''"] by simp
qed


end
