(* ===== verification/Effects.thy ===== *)
theory Effects
  imports Prelude
begin

section \<open>Effects: programs that call services outside the repository\<close>

text \<open>
  A program that calls the kernel, a driver or a library outside the repository is a value of the
  library's state monad.  Its state has two parts: the outside \<open>world\<close>, of any type, which only the
  service functions (parameters of every model) can read and change, and the \<open>trace\<close> of the calls
  made so far with what they returned.  A theorem with no hypothesis on the services holds whatever
  they answer.

  \<open>io_post m Q\<close> is the contract used for such theorems: from every state, \<open>m\<close> ends with a result \<open>r\<close>
  and appends to the trace a list of events \<open>es\<close> with \<open>Q r es\<close>.
\<close>

record ('w, 'e) sys =
  world :: 'w
  trace :: "'e list"

type_synonym ('w, 'e, 'a) io = "(('w, 'e) sys, 'a) state"

abbreviation io_return :: "'a \<Rightarrow> ('w, 'e, 'a) io" where
  "io_return \<equiv> State_Monad.return"

definition call :: "('r \<Rightarrow> 'e) \<Rightarrow> ('w \<Rightarrow> 'r \<times> 'w) \<Rightarrow> ('w, 'e, 'r) io" where
  "call ev f = State (\<lambda>s. case f (world s) of
     (r, w) \<Rightarrow> (r, s\<lparr>world := w, trace := trace s @ [ev r]\<rparr>))"

definition emit :: "'e \<Rightarrow> ('w, 'e, unit) io" where
  "emit e = State (\<lambda>s. ((), s\<lparr>trace := trace s @ [e]\<rparr>))"

definition run_io :: "('w, 'e, 'a) io \<Rightarrow> 'w \<Rightarrow> 'a \<times> 'e list" where
  "run_io m w = (let (r, s) = run_state m \<lparr>world = w, trace = []\<rparr> in (r, trace s))"

definition io_post :: "('w, 'e, 'a) io \<Rightarrow> ('a \<Rightarrow> 'e list \<Rightarrow> bool) \<Rightarrow> bool" where
  "io_post m Q \<longleftrightarrow> (\<forall>s. \<exists>es. trace (snd (run_state m s)) = trace s @ es \<and>
     Q (fst (run_state m s)) es)"

named_theorems io_rules \<open>contracts of effectful programs\<close>

lemma run_state_call [simp]:
  "run_state (call ev f) s = (fst (f (world s)),
     s\<lparr>world := snd (f (world s)), trace := trace s @ [ev (fst (f (world s)))]\<rparr>)"
  by (simp add: call_def split: prod.splits)

lemma run_state_emit [simp]: "run_state (emit e) s = ((), s\<lparr>trace := trace s @ [e]\<rparr>)"
  by (simp add: emit_def)

lemma io_post_return [io_rules]: "Q x [] \<Longrightarrow> io_post (State_Monad.return x) Q"
  by (simp add: io_post_def)

lemma io_post_call [io_rules]: "(\<And>r. Q r [ev r]) \<Longrightarrow> io_post (call ev f) Q"
  by (simp add: io_post_def)

lemma io_post_emit [io_rules]: "Q () [e] \<Longrightarrow> io_post (emit e) Q"
  by (simp add: io_post_def)

lemma io_post_bind:
  assumes "io_post m P" "\<And>x es. P x es \<Longrightarrow> io_post (f x) (\<lambda>y es'. Q y (es @ es'))"
  shows "io_post (State_Monad.bind m f) Q"
  unfolding io_post_def
proof
  fix s
  obtain x s1 where m: "run_state m s = (x, s1)" by fastforce
  obtain es where es: "trace s1 = trace s @ es" "P x es"
    using assms(1) m unfolding io_post_def by (metis fst_conv snd_conv)
  obtain y s2 where f: "run_state (f x) s1 = (y, s2)" by fastforce
  then obtain es' where "trace s2 = trace s1 @ es'" "Q y (es @ es')"
    using assms(2) [OF es(2)] unfolding io_post_def by (metis fst_conv snd_conv)
  then show "\<exists>es. trace (snd (run_state (m \<bind> f) s)) = trace s @ es \<and>
      Q (fst (run_state (m \<bind> f) s)) es"
    using m f es(1) by auto
qed

lemma io_post_mono:
  assumes "io_post m P" "\<And>x es. P x es \<Longrightarrow> Q x es"
  shows "io_post m Q"
  using assms unfolding io_post_def by blast

lemma io_post_conj: "io_post m P \<Longrightarrow> io_post m Q \<Longrightarrow> io_post m (\<lambda>x es. P x es \<and> Q x es)"
  unfolding io_post_def by (metis same_append_eq)

lemma io_post_bind_call [io_rules]:
  "(\<And>r. io_post (g r) (\<lambda>y es. Q y (ev r # es))) \<Longrightarrow> io_post (State_Monad.bind (call ev f) g) Q"
  by (rule io_post_bind [where P = "\<lambda>r es. es = [ev r]"]) (auto intro: io_rules)

lemma io_post_bind_emit [io_rules]:
  "io_post (g ()) (\<lambda>y es. Q y (e # es)) \<Longrightarrow> io_post (State_Monad.bind (emit e) g) Q"
  by (rule io_post_bind [where P = "\<lambda>r es. es = [e]"]) (auto intro: io_rules)

lemma io_post_if [io_rules]:
  "(b \<Longrightarrow> io_post m Q) \<Longrightarrow> (\<not> b \<Longrightarrow> io_post n Q) \<Longrightarrow> io_post (if b then m else n) Q"
  by simp

lemma io_post_case_prod [io_rules]:
  "(\<And>a b. p = (a, b) \<Longrightarrow> io_post (f a b) Q) \<Longrightarrow> io_post (case p of (a, b) \<Rightarrow> f a b) Q"
  by (cases p) simp

lemma io_post_case_option [io_rules]:
  "(x = None \<Longrightarrow> io_post m Q) \<Longrightarrow> (\<And>a. x = Some a \<Longrightarrow> io_post (f a) Q) \<Longrightarrow>
    io_post (case x of None \<Rightarrow> m | Some a \<Rightarrow> f a) Q"
  by (cases x) simp_all

lemma io_post_case_sum [io_rules]:
  "(\<And>a. x = Inl a \<Longrightarrow> io_post (f a) Q) \<Longrightarrow> (\<And>b. x = Inr b \<Longrightarrow> io_post (g b) Q) \<Longrightarrow>
    io_post (case x of Inl a \<Rightarrow> f a | Inr b \<Rightarrow> g b) Q"
  by (cases x) simp_all

lemma io_post_let [io_rules]: "io_post (f x) Q \<Longrightarrow> io_post (Let x f) Q"
  by (simp add: Let_def)

text \<open>Programs nested in the first part of a bind.\<close>

lemma io_post_bind_if:
  "(b \<Longrightarrow> io_post (State_Monad.bind m f) Q) \<Longrightarrow> (\<not> b \<Longrightarrow> io_post (State_Monad.bind n f) Q) \<Longrightarrow>
    io_post (State_Monad.bind (if b then m else n) f) Q"
  by simp

lemma io_post_bind_bind:
  "io_post (State_Monad.bind m (\<lambda>x. State_Monad.bind (g x) f)) Q \<Longrightarrow> io_post (State_Monad.bind (State_Monad.bind m g) f) Q"
  by simp

lemma io_post_bind_return: "io_post (f x) Q \<Longrightarrow> io_post (State_Monad.bind (State_Monad.return x) f) Q"
  by simp

lemmas io_nested = io_post_bind_if io_post_bind_bind io_post_bind_return

lemma io_post_run: "io_post m Q \<Longrightarrow> run_io m w = (r, es) \<Longrightarrow> Q r es"
  unfolding io_post_def run_io_def
  by (auto simp: split_beta dest!: spec [of _ "\<lparr>world = w, trace = []\<rparr>"])

subsection \<open>Resources\<close>

text \<open>
  What an event does to a resource (a handle, a descriptor), and the discipline of a trace: nothing
  but the one resource that is open is used or closed, none is opened while another one is open, and
  at the end none is open.
\<close>

datatype 'h resource_use = Opens 'h | Uses 'h | Closes 'h | NoUse

fun resource_ok :: "('e \<Rightarrow> 'h resource_use) \<Rightarrow> 'h option \<Rightarrow> 'e list \<Rightarrow> bool" where
  "resource_ok use st [] = (st = None)"
| "resource_ok use st (e # es) = (case use e of
     Opens h \<Rightarrow> st = None \<and> resource_ok use (Some h) es
   | Uses h \<Rightarrow> st = Some h \<and> resource_ok use st es
   | Closes h \<Rightarrow> st = Some h \<and> resource_ok use None es
   | NoUse \<Rightarrow> resource_ok use st es)"

definition only_uses :: "('e \<Rightarrow> 'h resource_use) \<Rightarrow> 'h \<Rightarrow> 'e list \<Rightarrow> bool" where
  "only_uses use h es \<longleftrightarrow> list_all (\<lambda>e. use e = Uses h \<or> use e = NoUse) es"

definition no_use :: "('e \<Rightarrow> 'h resource_use) \<Rightarrow> 'e list \<Rightarrow> bool" where
  "no_use use es \<longleftrightarrow> list_all (\<lambda>e. use e = NoUse) es"

lemma only_uses_simps [simp]:
  "only_uses use h []"
  "only_uses use h (e # es) = ((use e = Uses h \<or> use e = NoUse) \<and> only_uses use h es)"
  "only_uses use h (es @ es') = (only_uses use h es \<and> only_uses use h es')"
  by (simp_all add: only_uses_def)

lemma no_use_simps [simp]:
  "no_use use []"
  "no_use use (e # es) = (use e = NoUse \<and> no_use use es)"
  "no_use use (es @ es') = (no_use use es \<and> no_use use es')"
  by (simp_all add: no_use_def)

lemma resource_ok_only_uses [simp]:
  "only_uses use h es \<Longrightarrow> resource_ok use (Some h) (es @ es') = resource_ok use (Some h) es'"
  by (induction es) auto

lemma resource_ok_no_use [simp]:
  "no_use use es \<Longrightarrow> resource_ok use st (es @ es') = resource_ok use st es'"
  by (induction es) auto

lemma resource_ok_no_use_end [simp]: "no_use use es \<Longrightarrow> resource_ok use st es = (st = None)"
  by (induction es) auto

lemma only_uses_no_use: "no_use use es \<Longrightarrow> only_uses use h es"
  by (induction es) auto

lemma resource_ok_append [simp]:
  "resource_ok use st es \<Longrightarrow> resource_ok use st (es @ es') = resource_ok use None es'"
  by (induction es arbitrary: st) (auto split: resource_use.splits)

subsection \<open>Invariants of step relations\<close>

locale invariant =
  fixes start :: 's
    and step :: "'s \<Rightarrow> 's \<Rightarrow> bool"
    and inv :: "'s \<Rightarrow> bool"
  assumes inv_start: "inv start"
    and inv_step: "inv s \<Longrightarrow> step s s' \<Longrightarrow> inv s'"
begin

lemma inv_steps: "step\<^sup>*\<^sup>* s s' \<Longrightarrow> inv s \<Longrightarrow> inv s'"
  by (induction rule: rtranclp_induct) (auto intro: inv_step)

lemma inv_reachable: "step\<^sup>*\<^sup>* start s \<Longrightarrow> inv s"
  using inv_steps inv_start by blast

end

text \<open>
  A stopping phase: as long as it is not over, some step keeps it going and lowers a rank, so it can always be brought to
  its end.
\<close>

locale stopping =
  fixes step :: "'s \<Rightarrow> 's \<Rightarrow> bool"
    and phase :: "'s \<Rightarrow> bool"
    and over :: "'s \<Rightarrow> bool"
    and rank :: "'s \<Rightarrow> nat"
  assumes progress: "phase s \<Longrightarrow> \<not> over s \<Longrightarrow> \<exists>s'. step s s' \<and> phase s' \<and> rank s' < rank s"
begin

lemma can_stop: "phase s \<Longrightarrow> \<exists>t. step\<^sup>*\<^sup>* s t \<and> phase t \<and> over t"
proof (induction "rank s" arbitrary: s rule: less_induct)
  case less
  show ?case
  proof (cases "over s")
    case False
    then obtain s' where s': "step s s'" "phase s'" "rank s' < rank s" using progress less.prems by blast
    then obtain t where "step\<^sup>*\<^sup>* s' t" "phase t" "over t" using less.hyps by blast
    then show ?thesis using s'(1) converse_rtranclp_into_rtranclp [of step] by blast
  qed (use less.prems in blast)
qed

end

subsection \<open>Bounded polling\<close>

text \<open>
  Four programs poll a service: probe, decide to return or to go on, sleep, at most a given number
  of times.  Their loops all satisfy this interface.
\<close>

locale polling =
  fixes loop :: "nat \<Rightarrow> ('w, 'e, 'a) io"
    and probe :: "('w, 'e, 'a option) io"
    and pause :: "('w, 'e, unit) io"
    and timeout :: "('w, 'e, 'a) io"
  assumes loop_0: "loop 0 = timeout"
    and loop_Suc: "loop (Suc n) = State_Monad.bind probe (\<lambda>d. case d of
          Some r \<Rightarrow> State_Monad.return r
        | None \<Rightarrow> State_Monad.bind pause (\<lambda>_. loop n))"
begin

text \<open>
  \<open>Inv k es\<close>: \<open>es\<close> is what \<open>k\<close> unsuccessful rounds add to the trace.
\<close>

lemma loop_post:
  assumes start: "Inv 0 []"
    and round: "\<And>k es. Inv k es \<Longrightarrow> k < n \<Longrightarrow>
      io_post probe (\<lambda>d es'. case d of
          Some r \<Rightarrow> Q r (es @ es')
        | None \<Rightarrow> io_post pause (\<lambda>_ es''. Inv (Suc k) (es @ es' @ es'')))"
    and give_up: "\<And>es. Inv n es \<Longrightarrow> io_post timeout (\<lambda>r es'. Q r (es @ es'))"
  shows "io_post (loop n) Q"
proof -
  have "io_post (loop m) (\<lambda>r es'. Q r (es @ es'))" if "Inv k es" "n = k + m" for k m es
    using that
  proof (induction m arbitrary: k es)
    case 0
    then show ?case using give_up by (simp add: loop_0)
  next
    case (Suc m)
    show ?case unfolding loop_Suc
    proof (rule io_post_bind [OF round])
      show "Inv k es" "k < n" using Suc.prems by auto
    next
      fix d es'
      assume d: "case d of Some r \<Rightarrow> Q r (es @ es')
        | None \<Rightarrow> io_post pause (\<lambda>_ es''. Inv (Suc k) (es @ es' @ es''))"
      show "io_post (case d of Some r \<Rightarrow> State_Monad.return r
          | None \<Rightarrow> State_Monad.bind pause (\<lambda>_. loop m)) (\<lambda>r e. Q r (es @ es' @ e))"
      proof (cases d)
        case (Some r)
        with d show ?thesis by (auto intro: io_rules)
      next
        case None
        with d have "io_post pause (\<lambda>_ es''. Inv (Suc k) (es @ es' @ es''))" by simp
        then have "io_post (State_Monad.bind pause (\<lambda>_. loop m)) (\<lambda>r e. Q r (es @ es' @ e))"
        proof (rule io_post_bind)
          fix es'' assume "Inv (Suc k) (es @ es' @ es'')"
          from Suc.IH [OF this] Suc.prems
          show "io_post (loop m) (\<lambda>r e. Q r (es @ es' @ es'' @ e))" by simp
        qed
        with None show ?thesis by simp
      qed
    qed
  qed
  from this [OF start, of n] show ?thesis by simp
qed

end

end
