(* ===== verification/Modem.thy ===== *)
theory Modem
  imports Effects Sms_Pdu
begin

section \<open>The MBIM modem clients\<close>

text \<open>
  \<^verbatim>\<open>examples/cellular/mbim_sms/client/src/main.c\<close> (send one SMS) and
  \<^verbatim>\<open>examples/cellular/mbim_ntpd/client/src/client.c\<close> (connect, set the default route, wait for the
  clock).  The MBIM wrapper library, the network helpers, the sockets and the clock are the fields
  of \<open>modem_api\<close>.  An output parameter is part of a call's result.  Text printed on \<open>stderr\<close> is left
  out, so \<open>MbimPerror\<close>, which prints and returns its argument, is the identity.
\<close>

subsection \<open>Services\<close>

type_synonym handle = nat

datatype iface_flag = IWF_EXISTS | IWF_IP4 | IWF_GW4
datatype iface_timeout = DEFAULT_TIMEOUT | Seconds nat

datatype subscriber_state = SUBSCRIBER_INITIALIZED | SUBSCRIBER_OTHER nat
datatype register_state = REGISTER_HOME | REGISTER_ROAMING | REGISTER_PARTNER | REGISTER_DENIED
  | REGISTER_OTHER nat
datatype auth_protocol = AUTH_PROTOCOL_NONE | AUTH_PROTOCOL_PAP

text \<open>The arguments of \<open>VfsMbimConnect\<close> that vary; session 0, no compression, the default IP type and
  the internet context are constants of the call.\<close>

record mbim_connect =
  mc_apn :: "u16 list"      mc_apn_len :: u32
  mc_user :: "u16 list"     mc_user_len :: u32
  mc_password :: "u16 list" mc_password_len :: u32
  mc_auth :: auth_protocol

text \<open>Of \<open>MbimLibcIpConfig\<close> the client reads \<open>ipv4.addressCount\<close> and \<open>ipv4.addresses[0]\<close>.\<close>

record ip_config =
  addressCount :: u32
  addresses_0 :: u32

datatype route_flag = RTF_UP | RTF_GATEWAY

record ortentry =
  rt_dst :: u32
  rt_gateway :: u32
  rt_mask :: u32
  rt_flags :: "route_flag list"
  rt_update :: int

record tm =
  tm_year :: int
  tm_mon :: int
  tm_mday :: int
  tm_time_of_day :: nat

text \<open>The result of \<open>ioctl(fd, SIOCADDRT, \<dots>)\<close>: its value, and whether \<open>errno\<close> is \<open>EEXIST\<close>.\<close>

type_synonym ioctl_result = "int \<times> bool"

record 'w modem_api =
  wait_for_iface :: "string option \<Rightarrow> iface_flag list \<Rightarrow> iface_timeout \<Rightarrow> 'w \<Rightarrow> bool \<times> 'w"
  list_network_ifaces :: "'w \<Rightarrow> bool \<times> 'w"
  VfsMbimOpen :: "string \<Rightarrow> int \<Rightarrow> 'w \<Rightarrow> (int \<times> handle) \<times> 'w"
  VfsMbimClose :: "handle \<Rightarrow> 'w \<Rightarrow> int \<times> 'w"
  VfsMbimInfoSim :: "handle \<Rightarrow> 'w \<Rightarrow> (int \<times> subscriber_state) \<times> 'w"
  VfsMbimInfoRegisterState :: "handle \<Rightarrow> 'w \<Rightarrow> (int \<times> register_state) \<times> 'w"
  VfsMbimSmsSendPdu :: "handle \<Rightarrow> u8 list \<Rightarrow> 'w \<Rightarrow> (int \<times> u32) \<times> 'w"
  VfsMbimConnect :: "handle \<Rightarrow> mbim_connect \<Rightarrow> 'w \<Rightarrow> int \<times> 'w"
  VfsMbimInfoIpConnection :: "handle \<Rightarrow> 'w \<Rightarrow> (int \<times> ip_config) \<times> 'w"
  route_socket :: "'w \<Rightarrow> int \<times> 'w"
  ioctl_SIOCADDRT :: "int \<Rightarrow> ortentry \<Rightarrow> 'w \<Rightarrow> ioctl_result \<times> 'w"
  close_fd :: "int \<Rightarrow> 'w \<Rightarrow> unit \<times> 'w"
  localtime_now :: "'w \<Rightarrow> tm option \<times> 'w"
  mktime :: "tm \<Rightarrow> int"
  clock_settime :: "int \<Rightarrow> 'w \<Rightarrow> int \<times> 'w"
  RTL_INITIAL_YEAR :: int

datatype modem_event =
    IfaceWaited "iface_flag list" bool
  | IfacesListed bool
  | MbimOpened "int \<times> handle"
  | MbimClosed handle int
  | SimQueried handle "int \<times> subscriber_state"
  | RegisterQueried handle "int \<times> register_state"
  | PduSent handle "u8 list" "int \<times> u32"
  | MbimConnected handle mbim_connect int
  | IpQueried handle "int \<times> ip_config"
  | SocketOpened int
  | RouteAdded int ortentry ioctl_result
  | SocketClosed int unit
  | TimeRead "tm option"
  | ClockSet int int
  | Slept nat
  | BadAccess

type_synonym ('w, 'a) modem_io = "('w, modem_event, 'a) io"

definition TIMEOUT_S :: nat where "TIMEOUT_S = 30"
definition TIMEOUT_MS :: int where "TIMEOUT_MS = int TIMEOUT_S * 1000"


subsection \<open>The SMS client\<close>

fun WaitSimReady_loop :: "'w modem_api \<Rightarrow> handle \<Rightarrow> nat \<Rightarrow> ('w, int) modem_io" where
  "WaitSimReady_loop api mbim 0 = io_return (-1)"
| "WaitSimReady_loop api mbim (Suc n) = do {
     (ret, subState) \<leftarrow> call (SimQueried mbim) (VfsMbimInfoSim api mbim);
     if ret \<noteq> 0 then io_return ret
     else if subState = SUBSCRIBER_INITIALIZED then io_return 0
     else do { _ \<leftarrow> emit (Slept 1); WaitSimReady_loop api mbim n } }"

definition WaitSimReady :: "'w modem_api \<Rightarrow> handle \<Rightarrow> nat \<Rightarrow> ('w, int) modem_io" where
  "WaitSimReady api mbim seconds = WaitSimReady_loop api mbim seconds"

fun WaitRegistered_loop :: "'w modem_api \<Rightarrow> handle \<Rightarrow> nat \<Rightarrow> ('w, int) modem_io" where
  "WaitRegistered_loop api mbim 0 = io_return (-1)"
| "WaitRegistered_loop api mbim (Suc n) = do {
     (ret, registerState) \<leftarrow> call (RegisterQueried mbim) (VfsMbimInfoRegisterState api mbim);
     if ret \<noteq> 0 then io_return (-1)
     else if registerState = REGISTER_HOME \<or> registerState = REGISTER_ROAMING
       \<or> registerState = REGISTER_PARTNER then io_return 0
     else if registerState = REGISTER_DENIED then io_return (-1)
     else do { _ \<leftarrow> emit (Slept 1); WaitRegistered_loop api mbim n } }"

definition WaitRegistered :: "'w modem_api \<Rightarrow> handle \<Rightarrow> nat \<Rightarrow> ('w, int) modem_io" where
  "WaitRegistered api mbim seconds = WaitRegistered_loop api mbim seconds"

definition SMS_TEXT :: string where "SMS_TEXT = ''Hello from KasperskyOS!''"

definition main_sms :: "'w modem_api \<Rightarrow> string \<Rightarrow> ('w, int) modem_io" where
  "main_sms api DEST_NUMBER = do {
     up \<leftarrow> call (IfaceWaited [IWF_EXISTS])
       (wait_for_iface api (Some ''wwan0'') [IWF_EXISTS] DEFAULT_TIMEOUT);
     if \<not> up then io_return EXIT_FAILURE
     else do {
       _ \<leftarrow> call IfacesListed (list_network_ifaces api);
       (ret, mbim) \<leftarrow> call MbimOpened (VfsMbimOpen api ''wwan0'' TIMEOUT_MS);
       if ret \<noteq> 0 then io_return EXIT_FAILURE
       else do {
         ret \<leftarrow> WaitSimReady api mbim TIMEOUT_S;
         if ret < 0 then do {
           _ \<leftarrow> call (MbimClosed mbim) (VfsMbimClose api mbim);
           io_return EXIT_FAILURE }
         else do {
           ret \<leftarrow> WaitRegistered api mbim TIMEOUT_S;
           if ret < 0 then do {
             _ \<leftarrow> call (MbimClosed mbim) (VfsMbimClose api mbim);
             io_return EXIT_FAILURE }
           else (case AsciiToPDU None (Some DEST_NUMBER) (Some SMS_TEXT)
                        (Some (replicate 256 0)) 256 of
             None \<Rightarrow> do { _ \<leftarrow> emit BadAccess; io_return EXIT_FAILURE }
           | Some (pduLen, pdu) \<Rightarrow>
             if pduLen < 0 then do {
               _ \<leftarrow> call (MbimClosed mbim) (VfsMbimClose api mbim);
               io_return EXIT_FAILURE }
             else do {
               _ \<leftarrow> call (PduSent mbim (take (nat pduLen) pdu))
                      (VfsMbimSmsSendPdu api mbim (take (nat pduLen) pdu));
               ret \<leftarrow> call (MbimClosed mbim) (VfsMbimClose api mbim);
               if ret < 0 then io_return EXIT_FAILURE
               else io_return EXIT_SUCCESS }) } } } }"


subsection \<open>The NTP client\<close>

fun WaitSimReady_ntpd_loop :: "'w modem_api \<Rightarrow> handle \<Rightarrow> nat \<Rightarrow> ('w, int) modem_io" where
  "WaitSimReady_ntpd_loop api mbim 0 = io_return EXIT_FAILURE"
| "WaitSimReady_ntpd_loop api mbim (Suc n) = do {
     (ret, subState) \<leftarrow> call (SimQueried mbim) (VfsMbimInfoSim api mbim);
     if ret \<noteq> 0 then io_return EXIT_FAILURE
     else if subState = SUBSCRIBER_INITIALIZED then io_return EXIT_SUCCESS
     else do { _ \<leftarrow> emit (Slept 1); WaitSimReady_ntpd_loop api mbim n } }"

fun WaitRegistered_ntpd_loop :: "'w modem_api \<Rightarrow> handle \<Rightarrow> nat \<Rightarrow> ('w, int) modem_io" where
  "WaitRegistered_ntpd_loop api mbim 0 = io_return EXIT_FAILURE"
| "WaitRegistered_ntpd_loop api mbim (Suc n) = do {
     (ret, registerState) \<leftarrow> call (RegisterQueried mbim) (VfsMbimInfoRegisterState api mbim);
     if ret \<noteq> 0 then io_return EXIT_FAILURE
     else if registerState = REGISTER_HOME \<or> registerState = REGISTER_ROAMING
       \<or> registerState = REGISTER_PARTNER then io_return EXIT_SUCCESS
     else if registerState = REGISTER_DENIED then io_return EXIT_FAILURE
     else do { _ \<leftarrow> emit (Slept 1); WaitRegistered_ntpd_loop api mbim n } }"

definition SetDefaultGateway :: "'w modem_api \<Rightarrow> u32 \<Rightarrow> ('w, int) modem_io" where
  "SetDefaultGateway api addr = do {
     sockfd \<leftarrow> call SocketOpened (route_socket api);
     if sockfd = -1 then io_return EXIT_FAILURE
     else do {
       let newRt = \<lparr>rt_dst = 0, rt_gateway = addr, rt_mask = 0,
         rt_flags = [RTF_UP, RTF_GATEWAY], rt_update = 0\<rparr>;
       (r, eexist) \<leftarrow> call (RouteAdded sockfd newRt) (ioctl_SIOCADDRT api sockfd newRt);
       if r < 0 then
         (if eexist then do {
            let newRt = newRt\<lparr>rt_update := 1\<rparr>;
            (r, _) \<leftarrow> call (RouteAdded sockfd newRt) (ioctl_SIOCADDRT api sockfd newRt);
            if r = 0 then do {
              _ \<leftarrow> call (SocketClosed sockfd) (close_fd api sockfd);
              io_return EXIT_SUCCESS }
            else do {
              _ \<leftarrow> call (SocketClosed sockfd) (close_fd api sockfd);
              io_return EXIT_FAILURE } }
          else do {
            _ \<leftarrow> call (SocketClosed sockfd) (close_fd api sockfd);
            io_return EXIT_FAILURE })
       else do {
         _ \<leftarrow> call (SocketClosed sockfd) (close_fd api sockfd);
         io_return EXIT_SUCCESS } } }"

text \<open>\<open>while (s && *s++) ret++;\<close> over a buffer of 16-bit units; \<^term>\<open>None\<close> is a read past it.\<close>

fun strlen16 :: "u16 list \<Rightarrow> u32 \<Rightarrow> u32 option" where
  "strlen16 [] ret = None"
| "strlen16 (c # s) ret = (if c \<noteq> 0 then strlen16 s (ret + 1) else Some ret)"

definition StrLen16PadEven :: "u16 list option \<Rightarrow> u32 option" where
  "StrLen16PadEven s = do {
     ret \<leftarrow> (case s of None \<Rightarrow> Some 0 | Some buf \<Rightarrow> strlen16 buf 0);
     Some (if ret mod 2 = 1 then ret + 1 else ret) }"

definition MbimConnect ::
  "'w modem_api \<Rightarrow> handle \<Rightarrow> u16 list \<Rightarrow> u16 list \<Rightarrow> u16 list \<Rightarrow> ('w, int) modem_io" where
  "MbimConnect api mbim apn userName password = do {
     ret \<leftarrow> WaitSimReady_ntpd_loop api mbim TIMEOUT_S;
     if ret \<noteq> 0 then io_return EXIT_FAILURE
     else do {
       ret \<leftarrow> WaitRegistered_ntpd_loop api mbim TIMEOUT_S;
       if ret \<noteq> 0 then io_return EXIT_FAILURE
       else (case (StrLen16PadEven (Some apn), StrLen16PadEven (Some userName),
                   StrLen16PadEven (Some password)) of
         (Some apnLen, Some userLen, Some passwordLen) \<Rightarrow> do {
           let conn = \<lparr>mc_apn = apn, mc_apn_len = apnLen, mc_user = userName,
              mc_user_len = userLen, mc_password = password, mc_password_len = passwordLen,
              mc_auth = (if userName ! 0 = 0 then AUTH_PROTOCOL_NONE else AUTH_PROTOCOL_PAP)\<rparr>;
           ret \<leftarrow> call (MbimConnected mbim conn) (VfsMbimConnect api mbim conn);
           if ret \<noteq> 0 then io_return EXIT_FAILURE
           else do {
             up \<leftarrow> call (IfaceWaited [IWF_IP4])
               (wait_for_iface api (Some ''wwan0'') [IWF_IP4] (Seconds 60));
             if \<not> up then io_return EXIT_FAILURE
             else do {
               (ret, ipConfig) \<leftarrow> call (IpQueried mbim) (VfsMbimInfoIpConnection api mbim);
               if ret \<noteq> 0 then io_return EXIT_FAILURE
               else if addressCount ipConfig < 1 then io_return EXIT_FAILURE
               else SetDefaultGateway api (addresses_0 ipConfig) } } }
       | _ \<Rightarrow> do { _ \<leftarrow> emit BadAccess; io_return EXIT_FAILURE }) } }"

definition KOS_BIRTHDAY_YEAR :: int where "KOS_BIRTHDAY_YEAR = 2011"
definition KOS_BIRTHDAY_MONTH :: int where "KOS_BIRTHDAY_MONTH = 11"
definition KOS_BIRTHDAY_DAY :: int where "KOS_BIRTHDAY_DAY = 11"
definition ATTEMPTS :: nat where "ATTEMPTS = 10"
definition TIME_STEP_SEC :: nat where "TIME_STEP_SEC = 5"

text \<open>\<open>GetCurrentTimeinfo(&timeinfo)\<close>: the pointer is never NULL; \<^term>\<open>None\<close> is EXIT_FAILURE.\<close>

definition GetCurrentTimeinfo :: "'w modem_api \<Rightarrow> ('w, tm option) modem_io" where
  "GetCurrentTimeinfo api = call TimeRead (localtime_now api)"

definition SetInitialTime :: "'w modem_api \<Rightarrow> ('w, int) modem_io" where
  "SetInitialTime api = do {
     t \<leftarrow> GetCurrentTimeinfo api;
     (case t of None \<Rightarrow> io_return EXIT_FAILURE
      | Some timeinfo \<Rightarrow> do {
          let timeinfo = timeinfo\<lparr>tm_year := KOS_BIRTHDAY_YEAR - RTL_INITIAL_YEAR api,
            tm_mon := KOS_BIRTHDAY_MONTH - 1, tm_mday := KOS_BIRTHDAY_DAY\<rparr>;
          let rawtime = mktime api timeinfo;
          r \<leftarrow> call (ClockSet rawtime) (clock_settime api rawtime);
          if r \<noteq> 0 then io_return EXIT_FAILURE
          else do {
            t \<leftarrow> GetCurrentTimeinfo api;
            (case t of None \<Rightarrow> io_return EXIT_FAILURE
             | Some _ \<Rightarrow> io_return EXIT_SUCCESS) } }) }"

fun WaitTimeUpdate_loop :: "'w modem_api \<Rightarrow> nat \<Rightarrow> ('w, int) modem_io" where
  "WaitTimeUpdate_loop api 0 = io_return EXIT_FAILURE"
| "WaitTimeUpdate_loop api (Suc n) = do {
     t \<leftarrow> GetCurrentTimeinfo api;
     (case t of None \<Rightarrow> io_return EXIT_FAILURE
      | Some timeinfo \<Rightarrow>
          if tm_year timeinfo > KOS_BIRTHDAY_YEAR - RTL_INITIAL_YEAR api
          then io_return EXIT_SUCCESS
          else do { _ \<leftarrow> emit (Slept TIME_STEP_SEC); WaitTimeUpdate_loop api n }) }"

definition WaitTimeUpdate :: "'w modem_api \<Rightarrow> ('w, int) modem_io" where
  "WaitTimeUpdate api = WaitTimeUpdate_loop api ATTEMPTS"

text \<open>The literals \<open>u"internet"\<close> and \<open>u""\<close> with their terminating zero.\<close>

definition WWAN_APN :: "u16 list" where
  "WWAN_APN = map of_char ''internet'' @ [0]"

definition main_ntpd :: "'w modem_api \<Rightarrow> ('w, int) modem_io" where
  "main_ntpd api = do {
     ret \<leftarrow> SetInitialTime api;
     if ret \<noteq> EXIT_SUCCESS then io_return ret
     else do {
       up \<leftarrow> call (IfaceWaited [IWF_EXISTS])
         (wait_for_iface api (Some ''wwan0'') [IWF_EXISTS] (Seconds 60));
       if \<not> up then io_return EXIT_FAILURE
       else do {
         (ret, mbim) \<leftarrow> call MbimOpened (VfsMbimOpen api ''wwan0'' TIMEOUT_MS);
         if ret \<noteq> 0 then io_return EXIT_FAILURE
         else do {
           ret \<leftarrow> MbimConnect api mbim WWAN_APN [0] [0];
           if ret \<noteq> 0 then do {
             _ \<leftarrow> call (MbimClosed mbim) (VfsMbimClose api mbim);
             io_return EXIT_FAILURE }
           else do {
             _ \<leftarrow> call IfacesListed (list_network_ifaces api);
             ret \<leftarrow> WaitTimeUpdate api;
             _ \<leftarrow> call (MbimClosed mbim) (VfsMbimClose api mbim);
             io_return ret } } } } }"


subsection \<open>Vocabulary of the contracts\<close>

text \<open>What an event does to the modem handle and to the routing socket.\<close>

fun modem_use :: "modem_event \<Rightarrow> handle resource_use" where
  "modem_use (MbimOpened (ret, h)) = (if ret = 0 then Opens h else NoUse)"
| "modem_use (MbimClosed h _) = Closes h"
| "modem_use (SimQueried h _) = Uses h"
| "modem_use (RegisterQueried h _) = Uses h"
| "modem_use (PduSent h _ _) = Uses h"
| "modem_use (MbimConnected h _ _) = Uses h"
| "modem_use (IpQueried h _) = Uses h"
| "modem_use _ = NoUse"

fun socket_use :: "modem_event \<Rightarrow> int resource_use" where
  "socket_use (SocketOpened fd) = (if fd = -1 then NoUse else Opens fd)"
| "socket_use (RouteAdded fd _ _) = Uses fd"
| "socket_use (SocketClosed fd _) = Closes fd"
| "socket_use _ = NoUse"

text \<open>Successful registration queries, sleeping time, PDUs sent, time read after the birthday year.\<close>

fun registered :: "modem_event \<Rightarrow> bool" where
  "registered (RegisterQueried h (ret, st)) = (ret = 0 \<and> st \<in> {REGISTER_HOME, REGISTER_ROAMING, REGISTER_PARTNER})"
| "registered _ = False"

fun is_register_query :: "modem_event \<Rightarrow> bool" where
  "is_register_query (RegisterQueried h r) = True"
| "is_register_query _ = False"

fun sleep_of :: "modem_event \<Rightarrow> nat" where
  "sleep_of (Slept n) = n"
| "sleep_of _ = 0"

definition slept :: "modem_event list \<Rightarrow> nat" where
  "slept es = sum_list (map sleep_of es)"

definition sms_sent :: "modem_event list \<Rightarrow> u8 list list" where
  "sms_sent es = List.map_filter (\<lambda>e. case e of PduSent h bs r \<Rightarrow> Some bs | _ \<Rightarrow> None) es"

definition polls :: "handle \<Rightarrow> modem_event list \<Rightarrow> bool" where
  "polls h es \<longleftrightarrow> only_uses modem_use h es \<and> sms_sent es = [] \<and> BadAccess \<notin> set es"

fun time_passed :: "int \<Rightarrow> modem_event \<Rightarrow> bool" where
  "time_passed y (TimeRead (Some t)) = (y < tm_year t)"
| "time_passed y _ = False"

definition other :: "modem_event list \<Rightarrow> bool" where
  "other es \<longleftrightarrow> no_use modem_use es \<and> no_use socket_use es \<and> BadAccess \<notin> set es"

definition routes :: "modem_event list \<Rightarrow> (ortentry \<times> ioctl_result) list" where
  "routes es = List.map_filter (\<lambda>e. case e of RouteAdded fd rt r \<Rightarrow> Some (rt, r) | _ \<Rightarrow> None) es"

definition default_route :: "u32 \<Rightarrow> ortentry" where
  "default_route addr = \<lparr>rt_dst = 0, rt_gateway = addr, rt_mask = 0,
         rt_flags = [RTF_UP, RTF_GATEWAY], rt_update = 0\<rparr>"

definition route_installed :: "u32 \<Rightarrow> modem_event list \<Rightarrow> bool" where
  "route_installed addr es \<longleftrightarrow>
    (\<exists>r e. routes es = [(default_route addr, r, e)] \<and> 0 \<le> r) \<or>
    (\<exists>r e. routes es = [(default_route addr, r, True), ((default_route addr)\<lparr>rt_update := 1\<rparr>, 0, e)] \<and> r < 0)"

definition quiet :: "handle \<Rightarrow> modem_event list \<Rightarrow> bool" where
  "quiet mbim es \<longleftrightarrow> only_uses modem_use mbim es \<and> no_use socket_use es \<and> BadAccess \<notin> set es"

text \<open>Registered, an IPv4 address on the interface, and the default route set to the first address
  the modem reported.\<close>

definition online :: "modem_event list \<Rightarrow> bool" where
  "online es \<longleftrightarrow> (\<exists>e\<in>set es. registered e) \<and> IfaceWaited [IWF_IP4] True \<in> set es \<and>
    (\<exists>h cfg. IpQueried h (0, cfg) \<in> set es \<and> route_installed (addresses_0 cfg) es)"

text \<open>One probe of each polling loop: \<^term>\<open>None\<close> to go on.\<close>

definition sms_sim_probe :: "'w modem_api \<Rightarrow> handle \<Rightarrow> ('w, int option) modem_io" where
  "sms_sim_probe api mbim = do {
     (ret, subState) \<leftarrow> call (SimQueried mbim) (VfsMbimInfoSim api mbim);
     io_return (if ret \<noteq> 0 then Some ret
       else if subState = SUBSCRIBER_INITIALIZED then Some 0 else None) }"

definition sms_reg_probe :: "'w modem_api \<Rightarrow> handle \<Rightarrow> ('w, int option) modem_io" where
  "sms_reg_probe api mbim = do {
     (ret, registerState) \<leftarrow> call (RegisterQueried mbim) (VfsMbimInfoRegisterState api mbim);
     io_return (if ret \<noteq> 0 then Some (-1)
     else if registerState = REGISTER_HOME \<or> registerState = REGISTER_ROAMING
       \<or> registerState = REGISTER_PARTNER then Some 0
     else if registerState = REGISTER_DENIED then Some (-1) else None) }"

definition ntpd_sim_probe :: "'w modem_api \<Rightarrow> handle \<Rightarrow> ('w, int option) modem_io" where
  "ntpd_sim_probe api mbim = do {
     (ret, subState) \<leftarrow> call (SimQueried mbim) (VfsMbimInfoSim api mbim);
     io_return (if ret \<noteq> 0 then Some EXIT_FAILURE
       else if subState = SUBSCRIBER_INITIALIZED then Some EXIT_SUCCESS else None) }"

definition ntpd_reg_probe :: "'w modem_api \<Rightarrow> handle \<Rightarrow> ('w, int option) modem_io" where
  "ntpd_reg_probe api mbim = do {
     (ret, registerState) \<leftarrow> call (RegisterQueried mbim) (VfsMbimInfoRegisterState api mbim);
     io_return (if ret \<noteq> 0 then Some EXIT_FAILURE
     else if registerState = REGISTER_HOME \<or> registerState = REGISTER_ROAMING
       \<or> registerState = REGISTER_PARTNER then Some EXIT_SUCCESS
     else if registerState = REGISTER_DENIED then Some EXIT_FAILURE else None) }"

definition ntpd_time_probe :: "'w modem_api \<Rightarrow> ('w, int option) modem_io" where
  "ntpd_time_probe api = do {
     t \<leftarrow> GetCurrentTimeinfo api;
     io_return (case t of None \<Rightarrow> Some EXIT_FAILURE
      | Some timeinfo \<Rightarrow> if tm_year timeinfo > KOS_BIRTHDAY_YEAR - RTL_INITIAL_YEAR api
          then Some EXIT_SUCCESS else None) }"

text \<open>A modem on which everything works, the default route existing already.\<close>

definition demo_modem :: "unit modem_api" where
  "demo_modem = \<lparr>
     wait_for_iface = (\<lambda>_ _ _ w. (True, w)), list_network_ifaces = (\<lambda>w. (True, w)),
     VfsMbimOpen = (\<lambda>_ _ w. ((0, 1), w)), VfsMbimClose = (\<lambda>_ w. (0, w)),
     VfsMbimInfoSim = (\<lambda>_ w. ((0, SUBSCRIBER_INITIALIZED), w)),
     VfsMbimInfoRegisterState = (\<lambda>_ w. ((0, REGISTER_HOME), w)),
     VfsMbimSmsSendPdu = (\<lambda>_ _ w. ((0, 1), w)), VfsMbimConnect = (\<lambda>_ _ w. (0, w)),
     VfsMbimInfoIpConnection = (\<lambda>_ w. ((0, \<lparr>addressCount = 1, addresses_0 = 0x0100000A\<rparr>), w)),
     route_socket = (\<lambda>w. (3, w)), ioctl_SIOCADDRT = (\<lambda>_ rt w. (if rt_update rt = 0 then (-1, True) else (0, False), w)),
     close_fd = (\<lambda>_ w. ((), w)),
     localtime_now = (\<lambda>w. (Some \<lparr>tm_year = 125, tm_mon = 0, tm_mday = 1, tm_time_of_day = 0\<rparr>, w)),
     mktime = (\<lambda>_. 0), clock_settime = (\<lambda>_ w. (0, w)), RTL_INITIAL_YEAR = 1900\<rparr>"


subsection \<open>The polling loops\<close>

interpretation sms_sim: polling "WaitSimReady_loop api mbim" "sms_sim_probe api mbim" "emit (Slept 1)"
    "io_return (-1)" for api mbim
  by unfold_locales (auto simp: sms_sim_probe_def intro!: state_ext split: prod.splits)

interpretation sms_reg: polling "WaitRegistered_loop api mbim" "sms_reg_probe api mbim" "emit (Slept 1)"
    "io_return (-1)" for api mbim
  by unfold_locales (auto simp: sms_reg_probe_def intro!: state_ext split: prod.splits)

interpretation ntpd_sim: polling "WaitSimReady_ntpd_loop api mbim" "ntpd_sim_probe api mbim"
    "emit (Slept 1)" "io_return EXIT_FAILURE" for api mbim
  by unfold_locales (auto simp: ntpd_sim_probe_def intro!: state_ext split: prod.splits)

interpretation ntpd_reg: polling "WaitRegistered_ntpd_loop api mbim" "ntpd_reg_probe api mbim"
    "emit (Slept 1)" "io_return EXIT_FAILURE" for api mbim
  by unfold_locales (auto simp: ntpd_reg_probe_def intro!: state_ext split: prod.splits)

interpretation ntpd_time: polling "WaitTimeUpdate_loop api" "ntpd_time_probe api"
    "emit (Slept TIME_STEP_SEC)" "io_return EXIT_FAILURE" for api
  by unfold_locales (auto simp: ntpd_time_probe_def intro!: state_ext split: prod.splits option.splits)

lemma slept_simps [simp]: "slept [] = 0" "slept (e # es) = sleep_of e + slept es"
   "slept (es @ es') = slept es + slept es'"
  by (simp_all add: slept_def)

lemma WaitRegistered_post:
  "io_post (WaitRegistered api mbim seconds) (\<lambda>ret es.
     only_uses modem_use mbim es \<and> (ret = 0 \<or> ret = -1) \<and>
     (ret = 0 \<longleftrightarrow> es \<noteq> [] \<and> registered (last es)) \<and>
     length (filter is_register_query es) \<le> seconds \<and> slept es \<le> seconds \<and>
     list_all (\<lambda>e. \<not> registered e) (butlast es))"
  unfolding WaitRegistered_def
  by (rule sms_reg.loop_post [where Inv = "\<lambda>k es. only_uses modem_use mbim es \<and> slept es = k \<and>
     length (filter is_register_query es) = k \<and> list_all (\<lambda>e. \<not> registered e) es"])
    (auto simp: sms_reg_probe_def butlast_append list_all_iff dest: in_set_butlastD intro!: io_rules)

lemma WaitTimeUpdate_post:
  "io_post (WaitTimeUpdate api) (\<lambda>ret es.
     other es \<and> slept es \<le> ATTEMPTS * TIME_STEP_SEC \<and>
     (ret = EXIT_SUCCESS \<or> ret = EXIT_FAILURE) \<and>
     (ret = EXIT_SUCCESS \<longleftrightarrow> es \<noteq> [] \<and> time_passed (KOS_BIRTHDAY_YEAR - RTL_INITIAL_YEAR api) (last es)))"
  unfolding WaitTimeUpdate_def
  by (rule ntpd_time.loop_post [where Inv = "\<lambda>k es. other es \<and> slept es = k * TIME_STEP_SEC \<and>
      list_all (\<lambda>e. \<not> time_passed (KOS_BIRTHDAY_YEAR - RTL_INITIAL_YEAR api) e) es"])
    (auto simp: ntpd_time_probe_def GetCurrentTimeinfo_def other_def list_all_iff
      intro!: io_rules intro: mult_le_mono1 split: option.splits if_splits)


subsection \<open>The SMS program\<close>

lemma sms_ok_text: "sms_ok None dest SMS_TEXT 256 = number_ok dest"
  using length_addr [of dest] by (auto simp: sms_ok_def smsc_ok_def sms_submit_def sca_bytes_def SMS_TEXT_def)

lemma sms_pdu:
  "number_ok dest \<Longrightarrow> AsciiToPDU None (Some dest) (Some SMS_TEXT) (Some (replicate 256 0)) 256 =
     Some (int (length (sms_submit None dest SMS_TEXT)), blit 0 (sms_submit None dest SMS_TEXT) (replicate 256 0))"
  using sms_ok_text [of dest] by (intro AsciiToPDU_encodes) (auto simp: sms_ok_def)

lemma sms_no_pdu:
  "\<not> number_ok dest \<Longrightarrow> \<exists>buf. AsciiToPDU None (Some dest) (Some SMS_TEXT) (Some (replicate 256 0)) 256 =
     Some (-1, buf)"
  using sms_ok_text [of dest] AsciiToPDU_rejects [of None dest SMS_TEXT 256 "replicate 256 0"] by auto

lemma sms_sent_simps [simp]:
  "sms_sent [] = []" "sms_sent (PduSent h bs r # es) = bs # sms_sent es"
  "sms_sent (IfaceWaited f r' # es) = sms_sent es" "sms_sent (IfacesListed l # es) = sms_sent es"
  "sms_sent (MbimOpened op # es) = sms_sent es" "sms_sent (MbimClosed h c # es) = sms_sent es"
  "sms_sent (SimQueried h q # es) = sms_sent es" "sms_sent (RegisterQueried h q' # es) = sms_sent es"
  "sms_sent (Slept n # es) = sms_sent es"
  "sms_sent (es @ es') = sms_sent es @ sms_sent es'"
  by (simp_all add: sms_sent_def map_filter_simps map_filter_def)

lemma main_sms_post:
  "io_post (main_sms api dest) (\<lambda>ret es. resource_ok modem_use None es \<and> (ret = EXIT_SUCCESS \<or> ret = EXIT_FAILURE) \<and>
     BadAccess \<notin> set es \<and>
     (if ret = EXIT_SUCCESS then number_ok dest \<and> sms_sent es = [sms_submit None dest SMS_TEXT]
      else sms_sent es = [] \<or> number_ok dest \<and> sms_sent es = [sms_submit None dest SMS_TEXT]))"
proof -
  have sim: "io_post (WaitSimReady api mbim n) (\<lambda>ret es. polls mbim es)" for mbim n
    unfolding WaitSimReady_def
    by (rule sms_sim.loop_post [where Inv = "\<lambda>k es. polls mbim es"])
     (auto simp: sms_sim_probe_def polls_def intro!: io_rules)
  have reg: "io_post (WaitRegistered api mbim n) (\<lambda>ret es. polls mbim es)" for mbim n
    unfolding WaitRegistered_def
    by (rule sms_reg.loop_post [where Inv = "\<lambda>k es. polls mbim es"])
     (auto simp: sms_reg_probe_def polls_def intro!: io_rules)
  show ?thesis
  proof (cases "number_ok dest")
    case True
    show ?thesis
      unfolding main_sms_def sms_pdu [OF True]
      by (auto simp: polls_def intro!: io_rules io_post_bind [OF sim] io_post_bind [OF reg] simp: True blit_def)
  next
    case False
    then obtain buf where "AsciiToPDU None (Some dest) (Some SMS_TEXT) (Some (replicate 256 0)) 256 =
     Some (-1, buf)" using sms_no_pdu by blast
    then show ?thesis
      unfolding main_sms_def
      by (auto simp: polls_def intro!: io_rules io_post_bind [OF sim] io_post_bind [OF reg])
  qed
qed


subsection \<open>The NTP program\<close>

lemma routes_simps [simp]:
  "routes [] = []" "routes (RouteAdded fd rt r # es) = (rt, r) # routes es"
  "routes (es @ es') = routes es @ routes es'"
  by (simp_all add: routes_def map_filter_simps map_filter_def)

lemma routes_no_use [simp]: "no_use socket_use es \<Longrightarrow> routes es = []"
proof (induction es)
  case (Cons e es)
  then show ?case by (cases e) (auto simp: routes_def map_filter_simps)
qed simp

lemma SetDefaultGateway_post:
  "io_post (SetDefaultGateway api addr) (\<lambda>ret es.
     no_use modem_use es \<and> resource_ok socket_use None es \<and> BadAccess \<notin> set es \<and>
     (ret = EXIT_SUCCESS \<or> ret = EXIT_FAILURE) \<and>
     (ret = EXIT_SUCCESS \<longleftrightarrow> route_installed addr es))"
  unfolding SetDefaultGateway_def
  by (auto simp: route_installed_def routes_def map_filter_simps default_route_def intro!: io_rules)


lemma ntpd_sim_post: "io_post (WaitSimReady_ntpd_loop api mbim n) (\<lambda>ret es. quiet mbim es \<and>
    (ret = EXIT_SUCCESS \<or> ret = EXIT_FAILURE))"
  by (rule ntpd_sim.loop_post [where Inv = "\<lambda>k es. quiet mbim es"])
     (auto simp: ntpd_sim_probe_def quiet_def intro!: io_rules split: if_splits)

lemma ntpd_reg_post: "io_post (WaitRegistered_ntpd_loop api mbim n) (\<lambda>ret es. quiet mbim es \<and>
    (ret = EXIT_SUCCESS \<or> ret = EXIT_FAILURE) \<and> (ret = EXIT_SUCCESS \<longleftrightarrow> (\<exists>e\<in>set es. registered e)))"
  by (rule ntpd_reg.loop_post [where Inv = "\<lambda>k es. quiet mbim es \<and> (\<forall>e\<in>set es. \<not> registered e)"])
     (auto simp: ntpd_reg_probe_def quiet_def intro!: io_rules split: if_splits)

lemma route_installed_append [simp]:
  "no_use socket_use es \<Longrightarrow> route_installed addr (es @ es') = route_installed addr es'"
  "socket_use e = NoUse \<Longrightarrow> route_installed addr (e # es') = route_installed addr es'"
  using routes_no_use [of "[e]"] routes_simps(3) [of "[e]" es'] by (simp_all add: route_installed_def)

lemma exit_zero: "(ret = EXIT_SUCCESS \<or> ret = EXIT_FAILURE) \<Longrightarrow> (ret \<noteq> 0) = (ret = EXIT_FAILURE)"
  by (auto simp: EXIT_SUCCESS_def EXIT_FAILURE_def)

lemma MbimConnect_post:
  assumes "StrLen16PadEven (Some apn) \<noteq> None" "StrLen16PadEven (Some user) \<noteq> None"
    "StrLen16PadEven (Some pw) \<noteq> None"
  shows "io_post (MbimConnect api mbim apn user pw) (\<lambda>ret es.
    only_uses modem_use mbim es \<and> resource_ok socket_use None es \<and> BadAccess \<notin> set es \<and>
    (ret = EXIT_SUCCESS \<or> ret = EXIT_FAILURE) \<and> (ret = EXIT_SUCCESS \<longrightarrow> online es))"
proof -
  obtain a u p where len: "StrLen16PadEven (Some apn) = Some a" "StrLen16PadEven (Some user) = Some u"
      "StrLen16PadEven (Some pw) = Some p" using assms by auto
  have rule: "io_post (SetDefaultGateway api addr) Q"
    if "\<And>ret es. no_use modem_use es \<Longrightarrow> resource_ok socket_use None es \<Longrightarrow> BadAccess \<notin> set es \<Longrightarrow>
     ret = EXIT_SUCCESS \<or> ret = EXIT_FAILURE \<Longrightarrow>
     (ret = EXIT_SUCCESS \<longleftrightarrow> route_installed addr es) \<Longrightarrow> Q ret es" for addr Q
    using SetDefaultGateway_post that by (rule io_post_mono) auto
  show ?thesis
    unfolding MbimConnect_def len option.case prod.case Let_def
    by (intro io_rules io_post_bind [OF ntpd_sim_post] io_post_bind [OF ntpd_reg_post] rule;
        simp add: quiet_def only_uses_no_use exit_zero)
      (auto simp: online_def)
qed

lemma literals_terminated: "StrLen16PadEven (Some WWAN_APN) = Some 8" "StrLen16PadEven (Some [0]) = Some 0"
  by (code_simp, code_simp)

lemma SetInitialTime_post:
  "io_post (SetInitialTime api) (\<lambda>ret es. other es \<and> (ret = EXIT_SUCCESS \<or> ret = EXIT_FAILURE) \<and>
    (ret = EXIT_SUCCESS \<longrightarrow> (\<exists>t. TimeRead (Some t) \<in> set es \<and> ClockSet (mktime api (t\<lparr>tm_year := 2011 - RTL_INITIAL_YEAR api,
       tm_mon := 10, tm_mday := 11\<rparr>)) 0 \<in> set es)))"
  unfolding SetInitialTime_def GetCurrentTimeinfo_def
  by (intro io_rules) (auto simp: other_def KOS_BIRTHDAY_YEAR_def KOS_BIRTHDAY_MONTH_def KOS_BIRTHDAY_DAY_def)

lemma main_ntpd_post:
  "io_post (main_ntpd api) (\<lambda>ret es.
    resource_ok modem_use None es \<and> resource_ok socket_use None es \<and> BadAccess \<notin> set es \<and>
    (ret = EXIT_SUCCESS \<or> ret = EXIT_FAILURE) \<and>
    (ret = EXIT_SUCCESS \<longrightarrow> (\<exists>before after. es = before @ after \<and> online before \<and>
       (\<exists>e\<in>set after. time_passed (KOS_BIRTHDAY_YEAR - RTL_INITIAL_YEAR api) e))))"
proof -
  have conn: "io_post (MbimConnect api mbim WWAN_APN [0] [0]) (\<lambda>ret es.
    only_uses modem_use mbim es \<and> resource_ok socket_use None es \<and> BadAccess \<notin> set es \<and>
    (ret = EXIT_SUCCESS \<or> ret = EXIT_FAILURE) \<and> (ret = EXIT_SUCCESS \<longrightarrow> online es))" for mbim
    by (rule MbimConnect_post) (simp_all add: literals_terminated)
  have split: "\<exists>before after. es @ e1 # e2 # es1 @ e3 # es2 @ [e4] = before @ after \<and>
      online before \<and> (\<exists>x\<in>set after. P x)"
    if "online es1" "no_use socket_use es" "socket_use e1 = NoUse" "socket_use e2 = NoUse" "es2 \<noteq> []"
      "P (last es2)" for es e1 e2 es1 e3 es2 e4 P
    using that by (intro exI [of _ "es @ e1 # e2 # es1"] exI [of _ "e3 # es2 @ [e4]"])
      (auto simp: online_def)
  show ?thesis
    unfolding main_ntpd_def
    by (intro io_rules io_post_bind [OF SetInitialTime_post] io_post_bind [OF conn]
          io_post_bind [OF WaitTimeUpdate_post];
        simp add: other_def exit_zero only_uses_no_use)
      (auto simp: other_def intro: split)
qed

lemma strlen16_spec:
  assumes "i < length buf" "buf ! i = 0" "\<forall>j<i. buf ! j \<noteq> 0"
  shows "strlen16 buf ret = Some (ret + of_nat i)"
  using assms
proof (induction i arbitrary: buf ret)
  case 0
  then show ?case by (cases buf) auto
next
  case (Suc i)
  then obtain c s where buf: "buf = c # s" by (cases buf) auto
  have "strlen16 s (ret + 1) = Some (ret + 1 + of_nat i)"
    using Suc.prems buf by (intro Suc.IH) auto
  moreover have "c \<noteq> 0" using Suc.prems buf by auto
  ultimately show ?case using buf by (simp add: add.assoc)
qed

lemma demo_fields:
  "wait_for_iface demo_modem a b c w = (True, w)" "list_network_ifaces demo_modem w = (True, w)"
  "VfsMbimOpen demo_modem a' d w = ((0, 1), w)" "VfsMbimClose demo_modem h w = (0, w)"
  "VfsMbimInfoSim demo_modem h w = ((0, SUBSCRIBER_INITIALIZED), w)"
  "VfsMbimInfoRegisterState demo_modem h w = ((0, REGISTER_HOME), w)"
  "VfsMbimConnect demo_modem h e w = (0, w)"
  "VfsMbimInfoIpConnection demo_modem h w = ((0, \<lparr>addressCount = 1, addresses_0 = 0x0100000A\<rparr>), w)"
  "route_socket demo_modem w = (3, w)"
  "ioctl_SIOCADDRT demo_modem fd rt w = (if rt_update rt = 0 then (-1, True) else (0, False), w)"
  "close_fd demo_modem fd w = ((), w)"
  "localtime_now demo_modem w =
     (Some \<lparr>tm_year = 125, tm_mon = 0, tm_mday = 1, tm_time_of_day = 0\<rparr>, w)"
  "mktime demo_modem t = 0" "clock_settime demo_modem i w = (0, w)" "RTL_INITIAL_YEAR demo_modem = 1900"
  by (simp_all add: demo_modem_def)

lemma demo_loops:
  "run_state (WaitSimReady_ntpd_loop demo_modem h TIMEOUT_S) s =
     (EXIT_SUCCESS, s\<lparr>trace := trace s @ [SimQueried h (0, SUBSCRIBER_INITIALIZED)]\<rparr>)"
  "run_state (WaitRegistered_ntpd_loop demo_modem h TIMEOUT_S) s =
     (EXIT_SUCCESS, s\<lparr>trace := trace s @ [RegisterQueried h (0, REGISTER_HOME)]\<rparr>)"
  "run_state (WaitTimeUpdate_loop demo_modem ATTEMPTS) s = (EXIT_SUCCESS,
     s\<lparr>trace := trace s @ [TimeRead (fst (localtime_now demo_modem (world s)))]\<rparr>)"
  by (simp_all add: TIMEOUT_S_def ATTEMPTS_def numeral_eq_Suc GetCurrentTimeinfo_def
    KOS_BIRTHDAY_YEAR_def demo_fields)

lemma demo_ntpd: "\<exists>es. run_io (main_ntpd demo_modem) () = (EXIT_SUCCESS, es)"
  by (simp add: run_io_def main_ntpd_def MbimConnect_def literals_terminated demo_loops Let_def
      SetInitialTime_def GetCurrentTimeinfo_def WaitTimeUpdate_def SetDefaultGateway_def demo_fields)


subsection \<open>Properties\<close>

text \<open>C11: Whatever the modem library answers, the SMS client uses the modem handle only between a
  successful open and the close, closes it exactly once on every path and never after a failed open;
  it makes no access outside its PDU buffer; and the only message it ever sends is the one SMS-SUBMIT
  PDU of the configured number and text, at most once, always before it reports success and only if
  the number is one the encoder accepts.\<close>

theorem main_sms_spec:
  assumes "run_io (main_sms api dest) w = (ret, es)"
  shows "resource_ok modem_use None es \<and> (ret = EXIT_SUCCESS \<or> ret = EXIT_FAILURE) \<and>
     BadAccess \<notin> set es \<and>
     (if ret = EXIT_SUCCESS then number_ok dest \<and> sms_sent es = [sms_submit None dest SMS_TEXT]
      else sms_sent es = [] \<or> number_ok dest \<and> sms_sent es = [sms_submit None dest SMS_TEXT])"
  by (rule io_post_run [OF main_sms_post assms])

theorem main_sms_spec_witness:
  "sms_sent (snd (run_io (main_sms demo_modem ''+79001234567'') ())) =
    [sms_submit None ''+79001234567'' SMS_TEXT]"
proof -
  have "run_io (main_sms demo_modem ''+79001234567'') () =
    (EXIT_SUCCESS, [IfaceWaited [IWF_EXISTS] True, IfacesListed True, MbimOpened (0, 1),
      SimQueried 1 (0, SUBSCRIBER_INITIALIZED), RegisterQueried 1 (0, REGISTER_HOME),
      PduSent 1 (sms_submit None ''+79001234567'' SMS_TEXT) (0, 1), MbimClosed 1 0])"
    by code_simp
  from main_sms_spec [OF this] this show ?thesis by simp
qed

text \<open>\<open>WaitSimReady\<close> of the SMS client returns the positive MBIM status of a failed query, and
  \<open>main\<close> only stops on a negative value: a modem that answers every SIM query with an error status is
  taken as ready, the SMS is sent and the program reports success.\<close>

theorem sms_sim_status_ignored:
  "run_io (main_sms (demo_modem\<lparr>VfsMbimInfoSim := (\<lambda>_ w. ((7, SUBSCRIBER_OTHER 0), w))\<rparr>)
     ''+79001234567'') () =
   (EXIT_SUCCESS, [IfaceWaited [IWF_EXISTS] True, IfacesListed True, MbimOpened (0, 1),
      SimQueried 1 (7, SUBSCRIBER_OTHER 0), RegisterQueried 1 (0, REGISTER_HOME),
      PduSent 1 (sms_submit None ''+79001234567'' SMS_TEXT) (0, 1), MbimClosed 1 0])"
  by code_simp

text \<open>\<open>WaitRegistered\<close> makes at most the given number of queries and sleeps at most as many
  seconds; it returns 0 exactly when its last query succeeded with the state home, roaming or
  partner, which no earlier query had done, and -1 in every other case.\<close>

lemma WaitRegistered_spec:
  assumes "run_io (WaitRegistered api mbim seconds) w = (ret, es)"
  shows "length (filter is_register_query es) \<le> seconds \<and> slept es \<le> seconds \<and>
    (ret = 0 \<or> ret = -1) \<and> (ret = 0 \<longleftrightarrow> es \<noteq> [] \<and> registered (last es)) \<and>
    list_all (\<lambda>e. \<not> registered e) (butlast es)"
  using io_post_run [OF WaitRegistered_post assms] by blast

text \<open>C10: Whatever the services answer, the NTP client closes the modem handle and the routing socket
  exactly once if they were opened, uses them only in between and reads no string past its end; and
  it reports success only after the modem was registered, the interface had an IPv4 address and the
  default route was set to the first address of the connection, and a later clock reading shows a
  year after the one it had set.\<close>

theorem main_ntpd_spec:
  assumes "run_io (main_ntpd api) w = (ret, es)"
  shows "resource_ok modem_use None es \<and> resource_ok socket_use None es \<and> BadAccess \<notin> set es \<and>
    (ret = EXIT_SUCCESS \<or> ret = EXIT_FAILURE) \<and>
    (ret = EXIT_SUCCESS \<longrightarrow> (\<exists>before after. es = before @ after \<and> online before \<and>
       (\<exists>e\<in>set after. time_passed (KOS_BIRTHDAY_YEAR - RTL_INITIAL_YEAR api) e)))"
  by (rule io_post_run [OF main_ntpd_post assms])

theorem main_ntpd_spec_witness:
  "\<exists>es. run_io (main_ntpd demo_modem) () = (EXIT_SUCCESS, es) \<and>
    (\<exists>before after. es = before @ after \<and> online before \<and> (\<exists>e\<in>set after. time_passed 111 e))"
proof -
  obtain es where es: "run_io (main_ntpd demo_modem) () = (EXIT_SUCCESS, es)" using demo_ntpd by blast
  from main_ntpd_spec [OF es] es show ?thesis by (simp add: KOS_BIRTHDAY_YEAR_def demo_fields)
qed

text \<open>\<open>SetDefaultGateway\<close> closes the socket it opened on every path and returns success exactly
  when the default route to the given address was added by the first request, or by a second one
  with the update flag after the first had failed with EEXIST.\<close>

theorem SetDefaultGateway_spec:
  assumes "run_io (SetDefaultGateway api addr) w = (ret, es)"
  shows "resource_ok socket_use None es \<and> (ret = EXIT_SUCCESS \<or> ret = EXIT_FAILURE) \<and>
    (ret = EXIT_SUCCESS \<longleftrightarrow> route_installed addr es)"
  using io_post_run [OF SetDefaultGateway_post assms] by blast

theorem SetDefaultGateway_spec_witness:
  "route_installed 7 (snd (run_io (SetDefaultGateway demo_modem 7) ()))"
proof -
  obtain es where "run_io (SetDefaultGateway demo_modem 7) () = (EXIT_SUCCESS, es)"
    by (simp add: run_io_def SetDefaultGateway_def demo_fields Let_def)
  from this SetDefaultGateway_spec [OF this] show ?thesis by simp
qed

text \<open>For a zero-terminated string of 16-bit units \<open>StrLen16PadEven\<close> stops inside the buffer and
  returns an even number that is the length or one more, and never more than the units of the
  buffer, so the padding unit is the terminating zero.\<close>

lemma StrLen16PadEven_spec:
  assumes "i < length buf" "buf ! i = 0" "\<forall>j<i. buf ! j \<noteq> 0" "length buf < 2 ^ 32"
  shows "\<exists>n. StrLen16PadEven (Some buf) = Some n \<and> even (unat n) \<and> i \<le> unat n \<and> unat n \<le> i + 1 \<and>
    unat n \<le> length buf"
proof -
  have i: "unat (of_nat i :: u32) = i" using assms by (simp add: unat_of_nat)
  have m: "(of_nat i mod 2 = (1 :: u32)) = odd i"
    using i by (simp add: word_unat_eq_iff unat_mod odd_iff_mod_2_eq_one)
  have "unat (of_nat i + 1 :: u32) = i + 1" using assms i by (simp add: unat_word_ariths)
  then show ?thesis using strlen16_spec [OF assms(1-3), of 0] i m assms
    by (auto simp: StrLen16PadEven_def)
qed

end
