(* ===== verification/Kosipc.thy ===== *)
theory Kosipc
  imports Prelude
begin

section \<open>IPC results and exceptions\<close>

text \<open>
  Two examples (\<^verbatim>\<open>errors_via_ipc\<close>, \<^verbatim>\<open>nkpp\<close>) carry exceptions across process borders: on the server a
  \<open>RetcodeExceptionConverter\<close> turns the exception a handler threw into a return code, on the client
  it turns the code back into an exception.  The converters are in the repository; the framework
  that calls them is not, and what the programs rely on of it are the two predicates
  \<open>kosipc_serve_ok\<close> and \<open>kosipc_proxy_ok\<close>.
\<close>

datatype nk_err = NK_EOK | NK_EPERM | NK_OTHER nat

text \<open>Return codes: the constants the programs name, the codes built by \<open>MAKE_CUSTOM_ERROR\<close>, and all
  the others.\<close>

datatype Retcode = rcOk | rcFail | rcBusy | rcResourceNotFound | rcNoCapability | CustomError nat
  | OtherRetcode nat

text \<open>A C++ exception as the handlers tell them apart: a class of the example, \<open>std::runtime_error\<close>,
  another class derived from \<open>std::exception\<close>, anything else.\<close>

datatype 'x cpp_exception = Custom 'x | RuntimeError string | StdException string | UnknownException

record 'r ipc_res =
  res_value :: 'r
  err_status :: Retcode

text \<open>Server side: the result of a handler that returns is sent with status \<open>rcOk\<close>; when it throws,
  the status is what \<open>CatchException\<close> makes of the exception.\<close>

definition kosipc_serve_ok ::
  "('x cpp_exception \<Rightarrow> Retcode) \<Rightarrow> ('x cpp_exception + 'r \<Rightarrow> 'r ipc_res) \<Rightarrow> bool" where
  "kosipc_serve_ok catch serve \<longleftrightarrow>
    (\<forall>r. serve (Inr r) = \<lparr>res_value = r, err_status = rcOk\<rparr>) \<and>
    (\<forall>e. err_status (serve (Inl e)) = catch e)"

text \<open>Client side: a transport error is thrown as \<open>std::runtime_error\<close>; otherwise status \<open>rcOk\<close>
  returns the result and every other status is handed to \<open>ThrowException\<close>.\<close>

definition kosipc_proxy_ok ::
  "(Retcode \<Rightarrow> 'x option) \<Rightarrow> (nk_err \<Rightarrow> 'r ipc_res \<Rightarrow> 'x cpp_exception + 'r) \<Rightarrow> bool" where
  "kosipc_proxy_ok throw proxy \<longleftrightarrow>
    (\<forall>res. err_status res = rcOk \<longrightarrow> proxy NK_EOK res = Inr (res_value res)) \<and>
    (\<forall>res x. err_status res \<noteq> rcOk \<longrightarrow> throw (err_status res) = Some x \<longrightarrow>
       proxy NK_EOK res = Inl (Custom x)) \<and>
    (\<forall>e res. e \<noteq> NK_EOK \<longrightarrow> (\<exists>m. proxy e res = Inl (RuntimeError m)))"

text \<open>The contract of a converter, and what it gives to a client: results and the exceptions of the
  example arrive as they left the handler.\<close>

locale retcode_converter =
  fixes CatchException :: "'x cpp_exception \<Rightarrow> Retcode"
    and ThrowException :: "Retcode \<Rightarrow> 'x option"
  assumes throw_catch: "ThrowException (CatchException (Custom x)) = Some x"
    and catch_not_ok: "CatchException e \<noteq> rcOk"
    and catch_other: "(\<And>x. e \<noteq> Custom x) \<Longrightarrow> ThrowException (CatchException e) = None"
begin

lemma catch_inj: "CatchException (Custom x) = CatchException (Custom y) \<Longrightarrow> x = y"
  by (metis throw_catch option.inject)

lemma catch_custom: "ThrowException (CatchException e) = Some x \<longleftrightarrow> e = Custom x"
  by (cases e) (auto simp: throw_catch catch_other)

lemma remote_call:
  assumes "kosipc_serve_ok CatchException serve" "kosipc_proxy_ok ThrowException proxy"
    and "\<And>e. h = Inl e \<Longrightarrow> \<exists>x. e = Custom x"
  shows "proxy NK_EOK (serve h) = h"
proof (cases h)
  case (Inl e)
  then obtain x where x: "h = Inl (Custom x)" using assms(3) by blast
  have "err_status (serve h) = CatchException (Custom x)" using assms(1) x by (simp add: kosipc_serve_ok_def)
  then show ?thesis using assms(2) x catch_not_ok [of "Custom x"] throw_catch [of x]
    by (simp add: kosipc_proxy_ok_def)
qed (use assms in \<open>auto simp: kosipc_serve_ok_def kosipc_proxy_ok_def\<close>)

end


subsection \<open>The dispatch loop\<close>

text \<open>\<open>EventLoop::Run\<close> of the framework, as the servers use it: the requests that arrive are handed to the handlers one after the
  other, and each is answered before the next one is taken.  The state is that of the object behind the endpoint.\<close>

fun event_loop :: "('q \<Rightarrow> 's \<Rightarrow> 'a \<times> 's) \<Rightarrow> 'q list \<Rightarrow> 's \<Rightarrow> 'a list \<times> 's" where
  "event_loop handler [] s = ([], s)"
| "event_loop handler (q # qs) s = (let (a, s') = handler q s; (as, t) = event_loop handler qs s' in (a # as, t))"

lemma event_loop_append:
  "event_loop handler (qs @ rs) s = (case event_loop handler qs s of (as, s') \<Rightarrow>
     case event_loop handler rs s' of (bs, t) \<Rightarrow> (as @ bs, t))"
  by (induction qs arbitrary: s) (simp_all add: split_beta Let_def)

lemma event_loop_stateless: "event_loop (\<lambda>q s. (f q, s)) qs s = (map f qs, s)"
  by (induction qs) simp_all

end
