(* ===== verification/Sum_Service.thy ===== *)
theory Sum_Service
  imports Effects Kosipc
begin

section \<open>The summation servers and clients\<close>

text \<open>
  \<^verbatim>\<open>examples/errors_via_ipc\<close>: a C and a C++ server that are busy every second request, a C and a C++
  client that turn to the other server when one is busy, and the security policy that denies a
  request repeated more than once (\<^verbatim>\<open>einit/src/security.psl\<close>).
\<close>

subsection \<open>Requests and exceptions\<close>

record Request =
  repeats :: u32
  num1 :: u32
  num2 :: u32

definition MaxSecurityGrantedRepeats :: u32 where "MaxSecurityGrantedRepeats = 1"

datatype sum_exception = ServerBusy

definition code_ServerBusy :: Retcode where "code_ServerBusy = rcBusy"

fun CatchException :: "sum_exception cpp_exception \<Rightarrow> Retcode" where
  "CatchException (Custom ServerBusy) = code_ServerBusy"
| "CatchException (RuntimeError e) = rcFail"
| "CatchException (StdException e) = rcFail"
| "CatchException UnknownException = rcFail"

definition ThrowException :: "Retcode \<Rightarrow> sum_exception option" where
  "ThrowException rc = (if rc = code_ServerBusy then Some ServerBusy else None)"


subsection \<open>The servers\<close>

text \<open>\<open>nk_err_reset\<close> clears the error part of a response.\<close>

definition nk_err_reset :: "u64 ipc_res \<Rightarrow> u64 ipc_res" where
  "nk_err_reset res = res\<lparr>err_status := rcOk\<rparr>"

text \<open>The handler of the C server on the static \<open>requestCounter\<close>.\<close>

definition requestCounter_init :: u64 where "requestCounter_init = 1"

definition SumRequest_impl ::
  "Request \<Rightarrow> u64 ipc_res \<Rightarrow> u64 \<Rightarrow> (nk_err \<times> u64 ipc_res) \<times> u64" where
  "SumRequest_impl req res requestCounter =
    (let res' = (if requestCounter mod 2 \<noteq> 0
                 then res\<lparr>res_value := ucast (num1 req + num2 req)\<rparr>
                 else (nk_err_reset res)\<lparr>err_status := rcBusy\<rparr>)
     in ((NK_EOK, res'), requestCounter + 1))"

text \<open>The dispatch loop of the C server.  The transport is the fields of \<open>server_api\<close>; the generated
  dispatcher is a function of the handler, the message and the handler's state.\<close>

record ('w, 'm) server_api =
  ServiceLocatorRegister :: "'w \<Rightarrow> bool \<times> 'w"
  nk_transport_recv :: "'w \<Rightarrow> (nk_err \<times> 'm) \<times> 'w"
  entity_dispatch :: "(Request \<Rightarrow> u64 ipc_res \<Rightarrow> u64 \<Rightarrow> (nk_err \<times> u64 ipc_res) \<times> u64)
     \<Rightarrow> 'm \<Rightarrow> u64 \<Rightarrow> (nk_err \<times> u64 ipc_res) \<times> u64"
  nk_transport_reply :: "u64 ipc_res \<Rightarrow> 'w \<Rightarrow> nk_err \<times> 'w"

datatype 'm server_event =
    Registered bool
  | Received "nk_err \<times> 'm"
  | Replied "u64 ipc_res" nk_err

text \<open>\<open>while (true)\<close>: a number of rounds bounds the run, \<^term>\<open>None\<close> is a server still running.\<close>

fun server_loop ::
  "('w, 'm) server_api \<Rightarrow> nat \<Rightarrow> u64 \<Rightarrow> ('w, 'm server_event, int option) io" where
  "server_loop api 0 counter = io_return None"
| "server_loop api (Suc n) counter = do {
     (nkError, req) \<leftarrow> call Received (nk_transport_recv api);
     if nkError \<noteq> NK_EOK then io_return (Some EXIT_FAILURE)
     else (case entity_dispatch api SumRequest_impl req counter of
       ((nkError, res), counter) \<Rightarrow>
         if nkError \<noteq> NK_EOK then io_return (Some EXIT_FAILURE)
         else do {
           nkError \<leftarrow> call (Replied res) (nk_transport_reply api res);
           if nkError \<noteq> NK_EOK then io_return (Some EXIT_FAILURE)
           else server_loop api n counter }) }"

definition main_server_c :: "('w, 'm) server_api \<Rightarrow> nat \<Rightarrow> ('w, 'm server_event, int option) io" where
  "main_server_c api n = do {
     ok \<leftarrow> call Registered (ServiceLocatorRegister api);
     if \<not> ok then io_return (Some EXIT_FAILURE)
     else server_loop api n requestCounter_init }"

text \<open>The handler of the C++ server, on \<open>m_requestCounter\<close>.\<close>

definition m_requestCounter_init :: u64 where "m_requestCounter_init = 1"

definition SumRequest_cpp :: "Request \<Rightarrow> u64 \<Rightarrow> (sum_exception cpp_exception + u64) \<times> u64" where
  "SumRequest_cpp request m_requestCounter =
    (if m_requestCounter mod 2 = 0 then (Inl (Custom ServerBusy), m_requestCounter + 1)
     else (Inr (ucast (num1 request + num2 request)), m_requestCounter + 1))"


text \<open>The C++ server: the dispatch loop over its handler; \<open>serve\<close> is the framework that turns results and exceptions into
  responses.\<close>

definition main_server_cpp :: "(sum_exception cpp_exception + u64 \<Rightarrow> u64 ipc_res) \<Rightarrow> Request list \<Rightarrow> u64 ipc_res list" where
  "main_server_cpp serve requests =
    fst (event_loop (\<lambda>req c. case SumRequest_cpp req c of (r, c') \<Rightarrow> (serve r, c')) requests m_requestCounter_init)"


subsection \<open>The clients\<close>

definition SERVERS_COUNT :: nat where "SERVERS_COUNT = 2"
definition PERM_DELAY_MS :: nat where "PERM_DELAY_MS = 1000"
definition BUSY_DELAY_MS :: nat where "BUSY_DELAY_MS = 100"

datatype sum_event =
    Connected nat bool
  | GotRiid nat bool
  | SumCalled nat Request "nk_err \<times> u64 ipc_res"
  | EndpointCalled nat Request "sum_exception cpp_exception + u64"
  | SleptMs nat
  | Drawn "nat \<times> u32 \<times> u32"

type_synonym 'w transport = "nat \<Rightarrow> Request \<Rightarrow> 'w \<Rightarrow> (nk_err \<times> u64 ipc_res) \<times> 'w"
type_synonym 'w endpoints = "nat \<Rightarrow> Request \<Rightarrow> 'w \<Rightarrow> (sum_exception cpp_exception + u64) \<times> 'w"

text \<open>What the C client makes of a request in the end: it prints a result, or that the request was
  denied.\<close>

datatype round_end = PrintedResult u64 | PrintedExceeded u32

text \<open>The inner loop \<open>for (;;)\<close>; \<^term>\<open>None\<close> when it has not ended within the given number of
  calls.\<close>

fun client_round ::
  "'w transport \<Rightarrow> nat \<Rightarrow> nat \<Rightarrow> Request \<Rightarrow> ('w, sum_event, round_end option) io" where
  "client_round SumRequest 0 curServer req = io_return None"
| "client_round SumRequest (Suc n) curServer req = do {
     (nkError, res) \<leftarrow> call (SumCalled curServer req) (SumRequest curServer req);
     if nkError = NK_EOK then
       (if err_status res = rcBusy then do {
          _ \<leftarrow> emit (SleptMs BUSY_DELAY_MS);
          client_round SumRequest n (curServer XOR 1) (req\<lparr>repeats := repeats req + 1\<rparr>) }
        else do {
          _ \<leftarrow> emit (SleptMs PERM_DELAY_MS);
          io_return (Some (PrintedResult (res_value res))) })
     else if nkError = NK_EPERM then do {
       _ \<leftarrow> emit (SleptMs PERM_DELAY_MS);
       io_return (Some (PrintedExceeded (repeats req - 1))) }
     else client_round SumRequest n curServer req }"

record 'w client_api =
  ServiceLocatorConnect :: "nat \<Rightarrow> 'w \<Rightarrow> bool \<times> 'w"
  ServiceLocatorGetRiid :: "nat \<Rightarrow> 'w \<Rightarrow> bool \<times> 'w"
  rand_draw :: "'w \<Rightarrow> (nat \<times> u32 \<times> u32) \<times> 'w"
  SumRequest_call :: "'w transport"

definition ServerTransportInit :: "'w client_api \<Rightarrow> nat \<Rightarrow> ('w, sum_event, Retcode) io" where
  "ServerTransportInit api channel = do {
     connected \<leftarrow> call (Connected channel) (ServiceLocatorConnect api channel);
     if \<not> connected then io_return rcFail
     else do {
       found \<leftarrow> call (GotRiid channel) (ServiceLocatorGetRiid api channel);
       if \<not> found then io_return rcFail else io_return rcOk } }"

text \<open>\<open>do \<dots> while (true)\<close>, each round drawing a server and two numbers: at most the given number of
  rounds, each of at most \<open>calls\<close> calls.\<close>

fun client_loop :: "'w client_api \<Rightarrow> nat \<Rightarrow> nat \<Rightarrow> ('w, sum_event, int option) io" where
  "client_loop api calls 0 = io_return None"
| "client_loop api calls (Suc n) = do {
     (server, a, b) \<leftarrow> call Drawn (rand_draw api);
     r \<leftarrow> client_round (SumRequest_call api) calls (server mod SERVERS_COUNT)
            \<lparr>repeats = 0, num1 = a mod 100, num2 = b mod 100\<rparr>;
     (case r of None \<Rightarrow> io_return None | Some _ \<Rightarrow> client_loop api calls n) }"

fun init_servers :: "'w client_api \<Rightarrow> nat list \<Rightarrow> ('w, sum_event, bool) io" where
  "init_servers api [] = io_return True"
| "init_servers api (i # is) = do {
     rc \<leftarrow> ServerTransportInit api i;
     if rc \<noteq> rcOk then io_return False else init_servers api is }"

definition main_client_c :: "'w client_api \<Rightarrow> nat \<Rightarrow> nat \<Rightarrow> ('w, sum_event, int option) io" where
  "main_client_c api calls n = do {
     ok \<leftarrow> init_servers api [0..<SERVERS_COUNT];
     if \<not> ok then io_return (Some EXIT_FAILURE) else client_loop api calls n }"

text \<open>\<open>ProcessRequest\<close> of the C++ client: \<open>Inl\<close> is an exception that leaves it, \<^term>\<open>None\<close> that it has
  not ended within the given number of calls.\<close>

fun ProcessRequest :: "'w endpoints \<Rightarrow> nat \<Rightarrow> nat \<Rightarrow> Request \<Rightarrow>
    ('w, sum_event, (sum_exception cpp_exception + u64 option) option) io" where
  "ProcessRequest servers 0 curServer req = io_return None"
| "ProcessRequest servers (Suc n) curServer req = do {
     r \<leftarrow> call (EndpointCalled curServer req) (servers curServer req);
     (case r of
        Inr result \<Rightarrow> io_return (Some (Inr (Some result)))
      | Inl (Custom ServerBusy) \<Rightarrow> do {
          _ \<leftarrow> emit (SleptMs 100);
          ProcessRequest servers n (curServer XOR 1) (req\<lparr>repeats := repeats req + 1\<rparr>) }
      | Inl (RuntimeError e) \<Rightarrow> io_return (Some (Inr None))
      | Inl e \<Rightarrow> io_return (Some (Inl e))) }"


text \<open>\<open>main\<close> of the C++ client: \<open>while (true)\<close> inside the function's \<open>try\<close>, whose handler returns
  \<open>EXIT_FAILURE\<close>.  The draws are a server number of 0 or 1 and two numbers from 1 to 100.\<close>

fun client_cpp_loop :: "('w \<Rightarrow> (nat \<times> u32 \<times> u32) \<times> 'w) \<Rightarrow> 'w endpoints \<Rightarrow> nat \<Rightarrow> nat \<Rightarrow>
    ('w, sum_event, int option) io" where
  "client_cpp_loop draw servers calls 0 = io_return None"
| "client_cpp_loop draw servers calls (Suc n) = do {
     (server, a, b) \<leftarrow> call Drawn draw;
     r \<leftarrow> ProcessRequest servers calls server \<lparr>repeats = 0, num1 = a, num2 = b\<rparr>;
     (case r of
        None \<Rightarrow> io_return None
      | Some (Inl e) \<Rightarrow> io_return (Some EXIT_FAILURE)
      | Some (Inr result) \<Rightarrow> do {
          _ \<leftarrow> emit (SleptMs 1000);
          client_cpp_loop draw servers calls n }) }"


subsection \<open>The system\<close>

text \<open>The rule of the security policy for \<open>SumRequest\<close> calls of the clients: denied when the number
  of repeats is greater than 1.\<close>

definition policy_denies :: "Request \<Rightarrow> bool" where
  "policy_denies req \<longleftrightarrow> repeats req > 1"

text \<open>
  The two servers behind the policy: server 0 is the C server, server 1 the C++ server, the world is
  their two counters.  A denied request gets \<open>NK_EPERM\<close> and reaches no server.  \<open>fresh\<close> is the
  response the generated dispatcher hands to the C handler and \<open>serve\<close> the C++ framework.
\<close>

definition sum_ipc ::
  "u64 ipc_res \<Rightarrow> (sum_exception cpp_exception + u64 \<Rightarrow> u64 ipc_res) \<Rightarrow> (u64 \<times> u64) transport" where
  "sum_ipc fresh serve server req w =
    (if policy_denies req then ((NK_EPERM, fresh), w)
     else if server = 0 then
       (case SumRequest_impl req fresh (fst w) of (r, c) \<Rightarrow> (r, (c, snd w)))
     else (case SumRequest_cpp req (snd w) of (r, c) \<Rightarrow> ((NK_EOK, serve r), (fst w, c))))"

text \<open>The endpoints of the C++ client over a transport.\<close>

definition proxied :: "(nk_err \<Rightarrow> u64 ipc_res \<Rightarrow> sum_exception cpp_exception + u64) \<Rightarrow> 'w transport \<Rightarrow>
    'w endpoints" where
  "proxied proxy tr server req w = (case tr server req w of ((e, res), w') \<Rightarrow> (proxy e res, w'))"


subsection \<open>Vocabulary of the contracts\<close>

text \<open>What a client learns from a response: the result, or \<^term>\<open>None\<close> that the server is busy.\<close>

definition observed :: "u64 ipc_res \<Rightarrow> u64 option" where
  "observed res = (if err_status res = rcBusy then None else Some (res_value res))"

definition c_step :: "u64 \<Rightarrow> Request \<Rightarrow> u64 \<Rightarrow> u64 option \<times> u64" where
  "c_step v req counter =
    (case SumRequest_impl req \<lparr>res_value = v, err_status = rcOk\<rparr> counter of
      ((e, res), counter') \<Rightarrow> (observed res, counter'))"

definition cpp_step :: "Request \<Rightarrow> u64 \<Rightarrow> u64 option \<times> u64" where
  "cpp_step req counter = (case SumRequest_cpp req counter of
      (Inl e, counter') \<Rightarrow> (None, counter') | (Inr r, counter') \<Rightarrow> (Some r, counter'))"

fun run_server :: "(Request \<Rightarrow> 's \<Rightarrow> 'a \<times> 's) \<Rightarrow> 's \<Rightarrow> Request list \<Rightarrow> 'a list" where
  "run_server step s [] = []"
| "run_server step s (req # reqs) = (let (a, s') = step req s in a # run_server step s' reqs)"

definition sum_of :: "Request \<Rightarrow> u64" where
  "sum_of req = ucast (num1 req + num2 req)"

text \<open>The abstract server: ready and busy in turn.\<close>

fun alternating :: "bool \<Rightarrow> Request list \<Rightarrow> u64 option list" where
  "alternating ready [] = []"
| "alternating ready (req # reqs) =
     (if ready then Some (sum_of req) else None) # alternating (\<not> ready) reqs"

definition calls_made :: "sum_event list \<Rightarrow> (nat \<times> Request) list" where
  "calls_made es = List.map_filter (\<lambda>e. case e of
      SumCalled s req r \<Rightarrow> Some (s, req) | EndpointCalled s req r \<Rightarrow> Some (s, req) | _ \<Rightarrow> None) es"

definition replies :: "'m server_event list \<Rightarrow> u64 ipc_res list" where
  "replies es = List.map_filter (\<lambda>e. case e of Replied res r \<Rightarrow> Some res | _ \<Rightarrow> None) es"

definition requests :: "('m \<Rightarrow> Request option) \<Rightarrow> 'm server_event list \<Rightarrow> Request list" where
  "requests decode es = List.map_filter (\<lambda>e. case e of
      Received (err, m) \<Rightarrow> if err = NK_EOK then decode m else None | _ \<Rightarrow> None) es"

text \<open>What the programs rely on of the transport: the policy is enforced, and nothing else fails.\<close>

definition enforces_policy :: "'w transport \<Rightarrow> bool" where
  "enforces_policy tr \<longleftrightarrow> (\<forall>s req w. policy_denies req \<longrightarrow> fst (fst (tr s req w)) = NK_EPERM)"

definition never_fails :: "'w transport \<Rightarrow> bool" where
  "never_fails tr \<longleftrightarrow> (\<forall>s req w. fst (fst (tr s req w)) \<in> {NK_EOK, NK_EPERM} \<and>
      err_status (snd (fst (tr s req w))) \<in> {rcOk, rcBusy})"

text \<open>What the C server relies on of the generated dispatcher: a message that decodes is handed to
  the handler with a cleared response, any other one is an error.\<close>

definition dispatches ::
  "('m \<Rightarrow> Request option) \<Rightarrow> u64 \<Rightarrow> ((Request \<Rightarrow> u64 ipc_res \<Rightarrow> u64 \<Rightarrow> (nk_err \<times> u64 ipc_res) \<times> u64)
     \<Rightarrow> 'm \<Rightarrow> u64 \<Rightarrow> (nk_err \<times> u64 ipc_res) \<times> u64) \<Rightarrow> bool" where
  "dispatches decode v dispatch \<longleftrightarrow> (\<forall>h m c. case decode m of
      Some req \<Rightarrow> dispatch h m c = h req \<lparr>res_value = v, err_status = rcOk\<rparr> c
    | None \<Rightarrow> fst (fst (dispatch h m c)) \<noteq> NK_EOK)"


text \<open>Whether a server of the system will answer its next request.\<close>

definition ready_at :: "nat \<Rightarrow> u64 \<times> u64 \<Rightarrow> bool" where
  "ready_at s w \<longleftrightarrow> odd (if s = 0 then fst w else snd w)"

text \<open>The end of a round of the C client as the C++ client reports it.\<close>

fun cpp_of :: "round_end \<Rightarrow> sum_exception cpp_exception + u64 option" where
  "cpp_of (PrintedResult v) = Inr (Some v)"
| "cpp_of (PrintedExceeded k) = Inr None"


text \<open>A framework and a dispatcher that keep the contracts, for concrete runs.\<close>

definition demo_serve :: "sum_exception cpp_exception + u64 \<Rightarrow> u64 ipc_res" where
  "demo_serve h = (case h of Inr r \<Rightarrow> \<lparr>res_value = r, err_status = rcOk\<rparr>
     | Inl e \<Rightarrow> \<lparr>res_value = 0, err_status = CatchException e\<rparr>)"

definition demo_proxy :: "nk_err \<Rightarrow> u64 ipc_res \<Rightarrow> sum_exception cpp_exception + u64" where
  "demo_proxy e res = (if e \<noteq> NK_EOK then Inl (RuntimeError ''transport'')
     else if err_status res = rcOk then Inr (res_value res)
     else case ThrowException (err_status res) of Some x \<Rightarrow> Inl (Custom x)
       | None \<Rightarrow> Inl (StdException ''retcode''))"

definition demo_server :: "(Request list, Request option) server_api" where
  "demo_server = \<lparr>ServiceLocatorRegister = (\<lambda>w. (True, w)),
     nk_transport_recv = (\<lambda>w. case w of [] \<Rightarrow> ((NK_OTHER 1, None), []) | r # rs \<Rightarrow> ((NK_EOK, Some r), rs)),
     entity_dispatch = (\<lambda>h m c. case m of
        Some req \<Rightarrow> h req \<lparr>res_value = 0, err_status = rcOk\<rparr> c
      | None \<Rightarrow> ((NK_OTHER 2, \<lparr>res_value = 0, err_status = rcOk\<rparr>), c)),
     nk_transport_reply = (\<lambda>res w. (NK_EOK, w))\<rparr>"


subsection \<open>The servers\<close>

locale sum_server =
  fixes step :: "Request \<Rightarrow> 's \<Rightarrow> u64 option \<times> 's"
    and ready :: "'s \<Rightarrow> bool"
  assumes answer: "fst (step req s) = (if ready s then Some (sum_of req) else None)"
    and flip: "ready (snd (step req s)) \<longleftrightarrow> \<not> ready s"
begin

lemma run_server_alternating: "run_server step s reqs = alternating (ready s) reqs"
  by (induction reqs arbitrary: s) (simp_all add: answer flip split_beta Let_def)

end

lemma mod2_odd [simp]: "(c mod 2 = (0 :: u64)) = even c" "(c mod 2 \<noteq> (0 :: u64)) = odd c"
  by (simp_all add: even_iff_mod_2_eq_zero)

interpretation c_server: sum_server "c_step v" odd for v
  by unfold_locales
    (simp_all add: c_step_def SumRequest_impl_def nk_err_reset_def observed_def sum_of_def Let_def)

interpretation cpp_server: sum_server cpp_step odd
  by unfold_locales (simp_all add: cpp_step_def SumRequest_cpp_def sum_of_def)

text \<open>The responses of the C++ server, seen by a client.\<close>

lemma main_server_cpp_spec:
  assumes "kosipc_serve_ok CatchException serve"
  shows "map observed (main_server_cpp serve reqs) = alternating True reqs"
proof -
  have "observed (serve (fst (SumRequest_cpp req c))) = fst (cpp_step req c)"
    "snd (SumRequest_cpp req c) = snd (cpp_step req c)" for req c
    using assms by (auto simp: kosipc_serve_ok_def observed_def cpp_step_def SumRequest_cpp_def code_ServerBusy_def)
  then have "map observed (fst (event_loop (\<lambda>req c. case SumRequest_cpp req c of (r, c') \<Rightarrow> (serve r, c')) reqs c)) =
      run_server cpp_step c reqs" for c
    by (induction reqs arbitrary: c) (simp_all add: split_beta Let_def)
  then show ?thesis using cpp_server.run_server_alternating [of m_requestCounter_init]
    by (simp add: main_server_cpp_def m_requestCounter_init_def)
qed

interpretation sum_converter: retcode_converter CatchException ThrowException
proof
  show "ThrowException (CatchException (Custom x)) = Some x" for x
    by (cases x) (simp add: ThrowException_def)
  show "CatchException e \<noteq> rcOk" for e
    by (cases e rule: CatchException.cases) (simp_all add: code_ServerBusy_def)
  show "ThrowException (CatchException e) = None" if "\<And>x. e \<noteq> Custom x" for e
    using that by (cases e; force simp: ThrowException_def code_ServerBusy_def)
qed


subsection \<open>The dispatch loop of the C server\<close>

lemma server_events [simp]:
  "replies [] = []" "replies (Registered b # es) = replies es" "replies (Received x # es) = replies es"
  "replies (Replied res r # es) = res # replies es"
  "requests d [] = []" "requests d (Registered b # es) = requests d es"
  "requests d (Replied res r # es) = requests d es"
  "requests d (Received (err, m) # es) =
     (case if err = NK_EOK then d m else None of None \<Rightarrow> [] | Some req \<Rightarrow> [req]) @ requests d es"
  by (simp_all add: replies_def requests_def map_filter_simps split: option.splits)

lemma SumRequest_impl_step:
  assumes "SumRequest_impl req \<lparr>res_value = v, err_status = rcOk\<rparr> c = ((e, res), c')"
  shows "e = NK_EOK" "observed res = (if odd c then Some (sum_of req) else None)" "odd c' \<longleftrightarrow> even c"
  using assms c_server.answer [of v req c] c_server.flip [of v req c]
  by (simp_all add: c_step_def) (simp add: SumRequest_impl_def Let_def)

lemma server_loop_post:
  assumes "dispatches decode v (entity_dispatch api)"
  shows "io_post (server_loop api n c) (\<lambda>ret es. (ret = None \<or> ret = Some EXIT_FAILURE) \<and>
      length (replies es) \<le> length (requests decode es) \<and>
      (ret = None \<longrightarrow> length (requests decode es) = n \<and> length (replies es) = n) \<and>
      map observed (replies es) = take (length (replies es)) (alternating (odd c) (requests decode es)))"
proof (induction n arbitrary: c)
  case 0
  show ?case by (auto intro!: io_rules)
next
  case (Suc n)
  have d: "case decode m of Some req \<Rightarrow> entity_dispatch api h m c = h req \<lparr>res_value = v, err_status = rcOk\<rparr> c
    | None \<Rightarrow> fst (fst (entity_dispatch api h m c)) \<noteq> NK_EOK" for h m
    using assms unfolding dispatches_def by blast
  have disp: "\<exists>req. decode m = Some req \<and>
      observed res = (if odd c then Some (sum_of req) else None) \<and> (odd c' \<longleftrightarrow> even c)"
    if eq: "entity_dispatch api SumRequest_impl m c = ((NK_EOK, res), c')" for m res c'
  proof (cases "decode m")
    case None
    then show ?thesis using d [of SumRequest_impl m] eq by simp
  next
    case (Some req)
    then have "SumRequest_impl req \<lparr>res_value = v, err_status = rcOk\<rparr> c = ((NK_EOK, res), c')"
      using d [of SumRequest_impl m] eq by simp
    then show ?thesis using Some SumRequest_impl_step by auto
  qed
  have rule: "io_post (server_loop api n c') Q"
    if "\<And>ret es. (ret = None \<or> ret = Some EXIT_FAILURE) \<and>
      length (replies es) \<le> length (requests decode es) \<and>
      (ret = None \<longrightarrow> length (requests decode es) = n \<and> length (replies es) = n) \<and>
      map observed (replies es) = take (length (replies es)) (alternating (odd c') (requests decode es))
      \<Longrightarrow> Q ret es" for c' Q
    using Suc.IH that by (rule io_post_mono)
  show ?case
    unfolding server_loop.simps
    by (intro io_rules rule) (auto dest!: disp)
qed


subsection \<open>The clients\<close>

lemma calls_made_simps [simp]:
  "calls_made [] = []" "calls_made (SumCalled s req r # es) = (s, req) # calls_made es"
  "calls_made (EndpointCalled s req x # es) = (s, req) # calls_made es"
  "calls_made (SleptMs n # es) = calls_made es" "calls_made (Connected i b # es) = calls_made es"
  "calls_made (GotRiid i b # es) = calls_made es" "calls_made (Drawn d # es) = calls_made es"
  "calls_made (es @ es') = calls_made es @ calls_made es'"
  by (simp_all add: calls_made_def map_filter_simps map_filter_def)

lemma sum_ipc_granted:
  assumes "kosipc_serve_ok CatchException serve" "err_status fresh = rcOk" "\<not> policy_denies req"
    and "sum_ipc fresh serve s req w = ((e, res), w')"
  shows "e = NK_EOK" "ready_at s w \<Longrightarrow> err_status res = rcOk \<and> res_value res = sum_of req"
    "\<not> ready_at s w \<Longrightarrow> err_status res = rcBusy"
    "t = 0 \<longleftrightarrow> s \<noteq> 0 \<Longrightarrow> ready_at t w' = ready_at t w"
  using assms
  by (auto simp: sum_ipc_def kosipc_serve_ok_def SumRequest_impl_def SumRequest_cpp_def ready_at_def
      sum_of_def nk_err_reset_def code_ServerBusy_def split: if_splits)

lemma sum_ipc_denied: "policy_denies req \<Longrightarrow> sum_ipc fresh serve s req w = ((NK_EPERM, fresh), w)"
  by (simp add: sum_ipc_def)

lemma sum_ipc_contract:
  assumes "kosipc_serve_ok CatchException serve" "err_status fresh = rcOk"
  shows "enforces_policy (sum_ipc fresh serve)" "never_fails (sum_ipc fresh serve)"
proof -
  show "enforces_policy (sum_ipc fresh serve)" by (simp add: enforces_policy_def sum_ipc_def)
  show "never_fails (sum_ipc fresh serve)"
    using assms by (auto simp: never_fails_def sum_ipc_def kosipc_serve_ok_def SumRequest_impl_def
      SumRequest_cpp_def nk_err_reset_def code_ServerBusy_def Let_def)
qed

lemma unat_ucast_64: "unat (ucast (x :: u32) :: u64) = unat x"
proof -
  have "unat x < 2 ^ 32" using unsigned_less [of x] by simp
  then show ?thesis by (simp add: unsigned_ucast_eq take_bit_nat_eq_self)
qed

lemma policy_simps: "repeats req = 0 \<Longrightarrow> \<not> policy_denies req"
  "repeats req = 0 \<Longrightarrow> \<not> policy_denies (req\<lparr>repeats := 1\<rparr>)" "policy_denies (req\<lparr>repeats := 2\<rparr>)"
  by (simp_all add: policy_denies_def)

lemma xor_one [simp]: "(s XOR Suc 0) XOR Suc 0 = s"
  by (simp add: xor.assoc)

lemma other_server: "s < 2 \<Longrightarrow> (s XOR 1 = 0) = (s \<noteq> (0 :: nat))"
  by (auto simp: less_2_cases_iff)

lemma client_round_run:
  assumes "kosipc_serve_ok CatchException serve" "err_status fresh = rcOk" "s < 2" "repeats req = 0"
    and r0_def: "r0 = ready_at s w" and r1_def: "r1 = ready_at (s XOR 1) w"
  shows "\<exists>es. run_io (client_round (sum_ipc fresh serve) (3 + n) s req) w =
      (Some (if r0 \<or> r1 then PrintedResult (sum_of req) else PrintedExceeded 1), es) \<and>
    calls_made es = (s, req) # (if r0 then [] else (s XOR 1, req\<lparr>repeats := 1\<rparr>) #
      (if r1 then [] else [(s, req\<lparr>repeats := 2\<rparr>)]))"
proof -
  obtain e a w1 where 0: "sum_ipc fresh serve s req w = ((e, a), w1)" by (metis prod.collapse)
  note f0 = sum_ipc_granted [OF assms(1,2) policy_simps(1) [OF assms(4)] 0]
  obtain e' b w2 where 1: "sum_ipc fresh serve (s XOR 1) (req\<lparr>repeats := 1\<rparr>) w1 = ((e', b), w2)"
    by (metis prod.collapse)
  note f1 = sum_ipc_granted [OF assms(1,2) policy_simps(2) [OF assms(4)] 1]
  have "r1 = ready_at (s XOR 1) w1" using f0(4) [of "s XOR 1"] other_server [OF assms(3)] r1_def by blast
  moreover have "sum_of (req\<lparr>repeats := 1\<rparr>) = sum_of req" by (simp add: sum_of_def)
  ultimately show ?thesis
    using f0(1-3) f1(1-3) 0 1 sum_ipc_denied [OF policy_simps(3)] assms(4)
    by (auto simp: r0_def run_io_def numeral_3_eq_3)
qed


lemma client_round_ends:
  assumes "enforces_policy tr" "never_fails tr" "repeats req = 0"
  shows "\<exists>d es. run_io (client_round tr (3 + n) s req) w = (Some d, es) \<and> length (calls_made es) \<le> 3"
proof -
  have e: "fst (fst (tr s req w)) = NK_EOK \<or> fst (fst (tr s req w)) = NK_EPERM" for s req w
    using assms(2) by (auto simp: never_fails_def)
  have d: "fst (fst (tr s (req\<lparr>repeats := 2\<rparr>) w)) = NK_EPERM" for s w
    using assms(1) policy_simps(3) by (simp add: enforces_policy_def)
  show ?thesis
    using e [of s req w] e [of "s XOR 1" "req\<lparr>repeats := 1\<rparr>" "snd (tr s req w)"] d assms(3)
    by (auto simp: run_io_def numeral_3_eq_3 split_beta)
qed

text \<open>One call, seen by both clients.\<close>

lemma proxied_call:
  assumes "never_fails tr" "kosipc_proxy_ok ThrowException proxy" "tr s req w = ((e, res), w')"
  shows "e = NK_EOK \<Longrightarrow> err_status res = rcBusy \<Longrightarrow> proxied proxy tr s req w = (Inl (Custom ServerBusy), w')"
    "e = NK_EOK \<Longrightarrow> err_status res \<noteq> rcBusy \<Longrightarrow> proxied proxy tr s req w = (Inr (res_value res), w')"
    "e \<noteq> NK_EOK \<Longrightarrow> e = NK_EPERM \<and> (\<exists>m. proxied proxy tr s req w = (Inl (RuntimeError m), w'))"
proof -
  have r: "e \<in> {NK_EOK, NK_EPERM}" "err_status res \<in> {rcOk, rcBusy}"
    using assms(1,3) unfolding never_fails_def by (metis fst_conv snd_conv)+
  show "e = NK_EOK \<Longrightarrow> err_status res = rcBusy \<Longrightarrow> proxied proxy tr s req w = (Inl (Custom ServerBusy), w')"
    "e = NK_EOK \<Longrightarrow> err_status res \<noteq> rcBusy \<Longrightarrow> proxied proxy tr s req w = (Inr (res_value res), w')"
    "e \<noteq> NK_EOK \<Longrightarrow> e = NK_EPERM \<and> (\<exists>m. proxied proxy tr s req w = (Inl (RuntimeError m), w'))"
    using r assms(2,3)
    by (auto simp: proxied_def kosipc_proxy_ok_def ThrowException_def code_ServerBusy_def)
qed

lemma clients_step:
  assumes "never_fails tr" "kosipc_proxy_ok ThrowException proxy" "world u = world v"
  shows "\<exists>r u' v' es es'. run_state (client_round tr n s req) u = (r, u') \<and>
    run_state (ProcessRequest (proxied proxy tr) n s req) v = (map_option cpp_of r, v') \<and>
    world u' = world v' \<and> trace u' = trace u @ es \<and> trace v' = trace v @ es' \<and>
    calls_made es = calls_made es'"
  using assms(3)
proof (induction n arbitrary: s req u v)
  case 0
  then show ?case by auto
next
  case (Suc n)
  obtain e res w' where tr: "tr s req (world v) = ((e, res), w')" by (metis prod.collapse)
  note call = proxied_call [OF assms(1,2) tr]
  let ?u = "u\<lparr>world := w', trace := trace u @ [SumCalled s req (e, res), SleptMs BUSY_DELAY_MS]\<rparr>"
  let ?v = "v\<lparr>world := w', trace := trace v @ [EndpointCalled s req (Inl (Custom ServerBusy)), SleptMs 100]\<rparr>"
  obtain r u' v' es es' where ih:
    "run_state (client_round tr n (s XOR 1) (req\<lparr>repeats := repeats req + 1\<rparr>)) ?u = (r, u')"
    "run_state (ProcessRequest (proxied proxy tr) n (s XOR 1) (req\<lparr>repeats := repeats req + 1\<rparr>)) ?v =
       (map_option cpp_of r, v')"
    "world u' = world v'" "trace u' = trace ?u @ es" "trace v' = trace ?v @ es'"
    "calls_made es = calls_made es'"
    using Suc.IH [of ?u ?v "s XOR 1" "req\<lparr>repeats := repeats req + 1\<rparr>"] by auto
  consider "e = NK_EOK" "err_status res = rcBusy" | "e = NK_EOK" "err_status res \<noteq> rcBusy" | "e \<noteq> NK_EOK"
    by blast
  then show ?case
    using call ih tr Suc.prems by cases (auto simp: add.commute)
qed


lemma demo_framework:
  "kosipc_serve_ok CatchException demo_serve" "kosipc_proxy_ok ThrowException demo_proxy"
  by (auto simp: kosipc_serve_ok_def kosipc_proxy_ok_def demo_serve_def demo_proxy_def)

lemma demo_dispatches: "dispatches id 0 (entity_dispatch demo_server)"
  by (auto simp: dispatches_def demo_server_def split: option.splits)


text \<open>The mains of the clients: the only end is a failure to set up the connections (C), or an
  exception that is neither busy nor a transport error (C++).\<close>

lemma main_client_c_end:
  "io_post (main_client_c api calls n) (\<lambda>ret es. ret = None \<or> ret = Some EXIT_FAILURE \<and> calls_made es = [])"
proof -
  have init: "io_post (init_servers api is) (\<lambda>ok es. calls_made es = [])" for "is"
  proof (induction "is")
    case (Cons i "is")
    show ?case unfolding init_servers.simps
      by (rule io_post_bind [where P = "\<lambda>rc es. calls_made es = []"])
        (auto simp: ServerTransportInit_def intro!: io_rules io_post_mono [OF Cons.IH])
  qed (auto intro!: io_rules)
  have loop: "io_post (client_loop api calls n) (\<lambda>ret es. ret = None)" for n
  proof (induction n)
    case (Suc n)
    have round: "io_post (client_round tr k s req) (\<lambda>_ _. True)" for tr k s req
      by (induction k arbitrary: s req) (auto intro!: io_rules)
    show ?case unfolding client_loop.simps
      by (auto intro!: io_rules io_post_bind [OF round] Suc.IH)
  qed (auto intro!: io_rules)
  show ?thesis unfolding main_client_c_def
    by (rule io_post_bind [OF init]) (auto intro!: io_rules io_post_mono [OF loop])
qed


subsection \<open>Properties\<close>

text \<open>C28: The C server (with a cleared response) and the C++ server are the same server: on every
  sequence of requests from the start both answer the first request with the 32-bit sum of the
  numbers, the second with busy, and so on in turn, for any number of requests (the counter wraps
  at \<open>2^64\<close>, which is even).\<close>

theorem servers_equivalent:
  "run_server (c_step v) requestCounter_init reqs = alternating True reqs \<and>
   run_server cpp_step m_requestCounter_init reqs = alternating True reqs"
  using c_server.run_server_alternating cpp_server.run_server_alternating
  by (simp add: requestCounter_init_def m_requestCounter_init_def)

text \<open>C35: The dispatch loop of the C server ends only with a failure code, after an error of the
  transport or the dispatcher.  Every reply it sends answers the next request received, in order, and
  the replies are the sum and busy in turn; as long as it runs, every request received has been
  replied to.\<close>

theorem main_server_c_spec:
  assumes "dispatches decode v (entity_dispatch api)"
    and "run_io (main_server_c api n) w = (ret, es)"
  shows "(ret = None \<or> ret = Some EXIT_FAILURE) \<and> length (replies es) \<le> length (requests decode es) \<and>
    (ret = None \<longrightarrow> length (requests decode es) = n \<and> length (replies es) = n) \<and>
    map observed (replies es) = take (length (replies es)) (alternating True (requests decode es))"
proof -
  have "io_post (main_server_c api n) (\<lambda>ret es. (ret = None \<or> ret = Some EXIT_FAILURE) \<and>
    length (replies es) \<le> length (requests decode es) \<and>
    (ret = None \<longrightarrow> length (requests decode es) = n \<and> length (replies es) = n) \<and>
    map observed (replies es) = take (length (replies es)) (alternating True (requests decode es)))"
    using server_loop_post [OF assms(1), of n requestCounter_init]
    unfolding main_server_c_def by (auto simp: requestCounter_init_def intro!: io_rules)
  from io_post_run [OF this assms(2)] show ?thesis .
qed

theorem main_server_c_spec_witness:
  "let req = \<lparr>repeats = 0, num1 = 5, num2 = 7\<rparr>; es = snd (run_io (main_server_c demo_server 9) [req, req, req])
   in map observed (replies es) = [Some 12, None, Some 12]"
proof -
  let ?req = "\<lparr>repeats = 0, num1 = 5, num2 = 7\<rparr>"
  obtain ret es where run: "run_io (main_server_c demo_server 9) [?req, ?req, ?req] = (ret, es)"
    by fastforce
  moreover from this have "requests id es = [?req, ?req, ?req]" "length (replies es) = 3"
    by (auto simp: run_io_def main_server_c_def demo_server_def numeral_eq_Suc SumRequest_impl_def Let_def)
  ultimately show ?thesis using main_server_c_spec [OF demo_dispatches run] by (simp add: sum_of_def)
qed

text \<open>C3: The C++ client on the two servers of the example, from any state of their counters: the
  result is the 32-bit sum of the two numbers (the exact sum whenever it fits) if the server first
  asked or else the other one is ready, and nothing if both are busy.  It makes one, two or three
  calls, the first repeat to the other server, the second denied by the policy.\<close>

theorem ProcessRequest_spec:
  assumes "kosipc_serve_ok CatchException serve" "kosipc_proxy_ok ThrowException proxy"
    and "err_status fresh = rcOk" "s < 2" "repeats req = 0"
  shows "\<exists>es. run_io (ProcessRequest (proxied proxy (sum_ipc fresh serve)) (3 + n) s req) w =
      (Some (Inr (if ready_at s w \<or> ready_at (s XOR 1) w then Some (sum_of req) else None)), es) \<and>
    calls_made es = (s, req) # (if ready_at s w then [] else (s XOR 1, req\<lparr>repeats := 1\<rparr>) #
      (if ready_at (s XOR 1) w then [] else [(s, req\<lparr>repeats := 2\<rparr>)])) \<and>
    (unat (num1 req) + unat (num2 req) < 2 ^ 32 \<longrightarrow>
      unat (sum_of req) = unat (num1 req) + unat (num2 req))"
proof -
  obtain es where c: "run_io (client_round (sum_ipc fresh serve) (3 + n) s req) w =
      (Some (if ready_at s w \<or> ready_at (s XOR 1) w then PrintedResult (sum_of req) else PrintedExceeded 1), es)"
    "calls_made es = (s, req) # (if ready_at s w then [] else (s XOR 1, req\<lparr>repeats := 1\<rparr>) #
      (if ready_at (s XOR 1) w then [] else [(s, req\<lparr>repeats := 2\<rparr>)]))"
    using client_round_run [OF assms(1,3,4,5) refl refl, of n w] by blast
  let ?u = "\<lparr>world = w, trace = []\<rparr>"
  have "\<exists>es'. run_io (ProcessRequest (proxied proxy (sum_ipc fresh serve)) (3 + n) s req) w =
      (map_option cpp_of (fst (run_io (client_round (sum_ipc fresh serve) (3 + n) s req) w)), es') \<and>
      calls_made es = calls_made es'"
    using clients_step [OF sum_ipc_contract(2) [OF assms(1,3)] assms(2), of ?u ?u "3 + n" s req] c(1)
    unfolding run_io_def by auto
  moreover have "unat (sum_of req) = unat (num1 req) + unat (num2 req)"
    if "unat (num1 req) + unat (num2 req) < 2 ^ 32"
    using that by (simp add: sum_of_def unat_ucast_64 unat_word_ariths)
  ultimately show ?thesis using c by auto
qed

theorem ProcessRequest_spec_witness:
  "\<exists>es. run_io (ProcessRequest (proxied demo_proxy
        (sum_ipc \<lparr>res_value = 0, err_status = rcOk\<rparr> demo_serve)) (3 + 0) 0
        \<lparr>repeats = 0, num1 = 5, num2 = 7\<rparr>) (2, 1) = (Some (Inr (Some 12)), es) \<and>
    length (calls_made es) = 2"
  using ProcessRequest_spec [OF demo_framework, of "\<lparr>res_value = 0, err_status = rcOk\<rparr>" 0
      "\<lparr>repeats = 0, num1 = 5, num2 = 7\<rparr>" 0 "(2, 1)"]
  by (auto simp: ready_at_def sum_of_def)

text \<open>C27: Over any transport that answers with a result, busy or a denial, the C client and the C++
  client behave alike: they make the same calls in the same order and end the same way, or both have
  not ended.\<close>

theorem clients_equivalent:
  assumes "never_fails tr" "kosipc_proxy_ok ThrowException proxy"
  shows "fst (run_io (ProcessRequest (proxied proxy tr) n s req) w) =
      map_option cpp_of (fst (run_io (client_round tr n s req) w)) \<and>
    calls_made (snd (run_io (ProcessRequest (proxied proxy tr) n s req) w)) =
      calls_made (snd (run_io (client_round tr n s req) w))"
  using clients_step [OF assms, of "\<lparr>world = w, trace = []\<rparr>" "\<lparr>world = w, trace = []\<rparr>" n s req]
  unfolding run_io_def by auto

theorem clients_equivalent_witness:
  "fst (run_io (ProcessRequest (proxied demo_proxy (\<lambda>s req w. ((NK_EPERM, \<lparr>res_value = 0, err_status = rcOk\<rparr>), w)))
      1 0 \<lparr>repeats = 0, num1 = 5, num2 = 7\<rparr>) ()) = Some (Inr None)"
proof -
  let ?tr = "\<lambda>s req w. ((NK_EPERM, \<lparr>res_value = 0, err_status = rcOk\<rparr>), w)"
  have "never_fails ?tr" by (simp add: never_fails_def)
  from clients_equivalent [OF this demo_framework(2), of 1 0 "\<lparr>repeats = 0, num1 = 5, num2 = 7\<rparr>" "()"]
  show ?thesis by (simp add: run_io_def)
qed

text \<open>A transport error other than a denial keeps the C client in its inner loop: it repeats the
  same call without a pause and without counting it, for as long as the error lasts.\<close>

theorem client_round_spins:
  "run_io (client_round (\<lambda>s req w. ((NK_OTHER k, res), w)) n s req) (w :: 'w) =
    (None, replicate n (SumCalled s req (NK_OTHER k, res)))"
proof -
  have "run_state (client_round (\<lambda>s req w. ((NK_OTHER k, res), w)) n s req) u =
      (None, u\<lparr>trace := trace u @ replicate n (SumCalled s req (NK_OTHER k, res))\<rparr>)" for u :: "('w, sum_event) sys"
    by (induction n arbitrary: u) simp_all
  then show ?thesis by (simp add: run_io_def)
qed

end
