(* ===== verification/Animals.thy ===== *)
theory Animals
  imports Kosipc
begin

section \<open>The animal endpoints\<close>

text \<open>
  \<^verbatim>\<open>examples/nkpp\<close>: a server with six objects behind one interface, a client that calls them, and the
  exception converter both use.  What the processes write to \<open>std::cerr\<close> is kept line by line; a call is
  synchronous, so the lines of a server call come before those of the client that follow it.
\<close>

subsection \<open>Food, codes and exceptions\<close>

text \<open>The union of the interface: a name or an index.\<close>

datatype Food = foodName string | foodIndex u16

definition KnownFood :: "string list" where
  "KnownFood = [''fish'', ''meat'', ''milk'', ''orange'', ''apple'', ''wood'', ''stone'']"

datatype animal_exception = AnimalNotSupported | FoodNotSuitable

fun exception_what :: "animal_exception \<Rightarrow> string" where
  "exception_what AnimalNotSupported = ''Animal not supported''"
| "exception_what FoodNotSuitable = ''Food not suitable''"

definition code_AnimalNotSupported :: Retcode where "code_AnimalNotSupported = CustomError 1"
definition code_FoodNotSuitable :: Retcode where "code_FoodNotSuitable = CustomError 2"

fun CatchException_animals :: "animal_exception cpp_exception \<Rightarrow> Retcode" where
  "CatchException_animals (Custom AnimalNotSupported) = code_AnimalNotSupported"
| "CatchException_animals (Custom FoodNotSuitable) = code_FoodNotSuitable"
| "CatchException_animals (RuntimeError e) = rcFail"
| "CatchException_animals (StdException e) = rcFail"
| "CatchException_animals UnknownException = rcFail"

definition ThrowException_animals :: "Retcode \<Rightarrow> animal_exception option" where
  "ThrowException_animals rc =
    (if rc = code_AnimalNotSupported then Some AnimalNotSupported
     else if rc = code_FoodNotSuitable then Some FoodNotSuitable
     else None)"


subsection \<open>The server\<close>

definition GetFoodStr :: "Food \<Rightarrow> string" where
  "GetFoodStr food = (case food of
     foodName arg \<Rightarrow> arg
   | foodIndex arg \<Rightarrow>
       if unat arg \<ge> length KnownFood then ''unknown something'' else KnownFood ! unat arg)"

text \<open>The classes with their fields: label, name, and \<open>m_isDog\<close>.\<close>

datatype Animal = Cat string string | Dog string string | CatDog string string bool
  | Something string string

definition Cat_Eatable :: "string list" where "Cat_Eatable = [''fish'', ''milk'']"
definition Dog_Eatable :: "string list" where "Dog_Eatable = [''meat'', ''milk'']"

fun GetWord :: "Animal \<Rightarrow> string option" where
  "GetWord (Cat _ _) = Some ''meow''"
| "GetWord (Dog _ _) = Some ''wooow''"
| "GetWord (CatDog _ _ m_isDog) = Some (if m_isDog then ''wooow'' else ''meow'')"
| "GetWord (Something _ _) = None"

fun GetEatable :: "Animal \<Rightarrow> string list option" where
  "GetEatable (Cat _ _) = Some Cat_Eatable"
| "GetEatable (Dog _ _) = Some Dog_Eatable"
| "GetEatable (CatDog _ _ m_isDog) = Some (if m_isDog then Dog_Eatable else Cat_Eatable)"
| "GetEatable (Something _ _) = None"

fun tag :: "Animal \<Rightarrow> string" where
  "tag (Cat m_label m_name) = ''[Server]: '' @ m_label @ '' '' @ m_name"
| "tag (Dog m_label m_name) = ''[Server]: '' @ m_label @ '' '' @ m_name"
| "tag (CatDog m_label m_name _) = ''[Server]: '' @ m_label @ '' '' @ m_name"
| "tag (Something m_label m_name) = ''[Server]: '' @ m_label @ '' '' @ m_name"

type_synonym handler_result = "(animal_exception cpp_exception + unit) \<times> string list"

text \<open>\<open>IAnimal::Say\<close> and \<open>IAnimal::Eat\<close>; \<open>Something\<close> overrides both.\<close>

definition Say :: "Animal \<Rightarrow> handler_result" where
  "Say a = (case GetWord a of
     Some word \<Rightarrow> (Inr (), [tag a @ '': '' @ word])
   | None \<Rightarrow> (Inl (Custom AnimalNotSupported),
       [tag a @ '': '' @ exception_what AnimalNotSupported]))"

definition Eat :: "Animal \<Rightarrow> Food \<Rightarrow> handler_result" where
  "Eat a food = (let foodStr = GetFoodStr food in
     case GetEatable a of
       Some eatable \<Rightarrow>
         if foodStr \<notin> set eatable
         then (Inl (Custom FoodNotSuitable), [tag a @ '' don't want to eat '' @ foodStr @ '': '' @
                exception_what FoodNotSuitable])
         else (Inr (), [tag a @ '' eats '' @ foodStr])
     | None \<Rightarrow> (Inr (), [tag a @ '' eats '' @ foodStr]))"

text \<open>The endpoints \<open>main\<close> of the server links to its objects, by the name the client connects to.\<close>

definition root :: "string \<Rightarrow> Animal option" where
  "root = [''catdog.cat'' \<mapsto> CatDog ''CatDog'' ''Cat'' False,
           ''catdog.dog'' \<mapsto> CatDog ''CatDog'' ''Dog'' True,
           ''collie.animal'' \<mapsto> Dog ''Dog'' ''Collie'',
           ''domestic.animal'' \<mapsto> Cat ''Cat'' ''Katty'',
           ''lion.animal'' \<mapsto> Cat ''Cat'' ''Lion'',
           ''something.animal'' \<mapsto> Something ''Something'' ''Thing'']"


text \<open>The server: the dispatch loop over the endpoints; a call is for an endpoint of \<open>root\<close>.\<close>

datatype animal_call = SayTo string | Feed string Food

definition handle_call :: "animal_call \<Rightarrow> handler_result" where
  "handle_call c = (case c of
     SayTo e \<Rightarrow> (case root e of Some a \<Rightarrow> Say a | None \<Rightarrow> (Inl UnknownException, []))
   | Feed e food \<Rightarrow> (case root e of Some a \<Rightarrow> Eat a food | None \<Rightarrow> (Inl UnknownException, [])))"

definition main_server_animals :: "(animal_exception cpp_exception + unit \<Rightarrow> unit ipc_res) \<Rightarrow> animal_call list \<Rightarrow> string list \<times> unit ipc_res list" where
  "main_server_animals serve calls =
    (let answers = fst (event_loop (\<lambda>c _. (handle_call c, ())) calls ()) in
     ([''[Server]: Process started'', ''[Server]: IPC processing started''] @ concat (map snd answers), map (serve \<circ> fst) answers))"


subsection \<open>The client\<close>

text \<open>The framework on both sides, and a call of a method through it.\<close>

type_synonym serve_fun = "animal_exception cpp_exception + unit \<Rightarrow> unit ipc_res"
type_synonym proxy_fun = "nk_err \<Rightarrow> unit ipc_res \<Rightarrow> animal_exception cpp_exception + unit"

definition remote :: "serve_fun \<Rightarrow> proxy_fun \<Rightarrow> handler_result \<Rightarrow> handler_result" where
  "remote serve proxy h = (case h of (r, out) \<Rightarrow> (proxy NK_EOK (serve r), out))"













subsection \<open>Lemmas\<close>

interpretation animal_converter: retcode_converter CatchException_animals ThrowException_animals
proof
  show "ThrowException_animals (CatchException_animals (Custom x)) = Some x" for x
    by (cases x) (simp_all add: ThrowException_animals_def code_AnimalNotSupported_def code_FoodNotSuitable_def)
  show "CatchException_animals e \<noteq> rcOk" for e
    by (cases e rule: CatchException_animals.cases)
      (simp_all add: code_AnimalNotSupported_def code_FoodNotSuitable_def)
  show "ThrowException_animals (CatchException_animals e) = None" if "\<And>x. e \<noteq> Custom x" for e
    using that
    by (cases e; force simp: ThrowException_animals_def code_AnimalNotSupported_def code_FoodNotSuitable_def)
qed

lemma handler_exceptions: "fst (Say a) = Inl e \<Longrightarrow> \<exists>x. e = Custom x" "fst (Eat a food) = Inl e \<Longrightarrow> \<exists>x. e = Custom x"
  by (auto simp: Say_def Eat_def Let_def split: option.splits if_splits)

lemma remote_id:
  assumes "kosipc_serve_ok CatchException_animals serve" "kosipc_proxy_ok ThrowException_animals proxy"
  shows "remote serve proxy (Say a) = Say a" "remote serve proxy (Eat a food) = Eat a food"
  using animal_converter.remote_call [OF assms] handler_exceptions
  by (simp_all add: remote_def split_beta)


lemma GetFoodStr_index:
  "GetFoodStr (foodIndex i) = (if i = 0 then ''fish'' else if i = 1 then ''meat'' else if i = 2 then ''milk''
    else if i = 3 then ''orange'' else if i = 4 then ''apple'' else if i = 5 then ''wood''
    else if i = 6 then ''stone'' else ''unknown something'')"
proof -
  have "unat i \<in> {0, 1, 2, 3, 4, 5, 6} \<or> 7 \<le> unat i" by auto
  then show ?thesis
    by (auto simp: GetFoodStr_def KnownFood_def word_unat_eq_iff)
qed



subsection \<open>Properties\<close>

text \<open>Through the converter and a framework that keeps its contract, the client's call of either
  method on any animal and food has exactly the outcome of the handler: it returns, or throws
  the same one of the two exceptions; in particular the two are never confused and none is lost.\<close>

lemma remote_call_transparent:
  assumes "kosipc_serve_ok CatchException_animals serve" "kosipc_proxy_ok ThrowException_animals proxy"
  shows "remote serve proxy (Say a) = Say a \<and> remote serve proxy (Eat a food) = Eat a food"
  using remote_id [OF assms] by simp

text \<open>The server answers every call to one of its endpoints in order, with success or with the code of one of the two
  exceptions, and logs the line of each call.\<close>

fun called_endpoint :: "animal_call \<Rightarrow> string" where
  "called_endpoint (SayTo e) = e"
| "called_endpoint (Feed e _) = e"

lemma main_server_animals_spec:
  assumes "kosipc_serve_ok CatchException_animals serve" "list_all (\<lambda>c. root (called_endpoint c) \<noteq> None) calls"
  shows "fst (main_server_animals serve calls) =
      [''[Server]: Process started'', ''[Server]: IPC processing started''] @ concat (map (\<lambda>c. snd (handle_call c)) calls) \<and>
    length (snd (main_server_animals serve calls)) = length calls \<and>
    list_all (\<lambda>res. err_status res \<in> {rcOk, code_AnimalNotSupported, code_FoodNotSuitable}) (snd (main_server_animals serve calls))"
proof -
  have "err_status (serve (fst (handle_call c))) \<in> {rcOk, code_AnimalNotSupported, code_FoodNotSuitable}"
    if "root (called_endpoint c) \<noteq> None" for c
    using that assms(1)
    by (cases c) (auto simp: handle_call_def kosipc_serve_ok_def Say_def Eat_def Let_def split: option.splits)
  then show ?thesis using assms(2)
    by (auto simp: main_server_animals_def event_loop_stateless list_all_iff o_def)
qed

text \<open>A cat eats fish and milk, a dog meat and milk, given by name or by index, and nothing else:
  any other food, an index outside the table included, is refused with \<open>FoodNotSuitable\<close>.  A CatDog
  eats and speaks as the animal it stands for; a Something eats everything and cannot speak.\<close>

theorem Eat_spec:
  "fst (Eat (Cat l n) food) = (if food \<in> {foodName ''fish'', foodName ''milk'', foodIndex 0, foodIndex 2}
      then Inr () else Inl (Custom FoodNotSuitable)) \<and>
   fst (Eat (Dog l n) food) = (if food \<in> {foodName ''meat'', foodName ''milk'', foodIndex 1, foodIndex 2}
      then Inr () else Inl (Custom FoodNotSuitable)) \<and>
   Eat (CatDog l n d) food = Eat (if d then Dog l n else Cat l n) food \<and>
   Say (CatDog l n d) = Say (if d then Dog l n else Cat l n) \<and>
   fst (Eat (Something l n) food) = Inr () \<and> fst (Say (Something l n)) = Inl (Custom AnimalNotSupported)"
proof (cases food)
  case (foodIndex i)
  then show ?thesis
    using GetFoodStr_index [of i]
    by (auto simp: Eat_def Say_def Cat_Eatable_def Dog_Eatable_def split: if_splits)
qed (simp_all add: Eat_def Say_def Cat_Eatable_def Dog_Eatable_def GetFoodStr_def)



end
