(* ===== verification/Sequence.thy ===== *)
theory Sequence
  imports Kosipc
begin

section \<open>The sequence writer and reader\<close>

text \<open>
  \<^verbatim>\<open>examples/sequence\<close>: a writer that sends longer and longer sequences to a reader, and the policy
  that denies the ones of more than seven elements.  The state of the system is the text the two
  processes wrote so far, line by line.
\<close>

subsection \<open>The code\<close>

type_synonym Seq = "u32 list"

definition MinSequenceLength :: u32 where "MinSequenceLength = 1"
definition MaxSequenceLength :: u32 where "MaxSequenceLength = 10"
definition MaxSecurityGrantedSequenceLength :: u32 where "MaxSecurityGrantedSequenceLength = 7"

definition show_u32 :: "u32 \<Rightarrow> string" where
  "show_u32 x = dec (unat x)"

text \<open>\<open>operator<<\<close>: \<open>std::ostream_iterator\<close> writes its delimiter after every element.\<close>

definition show_seq :: "Seq \<Rightarrow> string" where
  "show_seq seq =
    ''['' @
    (if seq \<noteq> [] then concat (map (\<lambda>x. show_u32 x @ '', '') (butlast seq)) @ show_u32 (last seq) else []) @
    '']''"

text \<open>\<open>std::iota\<close> over the elements of \<open>Seq(size)\<close>.\<close>

fun iota :: "Seq \<Rightarrow> u32 \<Rightarrow> Seq" where
  "iota [] value = []"
| "iota (_ # seq) value = value # iota seq (value + 1)"

definition MakeSeq :: "nat \<Rightarrow> u32 \<Rightarrow> Seq" where
  "MakeSeq n value = iota (replicate n 0) value"

text \<open>The reader.\<close>

definition LogSequence :: "Seq \<Rightarrow> string list" where
  "LogSequence result = [''[Reader]: Received sequence: '' @ show_seq result]"

text \<open>The rule of the policy for \<open>LogSequence\<close>: \<open>deny (size (message.result) > 7)\<close>.\<close>

definition log_denied :: "Seq \<Rightarrow> bool" where
  "log_denied seq \<longleftrightarrow> length seq > 7"

text \<open>A call of the proxy: a denied call reaches no reader.  \<open>proxy\<close> is the framework of the client.\<close>

definition log_call :: "(nk_err \<Rightarrow> unit ipc_res \<Rightarrow> unit cpp_exception + unit) \<Rightarrow> Seq \<Rightarrow>
    (unit cpp_exception + unit) \<times> string list" where
  "log_call proxy seq =
    (if log_denied seq then (proxy NK_EPERM \<lparr>res_value = (), err_status = rcOk\<rparr>, [])
     else (proxy NK_EOK \<lparr>res_value = (), err_status = rcOk\<rparr>, LogSequence seq))"

text \<open>\<open>TryLogSequence\<close> over the call; \<open>what\<close> is the text of the exception.  An exception not derived
  from \<open>std::exception\<close> leaves it (\<open>Inl\<close>).\<close>

fun what :: "unit cpp_exception \<Rightarrow> string option" where
  "what (RuntimeError m) = Some m"
| "what (StdException m) = Some m"
| "what (Custom x) = Some ''''"
| "what UnknownException = None"

definition TryLogSequence :: "(Seq \<Rightarrow> (unit cpp_exception + unit) \<times> string list) \<Rightarrow> Seq \<Rightarrow>
    (unit cpp_exception + unit) \<times> string list" where
  "TryLogSequence call seq =
    (let big = length seq > unat MaxSecurityGrantedSequenceLength
     in case call seq of
       (Inr _, out) \<Rightarrow>
         (Inr (), out @ (if big then [''[Writer]: Error: something goes wrong!''] else []))
     | (Inl e, out) \<Rightarrow> (case what e of
         None \<Rightarrow> (Inl e, out)
       | Some m \<Rightarrow>
           (Inr (), out @
             [if big then ''[Writer]: Expected behavior: can`t send message to Reader entity!''
              else '' [Writer]: '' @ m])))"

text \<open>The endless loop of \<open>Example\<close>, cut after the given number of rounds.\<close>

fun Example_loop :: "(Seq \<Rightarrow> (unit cpp_exception + unit) \<times> string list) \<Rightarrow> nat \<Rightarrow> u32 \<Rightarrow>
    (unit cpp_exception + unit) \<times> string list" where
  "Example_loop call 0 i = (Inr (), [])"
| "Example_loop call (Suc n) i =
    (case TryLogSequence call (MakeSeq (unat i) 1) of
       (Inl e, out) \<Rightarrow> (Inl e, out)
     | (Inr _, out) \<Rightarrow>
         (case Example_loop call n (if i \<noteq> MaxSequenceLength then i + 1 else MinSequenceLength) of
            (r, out') \<Rightarrow> (r, out @ out')))"

definition Example :: "(Seq \<Rightarrow> (unit cpp_exception + unit) \<times> string list) \<Rightarrow> nat \<Rightarrow>
    (unit cpp_exception + unit) \<times> string list" where
  "Example call n = Example_loop call n MinSequenceLength"


text \<open>The programs: the reader dispatches the sequences that reach it; the writer asserts that nothing leaves \<open>Example\<close>.  The first
  component of the writer's result is whether the assertion holds.\<close>

definition main_reader :: "Seq list \<Rightarrow> string list" where
  "main_reader requests = ''[Reader]: Hello from Reader program!'' # concat (fst (event_loop (\<lambda>seq _. (LogSequence seq, ())) requests ()))"

definition main_writer :: "(Seq \<Rightarrow> (unit cpp_exception + unit) \<times> string list) \<Rightarrow> nat \<Rightarrow> bool \<times> string list" where
  "main_writer call n = (case Example call n of (r, out) \<Rightarrow>
     (case r of Inl _ \<Rightarrow> False | Inr _ \<Rightarrow> True, ''[Writer]: Hello from Writer program!'' # out))"


subsection \<open>Lemmas\<close>

text \<open>The line of round \<open>k\<close>, counted from 0.\<close>

definition round_line :: "nat \<Rightarrow> string" where
  "round_line k =
    (if k mod 10 < 7
     then ''[Reader]: Received sequence: ['' @ join '', '' (map dec [1..<k mod 10 + 2]) @ '']''
     else ''[Writer]: Expected behavior: can`t send message to Reader entity!'')"

lemma show_seq_join: "show_seq seq = ''['' @ join '', '' (map show_u32 seq) @ '']''"
  using join_trailing [of "map show_u32 seq" "'', ''"]
  by (simp add: show_seq_def map_butlast [symmetric] last_map o_def)

lemma iota_upt: "iota (replicate n 0) v = map (\<lambda>i. v + of_nat i) [0..<n]"
proof (induction n arbitrary: v)
  case (Suc n)
  show ?case by (simp add: Suc map_upt_Suc add.assoc del: upt_Suc)
qed simp

lemma MakeSeq_one: "n < 2 ^ 32 \<Longrightarrow> map show_u32 (MakeSeq n 1) = map dec [1..<Suc n]"
proof -
  assume n: "n < 2 ^ 32"
  have "map show_u32 (MakeSeq n 1) = map (\<lambda>i. dec (Suc i)) [0..<n]"
    using n by (auto simp: MakeSeq_def iota_upt show_u32_def unat_of_nat simp flip: of_nat_Suc)
  also have "\<dots> = map dec [1..<Suc n]"
    by (simp add: map_Suc_upt [symmetric] del: upt_Suc)
  finally show ?thesis .
qed

lemma length_MakeSeq [simp]: "length (MakeSeq n v) = n"
  by (simp add: MakeSeq_def iota_upt)


lemma TryLogSequence_line:
  assumes "kosipc_proxy_ok throw proxy" "i = (of_nat (k mod 10 + 1) :: u32)"
  shows "TryLogSequence (log_call proxy) (MakeSeq (unat i) 1) = (Inr (), [round_line k])"
proof -
  have "k mod 10 < 10" by simp
  then have i: "unat i = k mod 10 + 1" using assms(2) by (simp add: unat_of_nat del: of_nat_Suc of_nat_add)
  obtain m where m: "proxy NK_EPERM \<lparr>res_value = (), err_status = rcOk\<rparr> = Inl (RuntimeError m)"
    using assms(1) unfolding kosipc_proxy_ok_def by blast
  have ok: "proxy NK_EOK \<lparr>res_value = (), err_status = rcOk\<rparr> = Inr ()"
    using assms(1) by (simp add: kosipc_proxy_ok_def)
  have "map show_u32 (MakeSeq (Suc (k mod 10)) 1) = map dec [1..<k mod 10 + 2]"
    using \<open>k mod 10 < 10\<close> by (simp add: MakeSeq_one del: upt_Suc)
  then show ?thesis
    using m ok i by (auto simp: TryLogSequence_def log_call_def log_denied_def LogSequence_def round_line_def
      MaxSecurityGrantedSequenceLength_def show_seq_join del: upt_Suc)
qed

lemma Example_loop_lines:
  assumes "kosipc_proxy_ok throw proxy"
  shows "Example_loop (log_call proxy) n (of_nat (k mod 10 + 1)) = (Inr (), map round_line [k..<k + n])"
proof (induction n arbitrary: k)
  case (Suc n)
  have step: "(if of_nat (k mod 10 + 1) \<noteq> MaxSequenceLength then of_nat (k mod 10 + 1) + 1 else MinSequenceLength)
      = (of_nat (Suc k mod 10 + 1) :: u32)"
  proof -
    have "k mod 10 \<in> {0..<10}" by simp
    then show ?thesis
      by (auto simp: MaxSequenceLength_def MinSequenceLength_def mod_Suc atLeastLessThan_nat_numeral
        elim!: less_SucE)
  qed
  show ?case
    unfolding Example_loop.simps step TryLogSequence_line [OF assms refl] Suc [of "Suc k"]
    by (simp add: upt_conv_Cons del: upt_Suc)
qed simp

text \<open>A client framework that keeps its contract.\<close>

lemma demo_log_proxy: "kosipc_proxy_ok (\<lambda>_. None) (\<lambda>e res. if e = NK_EOK then Inr () else Inl (RuntimeError ''denied''))"
  by (simp add: kosipc_proxy_ok_def)


subsection \<open>Properties\<close>

text \<open>The text of a sequence is its elements in decimal, separated by a comma and a space, in
  brackets, for the empty sequence too.\<close>

lemma show_seq_spec: "show_seq seq = ''['' @ join '', '' (map (\<lambda>x. dec (unat x)) seq) @ '']''"
  using show_seq_join [of seq] by (simp add: show_u32_def [abs_def])

text \<open>The assertion of the writer holds, and the lines of the two programs together are those of the reader on the sequences the
  policy grants, and the denials.\<close>

lemma main_writer_spec:
  assumes "kosipc_proxy_ok throw proxy"
  shows "main_writer (log_call proxy) n = (True, ''[Writer]: Hello from Writer program!'' # map round_line [0..<n])"
  using Example_loop_lines [OF assms, of n 0] by (simp add: main_writer_def Example_def MinSequenceLength_def)

lemma main_reader_spec:
  "main_reader (filter (\<lambda>seq. \<not> log_denied seq) (map (\<lambda>k. MakeSeq (k mod 10 + 1) 1) [0..<n])) =
     ''[Reader]: Hello from Reader program!'' # map round_line (filter (\<lambda>k. k mod 10 < 7) [0..<n])"
proof -
  have line: "LogSequence (MakeSeq (Suc (k mod 10)) 1) = [round_line k]" if "k mod 10 < 7" for k
  proof -
    have "k mod 10 < 10" by simp
    then have "map show_u32 (MakeSeq (Suc (k mod 10)) 1) = map dec [1..<k mod 10 + 2]" by (simp add: MakeSeq_one del: upt_Suc)
    then show ?thesis using that by (simp add: LogSequence_def round_line_def show_seq_join del: upt_Suc)
  qed
  have "concat (map LogSequence (filter (\<lambda>seq. \<not> log_denied seq) (map (\<lambda>k. MakeSeq (k mod 10 + 1) 1) ks))) =
      map round_line (filter (\<lambda>k. k mod 10 < 7) ks)" for ks
    by (induction ks) (auto simp: log_denied_def line)
  then show ?thesis by (simp add: main_reader_def event_loop_stateless)
qed

text \<open>C37: Whatever the number of rounds, the writer ends no round with an exception, and round \<open>k\<close>
  leaves exactly one line: the reader's text of the sequence from 1 to \<open>k mod 10 + 1\<close> as long as the
  policy grants it, and the expected denial for the lengths 8, 9 and 10; nothing goes wrong.\<close>

theorem Example_output:
  assumes "kosipc_proxy_ok throw proxy"
  shows "Example (log_call proxy) n = (Inr (), map round_line [0..<n])"
  using Example_loop_lines [OF assms, of n 0] by (simp add: Example_def MinSequenceLength_def)

theorem Example_output_witness:
  "Example (log_call (\<lambda>e res. if e = NK_EOK then Inr () else Inl (RuntimeError ''denied''))) 3 =
    (Inr (), [''[Reader]: Received sequence: [1]'', ''[Reader]: Received sequence: [1, 2]'',
      ''[Reader]: Received sequence: [1, 2, 3]''])"
  unfolding Example_output [OF demo_log_proxy] by code_simp

end
