(* ===== verification/Web_Server.thy ===== *)
theory Web_Server
  imports Effects Kosipc
begin

section \<open>The web server: handlers and routing\<close>

text \<open>
  \<^verbatim>\<open>examples/jwt/web_server/src\<close>: \<open>httpurihandler.cpp\<close>, \<open>allrequesthandler.cpp\<close>, \<open>gettokenhandler.cpp\<close>,
  \<open>getdatahandler.cpp\<close>, and the routing part of \<open>webserver.cpp\<close> and \<open>main.cpp\<close>.  The file system and the
  proxy of the token service are parameters.  Of the header fields of a response the constant
  \<open>Server\<close> is left out; the log output of \<open>log.cpp\<close> is not modelled.
\<close>

subsection \<open>Requests, responses, services\<close>

datatype verb = verb_get | verb_head | verb_post | verb_put | verb_delete | verb_other nat

datatype http_status = status_ok | bad_request | not_found | method_not_allowed
  | internal_server_error

record HttpRequest =
  "method" :: verb
  target :: string
  version :: nat
  req_keep_alive :: bool

record HttpResponse =
  status :: http_status
  res_version :: nat
  content_type :: string
  res_keep_alive :: bool
  body :: string
  content_length :: nat

datatype open_result = FileBody string | NoSuchFile | OpenError string

datatype web_event =
    FileOpened string open_result
  | TokenGenerated "unit cpp_exception + string"
  | TokenVerified string "unit cpp_exception + bool"

record 'w web_api =
  file_open :: "string \<Rightarrow> 'w \<Rightarrow> open_result \<times> 'w"
  proxy_Generate :: "'w \<Rightarrow> (unit cpp_exception + string) \<times> 'w"
  proxy_Verify :: "string \<Rightarrow> 'w \<Rightarrow> (unit cpp_exception + bool) \<times> 'w"

text \<open>A handler returns \<^term>\<open>None\<close> for \<open>std::nullopt\<close>; \<open>Inl\<close> is an exception that leaves it.\<close>

type_synonym ('w, 'a) web_io = "('w, web_event, unit cpp_exception + 'a) io"
type_synonym 'w HandleRequestCallback = "HttpRequest \<Rightarrow> ('w, HttpResponse option) web_io"


subsection \<open>URI handlers\<close>

definition MakeErrorResponse :: "HttpRequest \<Rightarrow> http_status \<Rightarrow> string \<Rightarrow> HttpResponse" where
  "MakeErrorResponse req errCode why =
    \<lparr>status = errCode, res_version = version req, content_type = ''text/html'',
     res_keep_alive = req_keep_alive req, body = why, content_length = length why\<rparr>"

record 'w HttpUriHandler =
  m_docRoot :: string
  m_httpMethods :: "verb \<rightharpoonup> 'w HandleRequestCallback"

definition HttpUriHandler_ctor :: "string \<Rightarrow> 'w HttpUriHandler" where
  "HttpUriHandler_ctor docRoot = \<lparr>m_docRoot = docRoot, m_httpMethods = Map.empty\<rparr>"

definition HandleRequest_uri :: "'w HttpUriHandler \<Rightarrow> 'w HandleRequestCallback" where
  "HandleRequest_uri h req = (case m_httpMethods h (method req) of
     Some handler \<Rightarrow> handler req
   | None \<Rightarrow> io_return (Inr None))"

definition SetMethodHandler ::
  "verb \<Rightarrow> 'w HandleRequestCallback \<Rightarrow> 'w HttpUriHandler \<Rightarrow> 'w HttpUriHandler" where
  "SetMethodHandler verb handler h = h\<lparr>m_httpMethods := (m_httpMethods h)(verb \<mapsto> handler)\<rparr>"

definition GetDocRoot :: "'w HttpUriHandler \<Rightarrow> string" where
  "GetDocRoot h = m_docRoot h"


subsection \<open>Files\<close>

text \<open>\<open>beast::iequals\<close>: equal up to the case of the ASCII letters.\<close>

definition to_lower :: "char \<Rightarrow> char" where
  "to_lower c = (let n = of_char c :: nat in if 65 \<le> n \<and> n \<le> 90 then char_of (n + 32) else c)"

definition iequals :: "string \<Rightarrow> string \<Rightarrow> bool" where
  "iequals a b \<longleftrightarrow> map to_lower a = map to_lower b"

text \<open>The part of the path from the last dot on, empty if there is none.\<close>

definition path_ext :: "string \<Rightarrow> string" where
  "path_ext path =
    (if CHR ''.'' \<in> set path then CHR ''.'' # rev (takeWhile (\<lambda>c. c \<noteq> CHR ''.'') (rev path)) else [])"

definition GetMimeType :: "string \<Rightarrow> string" where
  "GetMimeType path = (let ext = path_ext path in
     if iequals ext ''.htm'' then ''text/html''
     else if iequals ext ''.html'' then ''text/html''
     else if iequals ext ''.php'' then ''text/html''
     else if iequals ext ''.css'' then ''text/css''
     else if iequals ext ''.txt'' then ''text/plain''
     else if iequals ext ''.png'' then ''image/png''
     else if iequals ext ''.jpe'' then ''image/jpeg''
     else if iequals ext ''.jpeg'' then ''image/jpeg''
     else if iequals ext ''.jpg'' then ''image/jpeg''
     else if iequals ext ''.ico'' then ''image/vnd.microsoft.icon''
     else if iequals ext ''.svg'' then ''image/svg+xml''
     else if iequals ext ''.svgz'' then ''image/svg+xml''
     else ''application/text'')"

definition ConcatPath :: "string \<Rightarrow> string \<Rightarrow> string" where
  "ConcatPath base path =
    (if base = [] then path
     else (let result = (if last base = CHR ''/'' then butlast base else base) in result @ path))"

text \<open>\<open>path.back()\<close> is only evaluated for a path that is not empty: the server refuses an empty
  target before.\<close>

definition HandleGet_all :: "'w web_api \<Rightarrow> string \<Rightarrow> 'w HandleRequestCallback" where
  "HandleGet_all api docRoot req =
    (if method req \<noteq> verb_get then io_return (Inr None)
     else do {
       let uri = target req;
       let path = ConcatPath docRoot uri;
       let path = (if path \<noteq> [] \<and> last path = CHR ''/'' then path @ ''index.html'' else path);
       r \<leftarrow> call (FileOpened path) (file_open api path);
       (case r of
          NoSuchFile \<Rightarrow> io_return (Inr (Some (MakeErrorResponse req not_found
            (''The resource '' @ [CHR 0x27] @ target req @ [CHR 0x27] @ '' was not found.''))))
        | OpenError m \<Rightarrow> io_return (Inr (Some (MakeErrorResponse req internal_server_error m)))
        | FileBody content \<Rightarrow> io_return (Inr (Some
            \<lparr>status = status_ok, res_version = version req, content_type = GetMimeType path,
             res_keep_alive = req_keep_alive req, body = content,
             content_length = length content\<rparr>))) })"

definition AllRequestHandler :: "'w web_api \<Rightarrow> string \<Rightarrow> 'w HttpUriHandler" where
  "AllRequestHandler api docRoot =
    SetMethodHandler verb_get (HandleGet_all api docRoot) (HttpUriHandler_ctor docRoot)"


subsection \<open>Tokens\<close>

definition text_response :: "HttpRequest \<Rightarrow> string \<Rightarrow> HttpResponse" where
  "text_response req content =
    \<lparr>status = status_ok, res_version = version req, content_type = ''text/plain'',
     res_keep_alive = req_keep_alive req, body = content, content_length = length content\<rparr>"

definition HandleGet_token :: "'w web_api \<Rightarrow> 'w HandleRequestCallback" where
  "HandleGet_token api req =
    (if method req \<noteq> verb_get then io_return (Inr None)
     else do {
       r \<leftarrow> call TokenGenerated (proxy_Generate api);
       (case r of Inl e \<Rightarrow> io_return (Inl e)
        | Inr token \<Rightarrow> io_return (Inr (Some (text_response req token)))) })"

definition GetTokenHandler :: "'w web_api \<Rightarrow> string \<Rightarrow> 'w HttpUriHandler" where
  "GetTokenHandler api docRoot =
    SetMethodHandler verb_get (HandleGet_token api) (HttpUriHandler_ctor docRoot)"

text \<open>\<open>while (std::getline(ss, key, '=') && std::getline(ss, val, '&'))\<close>\<close>

function GetParamValue_loop :: "stream_state \<Rightarrow> string \<Rightarrow> string" where
  "GetParamValue_loop ss name =
    (case getline (CHR ''='') ss of None \<Rightarrow> []
     | Some (key, ss') \<Rightarrow> (case getline (CHR ''&'') ss' of None \<Rightarrow> []
        | Some (val, ss'') \<Rightarrow> if key = name then val else GetParamValue_loop ss'' name))"
  by pat_completeness auto
termination
  by (relation "measure (left \<circ> fst)") (auto dest!: getline_left)

definition GetParamValue :: "string \<Rightarrow> string \<Rightarrow> string" where
  "GetParamValue uri name =
    (case getline (CHR ''?'') (Some uri) of None \<Rightarrow> GetParamValue_loop None name
     | Some (key, ss) \<Rightarrow> GetParamValue_loop ss name)"

definition HandleGet_data :: "'w web_api \<Rightarrow> 'w HandleRequestCallback" where
  "HandleGet_data api req =
    (if method req \<noteq> verb_get then io_return (Inr None)
     else do {
       let token = GetParamValue (target req) ''jwt'';
       r \<leftarrow> call (TokenVerified token) (proxy_Verify api token);
       (case r of Inl e \<Rightarrow> io_return (Inl e)
        | Inr ok \<Rightarrow> io_return (Inr (Some (text_response req
            (if ok then ''<div class=\"success\">Data access succeeded</div>''
             else ''<div class=\"error\">Wrong token or token service unavailable</div>''))))) })"

definition GetDataHandler :: "'w web_api \<Rightarrow> string \<Rightarrow> 'w HttpUriHandler" where
  "GetDataHandler api docRoot =
    SetMethodHandler verb_get (HandleGet_data api) (HttpUriHandler_ctor docRoot)"


subsection \<open>The server\<close>

record 'w WebServer =
  m_uriHandlers :: "string \<rightharpoonup> 'w HttpUriHandler"
  m_defaultHandler :: "'w HttpUriHandler option"

definition WebServer_ctor :: "'w WebServer" where
  "WebServer_ctor = \<lparr>m_uriHandlers = Map.empty, m_defaultHandler = None\<rparr>"

definition SetHandler :: "string \<Rightarrow> 'w HttpUriHandler \<Rightarrow> 'w WebServer \<Rightarrow> 'w WebServer" where
  "SetHandler uri handler s =
    (if uri \<noteq> [] then s\<lparr>m_uriHandlers := (m_uriHandlers s)(uri \<mapsto> handler)\<rparr>
     else s\<lparr>m_defaultHandler := Some handler\<rparr>)"

definition RemoveHandler :: "string \<Rightarrow> 'w WebServer \<Rightarrow> 'w WebServer" where
  "RemoveHandler uri s =
    (if uri \<noteq> [] then s\<lparr>m_uriHandlers := (m_uriHandlers s)(uri := None)\<rparr>
     else s\<lparr>m_defaultHandler := None\<rparr>)"

text \<open>\<open>find("..") != npos\<close>\<close>

fun has_dotdot :: "string \<Rightarrow> bool" where
  "has_dotdot (a # b # s) = (a = CHR ''.'' \<and> b = CHR ''.'' \<or> has_dotdot (b # s))"
| "has_dotdot _ = False"

definition illegal_target :: "string \<Rightarrow> bool" where
  "illegal_target t \<longleftrightarrow> t = [] \<or> t ! 0 \<noteq> CHR ''/'' \<or> has_dotdot t"

definition uri_of :: "string \<Rightarrow> string" where
  "uri_of t = takeWhile (\<lambda>c. c \<noteq> CHR ''?'') t"

definition HandleRequest :: "'w WebServer \<Rightarrow> HttpRequest \<Rightarrow> ('w, HttpResponse) web_io" where
  "HandleRequest s req =
    (let unknown = MakeErrorResponse req method_not_allowed ''Unknown HTTP-method'';
         finish = (\<lambda>h. do {
           r \<leftarrow> HandleRequest_uri h req;
           (case r of Inl e \<Rightarrow> io_return (Inl e)
            | Inr (Some res) \<Rightarrow> io_return (Inr res)
            | Inr None \<Rightarrow> io_return (Inr unknown)) })
     in if illegal_target (target req)
        then io_return (Inr (MakeErrorResponse req bad_request ''Illegal request-target''))
        else (case m_uriHandlers s (uri_of (target req)) of
          Some handler \<Rightarrow> finish handler
        | None \<Rightarrow> (case m_defaultHandler s of
            Some handler \<Rightarrow> finish handler
          | None \<Rightarrow> io_return (Inr unknown))))"

definition DocumentRoot :: string where "DocumentRoot = ''/www''"

text \<open>The server as \<open>main\<close> sets it up.\<close>

definition main_server :: "'w web_api \<Rightarrow> 'w WebServer" where
  "main_server api =
    SetHandler ''/getdata'' (GetDataHandler api DocumentRoot)
      (SetHandler ''/gettoken'' (GetTokenHandler api DocumentRoot)
        (SetHandler '''' (AllRequestHandler api DocumentRoot) WebServer_ctor))"


subsection \<open>Vocabulary of the contracts\<close>

text \<open>What the server does with a handler it found.\<close>

definition answer :: "'w HttpUriHandler \<Rightarrow> HttpRequest \<Rightarrow> ('w, HttpResponse) web_io" where
  "answer h req = do {
     r \<leftarrow> HandleRequest_uri h req;
     (case r of Inl e \<Rightarrow> io_return (Inl e)
      | Inr (Some res) \<Rightarrow> io_return (Inr res)
      | Inr None \<Rightarrow> io_return (Inr (MakeErrorResponse req method_not_allowed ''Unknown HTTP-method''))) }"

text \<open>The table of a server as one map; \<open>""\<close> stands for the default handler, as in the interface.\<close>

definition binding :: "'w WebServer \<Rightarrow> string \<Rightarrow> 'w HttpUriHandler option" where
  "binding s uri = (if uri = [] then m_defaultHandler s else m_uriHandlers s uri)"

definition reply_to :: "HttpRequest \<Rightarrow> HttpResponse \<Rightarrow> bool" where
  "reply_to req res \<longleftrightarrow> res_version res = version req \<and> res_keep_alive res = req_keep_alive req \<and>
     content_length res = length (body res)"

text \<open>The components of a path, and where they lead from the root directory.\<close>

fun segments :: "string \<Rightarrow> string list" where
  "segments [] = [[]]"
| "segments (c # s) = (if c = CHR ''/'' then [] # segments s
     else (case segments s of x # xs \<Rightarrow> (c # x) # xs | [] \<Rightarrow> [[c]]))"

definition enter :: "string \<Rightarrow> string list \<Rightarrow> string list" where
  "enter seg st = (if seg = [] \<or> seg = ''.'' then st else if seg = ''..'' then butlast st else st @ [seg])"

definition resolve_path :: "string \<Rightarrow> string list" where
  "resolve_path p = fold enter (segments p) []"

text \<open>The file a request is for, and traces that open no other one.\<close>

definition file_path :: "HttpRequest \<Rightarrow> string" where
  "file_path req = ''/www'' @ target req @ (if last (target req) = CHR ''/'' then ''index.html'' else [])"

definition opens_only :: "string \<Rightarrow> web_event list \<Rightarrow> bool" where
  "opens_only q es \<longleftrightarrow> (\<forall>p f. FileOpened p f \<in> set es \<longrightarrow> p = q)"

text \<open>A query string, and the media types by lower-case extension.\<close>

definition query :: "(string \<times> string) list \<Rightarrow> string" where
  "query kvs = join ''&'' (map (\<lambda>(k, v). k @ ''='' @ v) kvs)"

definition mime_table :: "(string \<times> string) list" where
  "mime_table = [(''htm'', ''text/html''), (''html'', ''text/html''), (''php'', ''text/html''),
     (''css'', ''text/css''), (''txt'', ''text/plain''), (''png'', ''image/png''),
     (''jpe'', ''image/jpeg''), (''jpeg'', ''image/jpeg''), (''jpg'', ''image/jpeg''),
     (''ico'', ''image/vnd.microsoft.icon''), (''svg'', ''image/svg+xml''), (''svgz'', ''image/svg+xml'')]"

text \<open>Services for concrete runs: one file, and a token service that knows one token.\<close>

definition demo_web :: "unit web_api" where
  "demo_web = \<lparr>file_open = (\<lambda>p w. (if p = ''/www/index.html'' then FileBody ''<html>'' else NoSuchFile, w)),
     proxy_Generate = (\<lambda>w. (Inr ''a.b.c'', w)), proxy_Verify = (\<lambda>t w. (Inr (t = ''a.b.c''), w))\<rparr>"


subsection \<open>Handlers\<close>

text \<open>The contract of the handlers of this server: nothing but GET is handled, and every GET that does
  not end with an exception gets a response in the version and connection mode of the request.\<close>

locale get_handler =
  fixes h :: "'w HttpUriHandler"
  assumes only_get: "method req \<noteq> verb_get \<Longrightarrow> HandleRequest_uri h req = io_return (Inr None)"
    and answers: "method req = verb_get \<Longrightarrow> io_post (HandleRequest_uri h req)
      (\<lambda>r es. \<forall>x. r = Inr x \<longrightarrow> (\<exists>res. x = Some res \<and> reply_to req res \<and> status res \<notin> {bad_request, method_not_allowed}))"
begin

lemma answer_other:
  "method req \<noteq> verb_get \<Longrightarrow>
    answer h req = io_return (Inr (MakeErrorResponse req method_not_allowed ''Unknown HTTP-method''))"
  by (simp add: answer_def only_get)

lemma answer_post:
  "io_post (answer h req) (\<lambda>r es. \<forall>res. r = Inr res \<longrightarrow> reply_to req res \<and> status res \<noteq> bad_request \<and>
     (status res = method_not_allowed \<longleftrightarrow> method req \<noteq> verb_get))"
proof (cases "method req = verb_get")
  case True
  show ?thesis unfolding answer_def
    by (rule io_post_bind [OF answers [OF True]]) (use True in \<open>auto intro!: io_rules split: sum.splits\<close>)
next
  case False
  then show ?thesis
    by (simp add: answer_other) (auto intro!: io_rules simp: reply_to_def MakeErrorResponse_def)
qed

end

lemmas handler_defs = HandleRequest_uri_def SetMethodHandler_def HttpUriHandler_ctor_def

interpretation all_handler: get_handler "AllRequestHandler api docRoot" for api docRoot
  by unfold_locales (auto simp: handler_defs AllRequestHandler_def HandleGet_all_def reply_to_def
      MakeErrorResponse_def Let_def intro!: io_rules split: open_result.splits)

interpretation token_handler: get_handler "GetTokenHandler api docRoot" for api docRoot
  by unfold_locales (auto simp: handler_defs GetTokenHandler_def HandleGet_token_def reply_to_def
      text_response_def intro!: io_rules split: sum.splits)

interpretation data_handler: get_handler "GetDataHandler api docRoot" for api docRoot
  by unfold_locales (auto simp: handler_defs GetDataHandler_def HandleGet_data_def reply_to_def
      text_response_def Let_def intro!: io_rules split: sum.splits)


subsection \<open>The table of handlers\<close>

locale registry =
  fixes set_entry :: "'k \<Rightarrow> 'v \<Rightarrow> 's \<Rightarrow> 's" and remove_entry :: "'k \<Rightarrow> 's \<Rightarrow> 's"
    and lookup :: "'s \<Rightarrow> 'k \<Rightarrow> 'v option"
  assumes lookup_set: "lookup (set_entry k v s) = (lookup s)(k \<mapsto> v)"
    and lookup_remove: "lookup (remove_entry k s) = (lookup s)(k := None)"
begin

lemma set_commute:
  "k \<noteq> l \<Longrightarrow> lookup (set_entry k v (set_entry l u s)) = lookup (set_entry l u (set_entry k v s))"
  by (simp add: lookup_set fun_upd_twist)

lemma remove_set: "lookup (remove_entry k (set_entry k v s)) = lookup (remove_entry k s)"
  by (simp add: lookup_set lookup_remove)

lemma set_remove: "lookup (set_entry k v (remove_entry k s)) = lookup (set_entry k v s)"
  by (simp add: lookup_set lookup_remove)

lemma other_entries: "k \<noteq> l \<Longrightarrow> lookup (set_entry k v s) l = lookup s l"
  "k \<noteq> l \<Longrightarrow> lookup (remove_entry k s) l = lookup s l"
  by (simp_all add: lookup_set lookup_remove)

end

interpretation handlers: registry SetHandler RemoveHandler binding
  by unfold_locales (auto simp: SetHandler_def RemoveHandler_def binding_def fun_eq_iff)

lemma uri_of_legal: "\<not> illegal_target t \<Longrightarrow> uri_of t \<noteq> []"
  by (cases t) (auto simp: illegal_target_def uri_of_def)

text \<open>The server only depends on its table.\<close>

lemma HandleRequest_binding:
  "HandleRequest s req =
    (if illegal_target (target req)
     then io_return (Inr (MakeErrorResponse req bad_request ''Illegal request-target''))
     else (case binding s (uri_of (target req)) of
       Some h \<Rightarrow> answer h req
     | None \<Rightarrow> (case binding s [] of Some h \<Rightarrow> answer h req
        | None \<Rightarrow> io_return (Inr (MakeErrorResponse req method_not_allowed ''Unknown HTTP-method'')))))"
  using uri_of_legal [of "target req"]
  by (auto simp: HandleRequest_def binding_def answer_def Let_def split: option.splits)

lemma main_server_binding:
  "binding (main_server api) = [[] \<mapsto> AllRequestHandler api DocumentRoot,
     ''/gettoken'' \<mapsto> GetTokenHandler api DocumentRoot, ''/getdata'' \<mapsto> GetDataHandler api DocumentRoot]"
  by (simp add: main_server_def handlers.lookup_set) (simp add: binding_def WebServer_ctor_def fun_eq_iff)

lemma answer_get:
  assumes "method req = verb_get"
  shows "answer (AllRequestHandler api d) req = State_Monad.bind (HandleGet_all api d req)
      (\<lambda>r. io_return (map_sum id the r))"
    "answer (GetTokenHandler api d) req = State_Monad.bind (HandleGet_token api req)
      (\<lambda>r. io_return (map_sum id the r))"
    "answer (GetDataHandler api d) req = State_Monad.bind (HandleGet_data api req)
      (\<lambda>r. io_return (map_sum id the r))"
  using assms
  by (auto simp: answer_def handler_defs AllRequestHandler_def GetTokenHandler_def GetDataHandler_def
      HandleGet_all_def HandleGet_token_def HandleGet_data_def Let_def intro!: state_ext
      split: open_result.splits sum.splits prod.splits)


subsection \<open>Paths\<close>

lemma segments_Cons: "\<exists>x xs. segments s = x # xs"
  by (cases s) (auto split: list.splits)

lemma hd_segments: "segments s = (c # x) # xs \<Longrightarrow> \<exists>s'. s = c # s'"
  by (cases s) (auto split: if_splits list.splits)

lemma has_dotdot_Cons: "has_dotdot s \<Longrightarrow> has_dotdot (c # s)"
  by (cases s) auto

lemma segments_dotdot: "''..'' \<in> set (segments s) \<Longrightarrow> has_dotdot s"
proof (induction s)
  case (Cons c s)
  obtain x xs where s: "segments s = x # xs" using segments_Cons by blast
  show ?case
  proof (cases "c = CHR ''/''")
    case False
    with Cons.prems s have "c = CHR ''.'' \<and> x = ''.'' \<or> ''..'' \<in> set (segments s)" by auto
    then show ?thesis
    proof
      assume "c = CHR ''.'' \<and> x = ''.''"
      then show ?thesis using s hd_segments [of s "CHR ''.''" "[]" xs] by auto
    qed (use Cons.IH has_dotdot_Cons in blast)
  qed (use Cons has_dotdot_Cons in auto)
qed simp

lemma fold_no_dotdot: "''..'' \<notin> set segs \<Longrightarrow> \<exists>rest. fold enter segs st = st @ rest"
proof (induction segs arbitrary: st)
  case (Cons a segs)
  have "a \<noteq> ''..''" using Cons.prems by auto
  then have "enter a st \<in> {st @ [], st @ [a]}" by (simp add: enter_def)
  then obtain u where "enter a st = st @ u" by blast
  then show ?case using Cons.IH [of "enter a st"] Cons.prems by auto
qed simp

lemma resolve_www:
  assumes "\<not> has_dotdot t" "t = CHR ''/'' # t'"
  shows "\<exists>rest. resolve_path (''/www'' @ t) = ''www'' # rest"
proof -
  have "''..'' \<notin> set (segments t')"
    using assms segments_dotdot [of t'] has_dotdot_Cons by blast
  from fold_no_dotdot [OF this, of "[''www'']"] show ?thesis using assms(2)
    by (auto simp: resolve_path_def enter_def)
qed

lemma has_dotdot_append: "has_dotdot (s @ t) \<Longrightarrow> s \<noteq> [] \<Longrightarrow> last s \<noteq> CHR ''.'' \<Longrightarrow> has_dotdot s \<or> has_dotdot t"
proof (induction s rule: has_dotdot.induct, goal_cases)
  case (3 c)
  then show ?case by (cases t) auto
qed auto


subsection \<open>Query strings\<close>

lemma query_Cons: "query ((k, v) # kvs) = k @ ''='' @ v @ (if kvs = [] then [] else ''&'' @ query kvs)"
  by (cases kvs) (auto simp: query_def)

declare GetParamValue_loop.simps [simp del]

lemma GetParamValue_loop_query:
  assumes "\<forall>(k, v) \<in> set kvs. CHR ''='' \<notin> set k \<and> CHR ''&'' \<notin> set v"
  shows "GetParamValue_loop (Some (query kvs)) name = (case map_of kvs name of Some v \<Rightarrow> v | None \<Rightarrow> [])"
  using assms
proof (induction kvs)
  case Nil
  show ?case by (simp add: query_def GetParamValue_loop.simps)
next
  case (Cons kv kvs)
  obtain k v where kv: "kv = (k, v)" by fastforce
  have free: "CHR ''='' \<notin> set k" "CHR ''&'' \<notin> set v" using Cons.prems kv by auto
  have end_none: "GetParamValue_loop None name = []" by (simp add: GetParamValue_loop.simps)
  have key: "getline CHR ''='' (Some (query (kv # kvs))) =
      Some (k, Some (v @ (if kvs = [] then [] else ''&'' @ query kvs)))"
    unfolding kv query_Cons using getline_delim [OF free(1)] by simp
  show ?case
  proof (cases "kvs = []")
    case True
    then show ?thesis
      using key free kv end_none by (subst GetParamValue_loop.simps) (cases "v = []"; simp)
  next
    case False
    have val: "getline CHR ''&'' (Some (v @ ''&'' @ query kvs)) = Some (v, Some (query kvs))"
      using getline_delim [OF free(2), of "query kvs"] by simp
    show ?thesis
      using False key val kv Cons.IH Cons.prems by (subst GetParamValue_loop.simps) simp
  qed
qed


subsection \<open>The server of the example\<close>

lemma main_server_routing:
  "HandleRequest (main_server api) req =
    (if illegal_target (target req)
     then io_return (Inr (MakeErrorResponse req bad_request ''Illegal request-target''))
     else if method req \<noteq> verb_get
     then io_return (Inr (MakeErrorResponse req method_not_allowed ''Unknown HTTP-method''))
     else State_Monad.bind
       (if uri_of (target req) = ''/gettoken'' then HandleGet_token api req
        else if uri_of (target req) = ''/getdata'' then HandleGet_data api req
        else HandleGet_all api ''/www'' req)
       (\<lambda>r. io_return (map_sum id the r)))"
proof (cases "illegal_target (target req) \<or> method req \<noteq> verb_get")
  case True
  then show ?thesis
    by (auto simp: HandleRequest_binding main_server_binding all_handler.answer_other
        token_handler.answer_other data_handler.answer_other)
next
  case False
  then show ?thesis using uri_of_legal [of "target req"]
    by (simp add: HandleRequest_binding main_server_binding answer_get DocumentRoot_def)
qed

lemma opens_only_simps [simp]:
  "opens_only q []" "opens_only q (FileOpened p f # es) = (p = q \<and> opens_only q es)"
  "opens_only q (TokenGenerated r # es) = opens_only q es" "opens_only q (TokenVerified t v # es) = opens_only q es"
  "opens_only q (es @ es') = (opens_only q es \<and> opens_only q es')"
  by (auto simp: opens_only_def)

lemma files_post:
  "io_post (HandleRequest (main_server api) req) (\<lambda>r es.
     if illegal_target (target req) then es = [] else opens_only (file_path req) es)"
proof (cases "illegal_target (target req)")
  case False
  then have path: "(let path = ConcatPath ''/www'' (target req) in
      if path \<noteq> [] \<and> last path = CHR ''/'' then path @ ''index.html'' else path) = file_path req"
    by (auto simp: file_path_def ConcatPath_def illegal_target_def)
  have "io_post (HandleGet_all api ''/www'' req) (\<lambda>r es. opens_only (file_path req) es)"
    unfolding HandleGet_all_def Let_def path [unfolded Let_def]
    by (auto intro!: io_rules split: open_result.splits)
  then show ?thesis using False
    by (auto simp: main_server_routing HandleGet_token_def HandleGet_data_def Let_def
      intro!: io_rules io_post_bind [where P = "\<lambda>r es. opens_only (file_path req) es"] split: sum.splits)
qed (auto simp: main_server_routing intro!: io_rules)

lemma main_server_replies:
  "io_post (HandleRequest (main_server api) req) (\<lambda>r es. \<forall>res. r = Inr res \<longrightarrow> reply_to req res \<and>
     (status res = bad_request \<longleftrightarrow> illegal_target (target req)) \<and>
     (status res = method_not_allowed \<longleftrightarrow> \<not> illegal_target (target req) \<and> method req \<noteq> verb_get))"
proof (cases "illegal_target (target req)")
  case True
  then show ?thesis
    by (auto simp: HandleRequest_binding reply_to_def MakeErrorResponse_def intro!: io_rules)
next
  case False
  then show ?thesis
    using all_handler.answer_post [of api DocumentRoot req] token_handler.answer_post [of api DocumentRoot req]
      data_handler.answer_post [of api DocumentRoot req]
    by (auto simp: HandleRequest_binding main_server_binding elim!: io_post_mono)
qed

lemma GetMimeType_table:
  assumes "path_ext path = CHR ''.'' # ext"
  shows "GetMimeType path = (case map_of mime_table (map to_lower ext) of Some m \<Rightarrow> m
    | None \<Rightarrow> ''application/text'')"
proof -
  have "map to_lower ''.htm'' = ''.htm''" "map to_lower ''.html'' = ''.html''" "map to_lower ''.php'' = ''.php''"
    "map to_lower ''.css'' = ''.css''" "map to_lower ''.txt'' = ''.txt''" "map to_lower ''.png'' = ''.png''"
    "map to_lower ''.jpe'' = ''.jpe''" "map to_lower ''.jpeg'' = ''.jpeg''" "map to_lower ''.jpg'' = ''.jpg''"
    "map to_lower ''.ico'' = ''.ico''" "map to_lower ''.svg'' = ''.svg''" "map to_lower ''.svgz'' = ''.svgz''"
    "to_lower CHR ''.'' = CHR ''.''"
    by code_simp+
  note low = this
  show ?thesis
    unfolding GetMimeType_def iequals_def assms low Let_def mime_table_def
    by (simp add: low(13))
qed


subsection \<open>Properties\<close>

text \<open>C2: Every file the server opens, whatever the request and the services answer, is the document
  root followed by the request target (with the index page for a directory), for a target that is
  absolute and contains no pair of dots, and its components lead to a place below the document root.\<close>

theorem files_below_root:
  assumes "run_io (HandleRequest (main_server api) req) w = (r, es)" "FileOpened p f \<in> set es"
  shows "p = ''/www'' @ target req @ (if last (target req) = CHR ''/'' then ''index.html'' else []) \<and>
    \<not> has_dotdot (target req) \<and> (\<exists>rest. resolve_path p = ''www'' # rest)"
proof -
  let ?t = "target req @ (if last (target req) = CHR ''/'' then ''index.html'' else [])"
  have p: "\<not> illegal_target (target req)" "p = ''/www'' @ ?t"
    using io_post_run [OF files_post assms(1)] assms(2)
    by (auto simp: opens_only_def file_path_def split: if_splits)
  then obtain t' where t: "target req = CHR ''/'' # t'" by (cases "target req") (auto simp: illegal_target_def)
  have "\<not> has_dotdot ''index.html''" by code_simp
  then have "\<not> has_dotdot ?t" using p(1) t has_dotdot_append [of "target req" "''index.html''"]
    by (auto simp: illegal_target_def)
  moreover have "\<exists>u. ?t = CHR ''/'' # u" using t by simp
  ultimately show ?thesis using p resolve_www by (auto simp: illegal_target_def)
qed

theorem files_below_root_witness:
  "\<exists>rest. resolve_path ''/www/index.html'' = ''www'' # rest"
proof -
  have "run_io (HandleRequest (main_server demo_web) \<lparr>method = verb_get, target = ''/'', version = 11,
      req_keep_alive = True\<rparr>) () = (Inr \<lparr>status = status_ok, res_version = 11, content_type = ''text/html'',
      res_keep_alive = True, body = ''<html>'', content_length = 6\<rparr>,
      [FileOpened ''/www/index.html'' (FileBody ''<html>'')])"
    by code_simp
  from files_below_root [OF this] show ?thesis by simp
qed

text \<open>C31: The routing of the server \<open>main\<close> sets up, as one equation: an illegal target is refused before
  any handler is asked, then any method but GET, then the part of the target before the question
  mark selects the token handler, the data handler or else the file handler.\<close>

theorem main_server_routes:
  "HandleRequest (main_server api) req =
    (if illegal_target (target req)
     then io_return (Inr (MakeErrorResponse req bad_request ''Illegal request-target''))
     else if method req \<noteq> verb_get
     then io_return (Inr (MakeErrorResponse req method_not_allowed ''Unknown HTTP-method''))
     else State_Monad.bind
       (if uri_of (target req) = ''/gettoken'' then HandleGet_token api req
        else if uri_of (target req) = ''/getdata'' then HandleGet_data api req
        else HandleGet_all api ''/www'' req)
       (\<lambda>r. io_return (map_sum id the r)))"
  by (rule main_server_routing)

text \<open>C38: Every response of the server has the version and the connection mode of its request and the
  length of its body; it is 400 exactly for an illegal target and 405 exactly for a legal one with
  another method than GET.\<close>

theorem main_server_responses:
  assumes "run_io (HandleRequest (main_server api) req) w = (Inr res, es)"
  shows "res_version res = version req \<and> res_keep_alive res = req_keep_alive req \<and>
    content_length res = length (body res) \<and>
    (status res = bad_request \<longleftrightarrow> illegal_target (target req)) \<and>
    (status res = method_not_allowed \<longleftrightarrow> \<not> illegal_target (target req) \<and> method req \<noteq> verb_get)"
  using io_post_run [OF main_server_replies assms] by (simp add: reply_to_def)

theorem main_server_responses_witness:
  "\<exists>res es. run_io (HandleRequest (main_server demo_web) \<lparr>method = verb_get, target = ''/../etc'', version = 11,
      req_keep_alive = True\<rparr>) () = (Inr res, es) \<and> status res = bad_request"
proof -
  let ?req = "\<lparr>method = verb_get, target = ''/../etc'', version = 11, req_keep_alive = True\<rparr>"
  have run: "run_io (HandleRequest (main_server demo_web) ?req) () =
      (Inr (MakeErrorResponse ?req bad_request ''Illegal request-target''), [])" by code_simp
  have "illegal_target (target ?req)" by code_simp
  with main_server_responses [OF run] run show ?thesis by blast
qed

text \<open>\<open>SetHandler\<close> and \<open>RemoveHandler\<close>: a handler set for a URI answers the legal requests for that
  URI and changes nothing else; set for the empty URI it answers those for which no other is set;
  removing it again undoes it; handlers of different URIs can be set in any order.\<close>

theorem SetHandler_routes:
  "HandleRequest (SetHandler uri h (s :: 'w WebServer)) req =
    (if \<not> illegal_target (target req) \<and>
        (uri_of (target req) = uri \<or> uri = [] \<and> binding s (uri_of (target req)) = None)
     then answer h req else HandleRequest s req) \<and>
   HandleRequest (RemoveHandler uri (SetHandler uri h s)) req = HandleRequest (RemoveHandler uri s) req \<and>
   (uri = uri' \<or> HandleRequest (SetHandler uri h (SetHandler uri' h' s)) req =
      HandleRequest (SetHandler uri' h' (SetHandler uri h s)) req)"
proof -
  have cong: "HandleRequest s1 req = HandleRequest s2 req" if "binding s1 = binding s2" for s1 s2 :: "'w WebServer"
    by (simp only: HandleRequest_binding that)
  have "HandleRequest (SetHandler uri h s) req =
    (if \<not> illegal_target (target req) \<and>
        (uri_of (target req) = uri \<or> uri = [] \<and> binding s (uri_of (target req)) = None)
     then answer h req else HandleRequest s req)"
    using uri_of_legal [of "target req"]
    by (cases "illegal_target (target req)"; cases "uri_of (target req) = uri"; cases "uri = []";
        simp add: HandleRequest_binding handlers.lookup_set split: option.splits)
  moreover have "HandleRequest (RemoveHandler uri (SetHandler uri h s)) req = HandleRequest (RemoveHandler uri s) req"
    by (rule cong) (rule handlers.remove_set)
  moreover have "HandleRequest (SetHandler uri h (SetHandler uri' h' s)) req =
      HandleRequest (SetHandler uri' h' (SetHandler uri h s)) req" if "uri \<noteq> uri'"
    by (rule cong) (rule handlers.set_commute [OF that])
  ultimately show ?thesis by blast
qed

text \<open>C36: \<open>GetParamValue\<close> on a target with a query string returns the value of the first parameter of
  that name, and the empty string if there is none.\<close>

theorem GetParamValue_spec:
  assumes "CHR ''?'' \<notin> set path"
    and "\<forall>(k, v) \<in> set kvs. CHR ''='' \<notin> set k \<and> CHR ''&'' \<notin> set v"
  shows "GetParamValue (path @ ''?'' @ query kvs) name = (case map_of kvs name of Some v \<Rightarrow> v | None \<Rightarrow> [])"
  using getline_delim [OF assms(1), of "query kvs"] GetParamValue_loop_query [OF assms(2)]
  by (simp add: GetParamValue_def)

theorem GetParamValue_spec_witness:
  "GetParamValue ''/getdata?x=1&jwt=a.b=c&jwt=d'' ''jwt'' = ''a.b=c''"
proof -
  have "''/getdata'' @ ''?'' @ query [(''x'', ''1''), (''jwt'', ''a.b=c''), (''jwt'', ''d'')] =
    ''/getdata?x=1&jwt=a.b=c&jwt=d''" by code_simp
  with GetParamValue_spec [of "''/getdata''" "[(''x'', ''1''), (''jwt'', ''a.b=c''), (''jwt'', ''d'')]" "''jwt''"]
  show ?thesis by simp
qed

text \<open>The media type depends on the extension after the last dot only, without regard to case, and
  is the one of the table or the default.\<close>

theorem GetMimeType_spec:
  assumes "CHR ''.'' \<notin> set ext"
  shows "GetMimeType (stem @ ''.'' @ ext) = (case map_of mime_table (map to_lower ext) of Some m \<Rightarrow> m
    | None \<Rightarrow> ''application/text'') \<and> GetMimeType ext = ''application/text''"
proof -
  have "takeWhile (\<lambda>c. c \<noteq> CHR ''.'') (rev ext @ CHR ''.'' # rev stem) =
      rev ext @ takeWhile (\<lambda>c. c \<noteq> CHR ''.'') (CHR ''.'' # rev stem)"
    by (rule takeWhile_append2) (use assms in auto)
  then have "path_ext (stem @ ''.'' @ ext) = CHR ''.'' # ext" by (simp add: path_ext_def)
  moreover have "path_ext ext = []" using assms by (simp add: path_ext_def)
  ultimately show ?thesis by (simp add: GetMimeType_table) (simp add: GetMimeType_def iequals_def Let_def)
qed

theorem GetMimeType_spec_witness: "GetMimeType ''/www/a.tar.JpG'' = ''image/jpeg''"
proof -
  have "map_of mime_table (map to_lower ''JpG'') = Some ''image/jpeg''" by code_simp
  with GetMimeType_spec [of "''JpG''" "''/www/a.tar''"] show ?thesis by simp
qed

end
