(* ===== verification/Token_Service.thy ===== *)
theory Token_Service
  imports Web_Server
begin

section \<open>The token service, and the server with it\<close>

text \<open>
  \<^verbatim>\<open>examples/jwt/token_service/src/main.cpp\<close>.  The JWT library is a parameter: it signs a payload with a
  secret and decodes a token, and either may throw.  A claim is a string or another JSON value, of
  which \<open>get_claim_value<std::string>\<close> throws.
\<close>

subsection \<open>The code\<close>

datatype json = JString string | JOther nat

record jwt_lib =
  jwt_sign :: "string \<Rightarrow> (string \<times> string) list \<Rightarrow> string \<Rightarrow> unit cpp_exception + string"
  jwt_decode :: "string \<Rightarrow> string list \<Rightarrow> string \<Rightarrow> unit cpp_exception + (string \<rightharpoonup> json)"
  get_claim_error :: "unit cpp_exception"

definition m_payloadKey :: string where "m_payloadKey = ''secret''"
definition m_payloadValue :: string where "m_payloadValue = ''TOKEN''"
definition service_secret :: string where "service_secret = ''some secret word''"

text \<open>\<open>catch (std::exception&)\<close>: every exception but those of other classes.\<close>

definition catch_std :: "unit cpp_exception + 'a \<Rightarrow> 'a \<Rightarrow> unit cpp_exception + 'a" where
  "catch_std r dflt = (case r of Inl UnknownException \<Rightarrow> Inl UnknownException
     | Inl _ \<Rightarrow> Inr dflt | Inr x \<Rightarrow> Inr x)"

definition Generate :: "jwt_lib \<Rightarrow> string \<Rightarrow> unit cpp_exception + string" where
  "Generate lib m_secret =
    catch_std (jwt_sign lib ''HS256'' [(m_payloadKey, m_payloadValue)] m_secret) []"

definition Verify :: "jwt_lib \<Rightarrow> string \<Rightarrow> string \<Rightarrow> unit cpp_exception + bool" where
  "Verify lib m_secret token =
    catch_std (case jwt_decode lib token [''HS256''] m_secret of
        Inl e \<Rightarrow> Inl e
      | Inr payload \<Rightarrow> (case payload m_payloadKey of
          None \<Rightarrow> Inr False
        | Some (JString v) \<Rightarrow> Inr (v = m_payloadValue)
        | Some (JOther _) \<Rightarrow> Inl (get_claim_error lib))) False"


text \<open>The service: the dispatch loop over the two methods of an object that keeps no state between calls.\<close>

datatype token_call = GenerateCall | VerifyCall string

datatype token_reply = TokenReply "unit cpp_exception + string" | ResultReply "unit cpp_exception + bool"

definition main_token_service :: "jwt_lib \<Rightarrow> token_call list \<Rightarrow> token_reply list" where
  "main_token_service lib calls = fst (event_loop (\<lambda>c secret. (case c of
       GenerateCall \<Rightarrow> TokenReply (Generate lib secret)
     | VerifyCall t \<Rightarrow> ResultReply (Verify lib secret t), secret)) calls service_secret)"


subsection \<open>What the programs rely on\<close>

definition MaxTokenSize :: nat where "MaxTokenSize = 5120"

text \<open>The library: a signed token decodes to its payload with the same secret, and its text is a
  compact serialization, without an ampersand and without an empty part.\<close>

definition jwt_lib_ok :: "jwt_lib \<Rightarrow> bool" where
  "jwt_lib_ok lib \<longleftrightarrow> (\<forall>payload secret t. jwt_sign lib ''HS256'' payload secret = Inr t \<longrightarrow>
     jwt_decode lib t [''HS256''] secret = Inr (\<lambda>k. map_option JString (map_of payload k)) \<and>
     CHR ''&'' \<notin> set t \<and> t \<noteq> [] \<and> \<not> has_dotdot t)"

text \<open>The IPC between the web server and the service: calls reach the service and its results the
  caller, for tokens of the size the interface allows; a longer one is an exception.\<close>

definition token_ipc_ok :: "jwt_lib \<Rightarrow> 'w web_api \<Rightarrow> bool" where
  "token_ipc_ok lib api \<longleftrightarrow> (\<forall>w.
     (\<forall>t. Generate lib service_secret = Inr t \<longrightarrow> length t \<le> MaxTokenSize \<longrightarrow>
        fst (proxy_Generate api w) = Inr t) \<and>
     (\<forall>t. if length t \<le> MaxTokenSize then fst (proxy_Verify api t w) = Verify lib service_secret t
        else \<exists>e. fst (proxy_Verify api t w) = Inl e))"

text \<open>A library that signs one payload, and the services over it, for concrete runs.\<close>

definition demo_jwt :: jwt_lib where
  "demo_jwt = \<lparr>jwt_sign = (\<lambda>alg payload secret. if payload = [(''secret'', ''TOKEN'')] then Inr ''h.p.s''
        else Inl (StdException ''sign'')),
     jwt_decode = (\<lambda>t algs secret. if t = ''h.p.s'' then Inr [''secret'' \<mapsto> JString ''TOKEN'']
        else Inl (StdException ''decode'')),
     get_claim_error = StdException ''type''\<rparr>"


definition demo_token_web :: "unit web_api" where
  "demo_token_web = demo_web\<lparr>proxy_Generate := (\<lambda>w. (Generate demo_jwt service_secret, w)),
     proxy_Verify := (\<lambda>t w. (if length t \<le> MaxTokenSize then Verify demo_jwt service_secret t
        else Inl (RuntimeError ''size''), w))\<rparr>"

abbreviation success_body :: string where "success_body \<equiv> ''<div class=\"success\">Data access succeeded</div>''"


subsection \<open>Lemmas\<close>

lemma Verify_true:
  "Verify lib secret t = Inr True \<longleftrightarrow>
    (\<exists>payload. jwt_decode lib t [''HS256''] secret = Inr payload \<and> payload ''secret'' = Some (JString ''TOKEN''))"
  by (auto simp: Verify_def catch_std_def m_payloadKey_def m_payloadValue_def
      split: sum.splits option.splits json.splits cpp_exception.splits)

lemma Verify_Generate:
  assumes "jwt_lib_ok lib" "jwt_sign lib ''HS256'' [(''secret'', ''TOKEN'')] secret = Inr t"
  shows "Generate lib secret = Inr t" "Verify lib secret t = Inr True"
  using assms by (auto simp: Generate_def catch_std_def m_payloadKey_def m_payloadValue_def Verify_true jwt_lib_ok_def)

text \<open>A token the service gave out is accepted whenever it is presented, whatever was asked before and in between.\<close>

lemma main_token_service_spec:
  assumes "jwt_lib_ok lib" "jwt_sign lib ''HS256'' [(''secret'', ''TOKEN'')] service_secret = Inr t"
  shows "list_all2 (\<lambda>c r. case c of GenerateCall \<Rightarrow> r = TokenReply (Inr t) | VerifyCall u \<Rightarrow> u = t \<longrightarrow> r = ResultReply (Inr True))
    calls (main_token_service lib calls)"
proof -
  define f where "f = (\<lambda>c. case c of GenerateCall \<Rightarrow> TokenReply (Generate lib service_secret)
    | VerifyCall t \<Rightarrow> ResultReply (Verify lib service_secret t))"
  have "event_loop (\<lambda>c secret. (case c of GenerateCall \<Rightarrow> TokenReply (Generate lib secret)
     | VerifyCall t \<Rightarrow> ResultReply (Verify lib secret t), secret)) cs service_secret = (map f cs, service_secret)" for cs
    by (induction cs) (simp_all add: f_def)
  then show ?thesis using Verify_Generate [OF assms]
    by (auto simp: main_token_service_def list_all2_map2 f_def intro!: list.rel_refl_strong split: token_call.split)
qed

lemma run_get:
  assumes "\<not> illegal_target t"
  shows "run_io (HandleRequest (main_server api) \<lparr>method = verb_get, target = t, version = v, req_keep_alive = k\<rparr>) w =
    run_io (State_Monad.bind
       (if uri_of t = ''/gettoken'' then HandleGet_token api \<lparr>method = verb_get, target = t, version = v, req_keep_alive = k\<rparr>
        else if uri_of t = ''/getdata'' then HandleGet_data api \<lparr>method = verb_get, target = t, version = v, req_keep_alive = k\<rparr>
        else HandleGet_all api ''/www'' \<lparr>method = verb_get, target = t, version = v, req_keep_alive = k\<rparr>)
       (\<lambda>r. io_return (map_sum id the r))) w"
  using assms by (simp add: main_server_routing)

lemma getdata_target:
  assumes "CHR ''&'' \<notin> set t" "\<not> has_dotdot t"
  shows "\<not> illegal_target (''/getdata?jwt='' @ t)" "uri_of (''/getdata?jwt='' @ t) = ''/getdata''"
    "GetParamValue (''/getdata?jwt='' @ t) ''jwt'' = t"
proof -
  have "\<not> has_dotdot ''/getdata?jwt=''" by code_simp
  then show "\<not> illegal_target (''/getdata?jwt='' @ t)"
    using assms(2) has_dotdot_append [of "''/getdata?jwt=''" t] by (auto simp: illegal_target_def)
  show "uri_of (''/getdata?jwt='' @ t) = ''/getdata''" by (simp add: uri_of_def)
  show "GetParamValue (''/getdata?jwt='' @ t) ''jwt'' = t"
    using getline_delim [of "CHR ''?''" "''/getdata''"] GetParamValue_loop_query [of "[(''jwt'', t)]" "''jwt''"] assms(1)
    by (simp add: GetParamValue_def query_def)
qed

lemma demo_jwt_ok: "jwt_lib_ok demo_jwt" "token_ipc_ok demo_jwt demo_token_web"
  by (auto simp: jwt_lib_ok_def demo_jwt_def token_ipc_ok_def demo_token_web_def fun_eq_iff split: if_splits)


subsection \<open>Properties\<close>

text \<open>C29: A token the web server hands out opens the data: if the library signs the payload of the
  service as the token \<open>t\<close>, a GET of \<open>/gettoken\<close> answers with \<open>t\<close>, and a GET of \<open>/getdata\<close> with \<open>t\<close> as
  the parameter \<open>jwt\<close> is not mistaken for an illegal target, reaches the service and answers with
  success.\<close>

theorem token_roundtrip:
  assumes "jwt_lib_ok lib" "token_ipc_ok lib api" "length t \<le> MaxTokenSize"
    and "jwt_sign lib ''HS256'' [(''secret'', ''TOKEN'')] service_secret = Inr t"
  shows "\<exists>res es. run_io (HandleRequest (main_server api)
        \<lparr>method = verb_get, target = ''/gettoken'', version = v, req_keep_alive = k\<rparr>) w = (Inr res, es) \<and>
      status res = status_ok \<and> body res = t \<and>
    (\<exists>res es. run_io (HandleRequest (main_server api)
        \<lparr>method = verb_get, target = ''/getdata?jwt='' @ t, version = v, req_keep_alive = k\<rparr>) w = (Inr res, es) \<and>
      status res = status_ok \<and> body res = success_body)"
proof -
  note gv = Verify_Generate [OF assms(1,4)]
  have t: "CHR ''&'' \<notin> set t" "\<not> has_dotdot t" using assms(1,4) by (auto simp: jwt_lib_ok_def)
  note target = getdata_target [OF t]
  have ipc: "fst (proxy_Generate api w) = Inr t" "fst (proxy_Verify api t w) = Inr True"
    using assms(2,3) gv by (auto simp: token_ipc_ok_def)
  have legal: "\<not> illegal_target ''/gettoken''" "uri_of ''/gettoken'' = ''/gettoken''" by code_simp+
  have "\<exists>res es. run_io (HandleRequest (main_server api)
        \<lparr>method = verb_get, target = ''/gettoken'', version = v, req_keep_alive = k\<rparr>) w = (Inr res, es) \<and>
      status res = status_ok \<and> body res = t"
    unfolding run_get [OF legal(1)] legal(2) using ipc(1)
    by (auto simp: run_io_def HandleGet_token_def text_response_def)
  moreover have "\<exists>res es. run_io (HandleRequest (main_server api)
        \<lparr>method = verb_get, target = ''/getdata?jwt='' @ t, version = v, req_keep_alive = k\<rparr>) w = (Inr res, es) \<and>
      status res = status_ok \<and> body res = success_body"
    unfolding run_get [OF target(1)] target(2) using ipc(2) target(3)
    by (simp add: run_io_def HandleGet_data_def text_response_def Let_def)
  ultimately show ?thesis by blast
qed

theorem token_roundtrip_witness:
  "\<exists>res es. run_io (HandleRequest (main_server demo_token_web)
      \<lparr>method = verb_get, target = ''/gettoken'', version = 11, req_keep_alive = True\<rparr>) () = (Inr res, es) \<and>
    body res = ''h.p.s''"
proof -
  have "length ''h.p.s'' \<le> MaxTokenSize" by (simp add: MaxTokenSize_def)
  moreover have "jwt_sign demo_jwt ''HS256'' [(''secret'', ''TOKEN'')] service_secret = Inr ''h.p.s''"
    by (simp add: demo_jwt_def)
  ultimately show ?thesis using token_roundtrip [OF demo_jwt_ok, of "''h.p.s''" 11 True "()"] by blast
qed

text \<open>C6: Data is only given out for a token: whenever a request for \<open>/getdata\<close> is answered with success,
  the library decoded its \<open>jwt\<close> parameter with the secret of the service and the algorithm HS256 to a
  payload whose claim is the one the service signs.\<close>

theorem data_needs_token:
  assumes "token_ipc_ok lib api" "uri_of (target req) = ''/getdata''"
    and "run_io (HandleRequest (main_server api) req) w = (Inr res, es)" "body res = success_body"
  shows "\<exists>payload. jwt_decode lib (GetParamValue (target req) ''jwt'') [''HS256''] service_secret = Inr payload \<and>
    payload ''secret'' = Some (JString ''TOKEN'')"
proof -
  let ?t = "GetParamValue (target req) ''jwt''"
  have get: "\<not> illegal_target (target req)" "method req = verb_get"
    using assms(3,4) by (auto simp: main_server_routing run_io_def MakeErrorResponse_def split: if_splits)
  have "fst (proxy_Verify api ?t w) = Inr True"
    using assms(2-4) get
    by (auto simp: main_server_routing run_io_def HandleGet_data_def Let_def text_response_def split: sum.splits if_splits)
  then have "Verify lib service_secret ?t = Inr True"
    using assms(1) unfolding token_ipc_ok_def by (metis Inl_Inr_False)
  then show ?thesis by (simp add: Verify_true)
qed

theorem data_needs_token_witness:
  "\<exists>payload. jwt_decode demo_jwt ''h.p.s'' [''HS256''] service_secret = Inr payload \<and>
    payload ''secret'' = Some (JString ''TOKEN'')"
proof -
  let ?req = "\<lparr>method = verb_get, target = ''/getdata?jwt=h.p.s'', version = 11, req_keep_alive = True\<rparr>"
  have uri: "uri_of (target ?req) = ''/getdata''" by code_simp
  have val: "GetParamValue (target ?req) ''jwt'' = ''h.p.s''" by code_simp
  have "run_io (HandleRequest (main_server demo_token_web) ?req) () =
    (Inr (text_response ?req success_body), [TokenVerified ''h.p.s'' (Inr True)])" by code_simp
  from data_needs_token [OF demo_jwt_ok(2) uri this] val show ?thesis by (simp add: text_response_def)
qed

end
