(* ===== verification/Web_Session.thy ===== *)
theory Web_Session
  imports Web_Server
begin

section \<open>Sessions and the listener of the web server\<close>

text \<open>
  \<^verbatim>\<open>examples/jwt/web_server/src/webserver.cpp\<close>, classes \<open>Session\<close> and \<open>Listener\<close>: callbacks of asynchronous
  operations on one TLS stream.  The state of a session is the operations it has started that have
  not completed, whether \<open>Close\<close> was called, and the responses sent; each member function is a function
  on it.  A step of the system is the completion of one pending operation with any outcome.
\<close>

subsection \<open>The code\<close>

datatype async_op = HandshakeOp | ReadOp | WriteOp bool | ShutdownOp

record Session =
  pending :: "async_op list"
  closed :: bool
  answered :: "(HttpRequest \<times> HttpResponse) list"

definition start :: "async_op \<Rightarrow> Session \<Rightarrow> Session" where
  "start op s = s\<lparr>pending := pending s @ [op]\<rparr>"

definition complete :: "async_op \<Rightarrow> Session \<Rightarrow> Session" where
  "complete op s = s\<lparr>pending := remove1 op (pending s)\<rparr>"

text \<open>\<open>Run\<close> dispatches \<open>OnRun\<close>, which starts the handshake.\<close>

definition OnRun :: "Session \<Rightarrow> Session" where
  "OnRun s = start HandshakeOp s"

definition new_session :: Session where
  "new_session = OnRun \<lparr>pending = [], closed = False, answered = []\<rparr>"

definition Read :: "Session \<Rightarrow> Session" where
  "Read s = start ReadOp s"

definition Close :: "Session \<Rightarrow> Session" where
  "Close s = (start ShutdownOp s)\<lparr>closed := True\<rparr>"

definition OnHandshake :: "bool \<Rightarrow> Session \<Rightarrow> Session" where
  "OnHandshake ec s = (if ec then s else Read s)"

definition SendResponse :: "HttpRequest \<Rightarrow> HttpResponse \<Rightarrow> Session \<Rightarrow> Session" where
  "SendResponse req msg s =
    (start (WriteOp (res_keep_alive msg)) s)\<lparr>answered := answered s @ [(req, msg)]\<rparr>"

text \<open>The outcomes of a read.  An exception of the request handler leaves the callback.\<close>

datatype read_result = EndOfStream | ReadError | ReadDone HttpRequest "unit cpp_exception + HttpResponse"

definition OnRead :: "read_result \<Rightarrow> Session \<Rightarrow> Session" where
  "OnRead r s = (case r of
     EndOfStream \<Rightarrow> Close s
   | ReadError \<Rightarrow> s
   | ReadDone req (Inl e) \<Rightarrow> s
   | ReadDone req (Inr msg) \<Rightarrow> SendResponse req msg s)"

definition OnWrite :: "bool \<Rightarrow> bool \<Rightarrow> Session \<Rightarrow> Session" where
  "OnWrite keepAlive ec s =
    (if ec then s
     else (let s = (if \<not> keepAlive then Close s else s) in Read s))"

definition OnShutdown :: "bool \<Rightarrow> Session \<Rightarrow> Session" where
  "OnShutdown ec s = s"

text \<open>Completion of a pending operation; what the server's handler does with a request depends on the
  services behind it, so the response is any one it can give.\<close>

inductive session_step :: "'w WebServer \<Rightarrow> Session \<Rightarrow> Session \<Rightarrow> bool" for server where
  handshake: "HandshakeOp \<in> set (pending s) \<Longrightarrow>
    session_step server s (OnHandshake ec (complete HandshakeOp s))"
| read_end: "ReadOp \<in> set (pending s) \<Longrightarrow> r \<in> {EndOfStream, ReadError} \<Longrightarrow>
    session_step server s (OnRead r (complete ReadOp s))"
| read_done: "ReadOp \<in> set (pending s) \<Longrightarrow> run_io (HandleRequest server req) w = (msg, es) \<Longrightarrow>
    session_step server s (OnRead (ReadDone req msg) (complete ReadOp s))"
| written: "WriteOp keepAlive \<in> set (pending s) \<Longrightarrow>
    session_step server s (OnWrite keepAlive ec (complete (WriteOp keepAlive) s))"
| shutdown: "ShutdownOp \<in> set (pending s) \<Longrightarrow>
    session_step server s (OnShutdown ec (complete ShutdownOp s))"

record Listener =
  accepting :: nat
  sessions :: "Session list"

definition Accept :: "Listener \<Rightarrow> Listener" where
  "Accept l = l\<lparr>accepting := accepting l + 1\<rparr>"


definition OnAccept :: "bool \<Rightarrow> Listener \<Rightarrow> Listener" where
  "OnAccept ec l = (let l = (if ec then l else l\<lparr>sessions := sessions l @ [new_session]\<rparr>) in Accept l)"

inductive server_step :: "'w WebServer \<Rightarrow> Listener \<Rightarrow> Listener \<Rightarrow> bool" for server where
  accept: "accepting l > 0 \<Longrightarrow> server_step server l (OnAccept ec (l\<lparr>accepting := accepting l - 1\<rparr>))"
| session: "i < length (sessions l) \<Longrightarrow> session_step server (sessions l ! i) s \<Longrightarrow>
    server_step server l (l\<lparr>sessions := (sessions l)[i := s]\<rparr>)"

inductive_cases session_stepE: "session_step server s s'"
inductive_cases server_stepE: "server_step server l l'"


subsection \<open>The invariant\<close>

text \<open>At most one operation other than a shutdown is pending, a shutdown is only pending after
  \<open>Close\<close>, and every response answers its request in the version and connection mode of the
  request; a write carries the connection mode of the last response.\<close>

definition stream_ops :: "Session \<Rightarrow> async_op list" where
  "stream_ops s = filter (\<lambda>op. op \<noteq> ShutdownOp) (pending s)"




lemma stream_ops_simps [simp]:
  "op \<noteq> ShutdownOp \<Longrightarrow> stream_ops (start op s) = stream_ops s @ [op]"
  "stream_ops (start ShutdownOp s) = stream_ops s"
  "stream_ops (s\<lparr>closed := b\<rparr>) = stream_ops s" "stream_ops (s\<lparr>answered := a\<rparr>) = stream_ops s"
  by (simp_all add: stream_ops_def start_def)


lemma complete_fields [simp]: "closed (complete op s) = closed s" "answered (complete op s) = answered s"
  by (simp_all add: complete_def)










subsection \<open>Properties\<close>



text \<open>After a response that ends the connection the session has called \<open>Close\<close> and still reads: it
  can reach a state in which a shutdown and a read are pending at once, and from it one in which a
  request that arrived after \<open>Close\<close> has been answered.\<close>

theorem session_reads_after_close:
  "\<exists>s s'. (session_step (main_server demo_web))\<^sup>*\<^sup>* new_session s \<and> closed s \<and>
     set (pending s) = {ShutdownOp, ReadOp} \<and> length (answered s) = 1 \<and>
     \<not> res_keep_alive (snd (last (answered s))) \<and>
     session_step (main_server demo_web) s s' \<and> length (answered s') = 2"
proof -
  let ?step = "session_step (main_server demo_web)"
  let ?req = "\<lparr>method = verb_get, target = ''/'', version = 11, req_keep_alive = False\<rparr>"
  let ?msg = "\<lparr>status = status_ok, res_version = 11, content_type = ''text/html'',
      res_keep_alive = False, body = ''<html>'', content_length = 6\<rparr>"
  have run: "run_io (HandleRequest (main_server demo_web) ?req) () =
      (Inr ?msg, [FileOpened ''/www/index.html'' (FileBody ''<html>'')])" by code_simp
  let ?s1 = "\<lparr>pending = [ReadOp], closed = False, answered = []\<rparr>"
  let ?s2 = "\<lparr>pending = [WriteOp False], closed = False, answered = [(?req, ?msg)]\<rparr>"
  let ?s3 = "\<lparr>pending = [ShutdownOp, ReadOp], closed = True, answered = [(?req, ?msg)]\<rparr>"
  let ?s4 = "\<lparr>pending = [ShutdownOp, WriteOp False], closed = True, answered = [(?req, ?msg), (?req, ?msg)]\<rparr>"
  note defs = new_session_def OnRun_def OnHandshake_def OnRead_def OnWrite_def Read_def Close_def SendResponse_def
    start_def complete_def Let_def
  have "?step new_session ?s1" using handshake [of new_session "main_server demo_web" False] by (simp add: defs)
  moreover have "?step ?s1 ?s2" using read_done [OF _ run, of ?s1] by (simp add: defs)
  moreover have "?step ?s2 ?s3" using written [of False ?s2 "main_server demo_web" False] by (simp add: defs)
  moreover have "?step ?s3 ?s4" using read_done [OF _ run, of ?s3] by (simp add: defs)
  ultimately have "?step\<^sup>*\<^sup>* new_session ?s3" "?step ?s3 ?s4" by auto
  then show ?thesis by (intro exI [of _ ?s3] exI [of _ ?s4]) auto
qed

end
