(* ===== verification/Web_Run.thy ===== *)
theory Web_Run
  imports Web_Session
begin

section \<open>The web server process\<close>

text \<open>
  \<^verbatim>\<open>examples/jwt/web_server/src/webserver.cpp\<close>, \<open>WebServer::Run\<close>, and \<open>main.cpp\<close>: the set-up of TLS, listener and
  threads, and the program around it.  The TLS library, the acceptor, the creation of threads, the run of the \<open>io_context\<close>,
  \<open>boost::program_options\<close> and the network are parameters.
\<close>

subsection \<open>The code\<close>

text \<open>How the run of the handlers by the four threads ends: \<open>ioc.run()\<close> of the main thread returned or threw, or an exception
  left \<open>ioc.run()\<close> of one of the three others.\<close>

datatype ioc_end = IocReturned | IocThrew string | WorkerThrew string


datatype run_event =
    SslContext "string option"
  | CertificateUsed string "string option"
  | KeyUsed string "string option"
  | DhUsed string "string option"
  | ListenerMade nat "string option"
  | ThreadMade "string option"
  | IocRan ioc_end
  | Logged string
  | HelpShown
  | NetworkUp bool
  | IfacesListed
  | ProxyMade












subsection \<open>Contracts\<close>


definition served :: "run_event list \<Rightarrow> bool" where
  "served es \<longleftrightarrow> (\<exists>e. IocRan e \<in> set es)"

lemma served_simps [simp]:
  "served [] = False" "served (e # es) = ((\<exists>r. e = IocRan r) \<or> served es)" "served (es @ es') = (served es \<or> served es')"
  by (auto simp: served_def)










end
