(* ===== verification/Wifi.thy ===== *)
theory Wifi
  imports Effects
begin

section \<open>The Wi-Fi client\<close>

text \<open>
  \<^verbatim>\<open>examples/wifi/wpa_supplicant_client/client/src\<close>: \<open>connection_manager.cpp\<close> and \<open>main.cpp\<close>.  The control
  interface of wpa_supplicant and the TCP socket are parameters; text written to \<open>std::cout\<close> is left out.
\<close>

subsection \<open>Services\<close>

text \<open>\<open>ExecuteCommand\<close>: the text it stored in the buffer, or \<^term>\<open>None\<close> when it did not return \<open>rcOk\<close>.
  A TCP connect reports success, and whether the socket is open afterwards.\<close>

record 'w wifi_api =
  ExecuteCommand :: "string \<Rightarrow> 'w \<Rightarrow> string option \<times> 'w"
  valid_ip :: "string \<Rightarrow> bool"
  tcp_connect :: "string \<Rightarrow> u16 \<Rightarrow> 'w \<Rightarrow> (bool \<times> bool) \<times> 'w"
  tcp_send :: "string \<Rightarrow> 'w \<Rightarrow> bool \<times> 'w"
  tcp_close :: "'w \<Rightarrow> bool \<times> 'w"

datatype wifi_event =
    Command string "string option"
  | SleptS nat
  | TcpConnected string u16 "bool \<times> bool"
  | TcpSent string bool
  | TcpClosed bool

type_synonym ('w, 'a) wifi_io = "('w, wifi_event, 'a) io"


subsection \<open>The connection manager\<close>

record ConnectionManager =
  m_ssid :: string
  m_psk :: string
  m_networkId :: string

definition defaultTimeout :: nat where "defaultTimeout = 10"
definition scanTime :: nat where "scanTime = 10"

definition ConnectionManager_ctor :: "string \<Rightarrow> string \<Rightarrow> ConnectionManager" where
  "ConnectionManager_ctor ssid psk = \<lparr>m_ssid = ssid, m_psk = psk, m_networkId = []\<rparr>"

definition RunCommand :: "'w wifi_api \<Rightarrow> string \<Rightarrow> ('w, string) wifi_io" where
  "RunCommand api cmd = do {
     r \<leftarrow> call (Command cmd) (ExecuteCommand api cmd);
     io_return (case r of Some buffer \<Rightarrow> buffer | None \<Rightarrow> []) }"

definition StartScan :: "'w wifi_api \<Rightarrow> ('w, bool) wifi_io" where
  "StartScan api = do { r \<leftarrow> RunCommand api ''SCAN''; io_return (r = ''OK'') }"

definition GetScanResults :: "'w wifi_api \<Rightarrow> ('w, string) wifi_io" where
  "GetScanResults api = RunCommand api ''SCAN_RESULTS''"

definition GetStatus :: "'w wifi_api \<Rightarrow> ('w, string) wifi_io" where
  "GetStatus api = RunCommand api ''STATUS''"

definition AddNetwork :: "'w wifi_api \<Rightarrow> ('w, string) wifi_io" where
  "AddNetwork api = RunCommand api ''ADD_NETWORK''"

definition SetNetwork :: "'w wifi_api \<Rightarrow> string \<Rightarrow> string \<Rightarrow> string \<Rightarrow> ('w, bool) wifi_io" where
  "SetNetwork api networkId property value = do {
     r \<leftarrow> RunCommand api (''SET_NETWORK '' @ networkId @ '' '' @ property @ '' '' @ value);
     io_return (r = ''OK'') }"

definition SelectNetwork :: "'w wifi_api \<Rightarrow> string \<Rightarrow> ('w, bool) wifi_io" where
  "SelectNetwork api networkId = do {
     r \<leftarrow> RunCommand api (''SELECT_NETWORK '' @ networkId); io_return (r = ''OK'') }"

definition DisableNetwork :: "'w wifi_api \<Rightarrow> string \<Rightarrow> ('w, bool) wifi_io" where
  "DisableNetwork api networkId = do {
     r \<leftarrow> RunCommand api (''DISABLE_NETWORK '' @ networkId); io_return (r = ''OK'') }"

definition GetNetworks :: "'w wifi_api \<Rightarrow> ('w, bool \<times> string) wifi_io" where
  "GetNetworks api = do {
     started \<leftarrow> StartScan api;
     if \<not> started then io_return (False, ''Failed to get list of available networks'')
     else do {
       _ \<leftarrow> emit (SleptS scanTime);
       result \<leftarrow> GetScanResults api;
       io_return (True, result) } }"

text \<open>\<open>while (std::getline(ss, to, '\n'))\<close>\<close>

function GetProperty_loop :: "stream_state \<Rightarrow> string \<Rightarrow> string" where
  "GetProperty_loop ss property =
    (case getline (CHR 0x0A) ss of None \<Rightarrow> []
     | Some (to, ss') \<Rightarrow>
        if CHR ''='' \<in> set to \<and> takeWhile (\<lambda>c. c \<noteq> CHR ''='') to = property
        then tl (dropWhile (\<lambda>c. c \<noteq> CHR ''='') to)
        else GetProperty_loop ss' property)"
  by pat_completeness auto
termination
  by (relation "measure (left \<circ> fst)") (auto dest!: getline_left)

definition GetProperty :: "string \<Rightarrow> string \<Rightarrow> string" where
  "GetProperty blob property = GetProperty_loop (Some blob) property"

fun WaitStatus :: "'w wifi_api \<Rightarrow> string \<Rightarrow> (string \<Rightarrow> bool) \<Rightarrow> nat \<Rightarrow> ('w, bool) wifi_io" where
  "WaitStatus api propertyName checker 0 = io_return False"
| "WaitStatus api propertyName checker (Suc timeout) = do {
     _ \<leftarrow> emit (SleptS 1);
     blob \<leftarrow> GetStatus api;
     if checker (GetProperty blob propertyName) then io_return True
     else WaitStatus api propertyName checker timeout }"

definition Connect :: "'w wifi_api \<Rightarrow> ConnectionManager \<Rightarrow> ('w, bool \<times> ConnectionManager) wifi_io" where
  "Connect api cm = do {
     id \<leftarrow> AddNetwork api;
     let cm = cm\<lparr>m_networkId := id\<rparr>;
     ok \<leftarrow> SetNetwork api (m_networkId cm) ''ssid'' (m_ssid cm);
     if \<not> ok then io_return (False, cm)
     else do {
       ok \<leftarrow> SetNetwork api (m_networkId cm) ''psk'' (m_psk cm);
       if \<not> ok then io_return (False, cm)
       else do {
         ok \<leftarrow> SelectNetwork api (m_networkId cm);
         if \<not> ok then io_return (False, cm)
         else do {
           ok \<leftarrow> WaitStatus api ''wpa_state'' (\<lambda>status. status = ''COMPLETED'') defaultTimeout;
           io_return (ok, cm) } } } }"

definition Disconnect :: "'w wifi_api \<Rightarrow> ConnectionManager \<Rightarrow> ('w, bool) wifi_io" where
  "Disconnect api cm = do {
     ok \<leftarrow> DisableNetwork api (m_networkId cm);
     if \<not> ok then io_return False
     else WaitStatus api ''wpa_state'' (\<lambda>status. status \<noteq> ''COMPLETED'') defaultTimeout }"

definition GetConnectionStatus :: "'w wifi_api \<Rightarrow> ('w, string) wifi_io" where
  "GetConnectionStatus api = do { blob \<leftarrow> GetStatus api; io_return (GetProperty blob ''wpa_state'') }"

definition GetCurrentSSID :: "'w wifi_api \<Rightarrow> ('w, string) wifi_io" where
  "GetCurrentSSID api = do { blob \<leftarrow> GetStatus api; io_return (GetProperty blob ''ssid'') }"


subsection \<open>The program\<close>

record wifi_options =
  opt_ssid :: string
  opt_psk :: string
  opt_serverIp :: string
  opt_serverPort :: u16

text \<open>The options that \<^verbatim>\<open>/romfs/client.conf\<close> sets, as Boost parses it.  \<open>GetConfigurationOptions\<close> throws (\<^term>\<open>None\<close>) for a
  file that cannot be parsed; a variable without an option keeps its value, which is
  the empty string, and for the port whatever the uninitialized variable holds.\<close>

record wifi_config =
  cfg_ssid :: "string option"
  cfg_psk :: "string option"
  cfg_serverIp :: "string option"
  cfg_serverPort :: "u16 option"

definition value_or :: "'a \<Rightarrow> 'a option \<Rightarrow> 'a" where
  "value_or d x = (case x of None \<Rightarrow> d | Some v \<Rightarrow> v)"

definition GetConfigurationOptions :: "u16 \<Rightarrow> wifi_config option \<Rightarrow> wifi_options option" where
  "GetConfigurationOptions serverPort conf = map_option (\<lambda>vm.
     \<lparr>opt_ssid = value_or [] (cfg_ssid vm), opt_psk = value_or [] (cfg_psk vm), opt_serverIp = value_or [] (cfg_serverIp vm),
      opt_serverPort = value_or serverPort (cfg_serverPort vm)\<rparr>) conf"

text \<open>The life of a \<open>BoostTcpSocket\<close>: constructor, one \<open>Send\<close>, destructor.  The constructor throws
  (\<^term>\<open>False\<close>) for a text that is no address.\<close>

definition tcp_exchange :: "'w wifi_api \<Rightarrow> string \<Rightarrow> u16 \<Rightarrow> string \<Rightarrow> ('w, bool) wifi_io" where
  "tcp_exchange api ip port message =
    (if \<not> valid_ip api ip then io_return False
     else do {
       (ok, is_open) \<leftarrow> call (TcpConnected ip port) (tcp_connect api ip port);
       _ \<leftarrow> (if \<not> ok then io_return True else call (TcpSent message) (tcp_send api message));
       _ \<leftarrow> (if is_open then call TcpClosed (tcp_close api) else io_return True);
       io_return True })"

text \<open>\<open>main\<close> from the connection manager on; \<^term>\<open>None\<close> is the end by an exception nobody catches.\<close>

definition main_wifi :: "'w wifi_api \<Rightarrow> wifi_options \<Rightarrow> ('w, int option) wifi_io" where
  "main_wifi api opts = do {
     let cm = ConnectionManager_ctor (opt_ssid opts) (opt_psk opts);
     _ \<leftarrow> GetConnectionStatus api;
     (getNetworkResult, networkList) \<leftarrow> GetNetworks api;
     if \<not> getNetworkResult then io_return (Some EXIT_FAILURE)
     else do {
       (connected, cm) \<leftarrow> Connect api cm;
       if \<not> connected then io_return (Some EXIT_FAILURE)
       else do {
         ssid \<leftarrow> GetCurrentSSID api;
         _ \<leftarrow> GetConnectionStatus api;
         ok \<leftarrow> (if opt_serverIp opts \<noteq> [] then do {
                  _ \<leftarrow> emit (SleptS 10);
                  tcp_exchange api (opt_serverIp opts) (opt_serverPort opts)
                    (''Hello from KasperskyOS'' @ [CHR 0x0A]) }
                else do { _ \<leftarrow> emit (SleptS 1); io_return True });
         if \<not> ok then io_return None
         else do {
           disconnected \<leftarrow> Disconnect api cm;
           if \<not> disconnected then io_return (Some EXIT_FAILURE)
           else do {
             _ \<leftarrow> GetConnectionStatus api;
             io_return (Some EXIT_SUCCESS) } } } } }"

text \<open>\<open>main\<close> with the configuration.\<close>

definition main_wifi_configured :: "'w wifi_api \<Rightarrow> u16 \<Rightarrow> wifi_config option \<Rightarrow> ('w, int option) wifi_io" where
  "main_wifi_configured api serverPort conf = (case GetConfigurationOptions serverPort conf of
     None \<Rightarrow> io_return None
   | Some opts \<Rightarrow> main_wifi api opts)"


subsection \<open>Vocabulary of the contracts\<close>

text \<open>The commands of a trace with the text \<open>RunCommand\<close> returned for them, and the time slept.\<close>

definition commands :: "wifi_event list \<Rightarrow> (string \<times> string) list" where
  "commands es = List.map_filter (\<lambda>e. case e of
     Command c r \<Rightarrow> Some (c, case r of Some t \<Rightarrow> t | None \<Rightarrow> []) | _ \<Rightarrow> None) es"

definition slept_s :: "wifi_event list \<Rightarrow> nat" where
  "slept_s es = sum_list (map (\<lambda>e. case e of SleptS n \<Rightarrow> n | _ \<Rightarrow> 0) es)"

definition wpa_state :: "string \<Rightarrow> string" where
  "wpa_state blob = GetProperty blob ''wpa_state''"

text \<open>The commands that set up the network \<open>nid\<close>.\<close>

definition set_cmd :: "string \<Rightarrow> string \<Rightarrow> string \<Rightarrow> string" where
  "set_cmd nid property value = ''SET_NETWORK '' @ nid @ '' '' @ property @ '' '' @ value"

definition select_cmd :: "string \<Rightarrow> string" where
  "select_cmd nid = ''SELECT_NETWORK '' @ nid"

definition setup_commands :: "string \<Rightarrow> ConnectionManager \<Rightarrow> string list" where
  "setup_commands nid cm = [''ADD_NETWORK'', set_cmd nid ''ssid'' (m_ssid cm),
     set_cmd nid ''psk'' (m_psk cm), select_cmd nid]"

definition split_line :: "string \<Rightarrow> (string \<times> string) option" where
  "split_line to = (if CHR ''='' \<in> set to
     then Some (takeWhile (\<lambda>c. c \<noteq> CHR ''='') to, tl (dropWhile (\<lambda>c. c \<noteq> CHR ''='') to)) else None)"

text \<open>What \<open>Connect\<close> and \<open>Disconnect\<close> leave in a trace: a prefix of their commands, then the status
  queries, one a second; the last one decides.\<close>

definition connect_trace :: "ConnectionManager \<Rightarrow> string \<Rightarrow> bool \<Rightarrow> wifi_event list \<Rightarrow> bool" where
  "connect_trace cm nid ok es \<longleftrightarrow> commands es \<noteq> [] \<and> snd (hd (commands es)) = nid \<and>
    (\<exists>k \<le> 4. \<exists>j \<le> 10. map fst (commands es) = take k (setup_commands nid cm) @ replicate j ''STATUS'' \<and>
      slept_s es = j \<and> (0 < j \<longrightarrow> k = 4 \<and> map snd (take 3 (tl (commands es))) = replicate 3 ''OK'') \<and>
      (ok \<longleftrightarrow> 0 < j \<and> wpa_state (snd (last (commands es))) = ''COMPLETED''))"

definition disconnect_trace :: "string \<Rightarrow> bool \<Rightarrow> wifi_event list \<Rightarrow> bool" where
  "disconnect_trace nid ok es \<longleftrightarrow> (\<exists>j \<le> 10.
      map fst (commands es) = (''DISABLE_NETWORK '' @ nid) # replicate j ''STATUS'' \<and> slept_s es = j \<and>
      (0 < j \<longrightarrow> snd (hd (commands es)) = ''OK'') \<and>
      (ok \<longleftrightarrow> 0 < j \<and> wpa_state (snd (last (commands es))) \<noteq> ''COMPLETED''))"

fun tcp_use :: "wifi_event \<Rightarrow> unit resource_use" where
  "tcp_use (TcpConnected ip port (ok, is_open)) = (if is_open then Opens () else NoUse)"
| "tcp_use (TcpClosed ok) = Closes ()"
| "tcp_use _ = NoUse"

text \<open>The ends of the program: the scan was refused; the connection failed; it was made and the
  configured address is no address (the program is terminated); or it was made and given up again.\<close>

definition configured :: "wifi_options \<Rightarrow> ConnectionManager" where
  "configured opts = ConnectionManager_ctor (opt_ssid opts) (opt_psk opts)"

inductive wifi_end :: "'w wifi_api \<Rightarrow> wifi_options \<Rightarrow> int option \<Rightarrow> wifi_event list \<Rightarrow> bool" for api opts where
  scan_refused: "(''SCAN'', r) \<in> set (commands es) \<Longrightarrow> r \<noteq> ''OK'' \<Longrightarrow>
    wifi_end api opts (Some EXIT_FAILURE) es"
| not_connected: "connect_trace (configured opts) nid False b \<Longrightarrow>
    wifi_end api opts (Some EXIT_FAILURE) (a @ b)"
| bad_address: "connect_trace (configured opts) nid True b \<Longrightarrow>
    opt_serverIp opts \<noteq> [] \<Longrightarrow> \<not> valid_ip api (opt_serverIp opts) \<Longrightarrow> wifi_end api opts None (a @ b @ c)"
| finished: "connect_trace (configured opts) nid True b \<Longrightarrow> disconnect_trace nid ok d \<Longrightarrow>
    wifi_end api opts (Some (if ok then EXIT_SUCCESS else EXIT_FAILURE)) (a @ b @ c @ d @ e)"

text \<open>One round of \<open>WaitStatus\<close>.\<close>

definition status_probe :: "'w wifi_api \<Rightarrow> string \<Rightarrow> (string \<Rightarrow> bool) \<Rightarrow> ('w, bool option) wifi_io" where
  "status_probe api propertyName checker = do {
     _ \<leftarrow> emit (SleptS 1);
     blob \<leftarrow> GetStatus api;
     io_return (if checker (GetProperty blob propertyName) then Some True else None) }"

text \<open>A supplicant on which everything works, and one whose status query fails.\<close>

definition demo_wifi :: "(string option) \<Rightarrow> unit wifi_api" where
  "demo_wifi st = \<lparr>ExecuteCommand = (\<lambda>c w. (if c = ''STATUS'' then st
       else if c = ''ADD_NETWORK'' then Some ''0'' else Some ''OK'', w)),
     valid_ip = (\<lambda>_. True), tcp_connect = (\<lambda>_ _ w. ((True, True), w)),
     tcp_send = (\<lambda>_ w. (True, w)), tcp_close = (\<lambda>w. (True, w))\<rparr>"


subsection \<open>Lemmas\<close>

lemma commands_simps [simp]:
  "commands [] = []" "commands (SleptS n # es) = commands es"
  "commands (Command c r # es) = (c, case r of Some t \<Rightarrow> t | None \<Rightarrow> []) # commands es"
  "commands (TcpConnected i p x # es) = commands es" "commands (TcpSent m y # es) = commands es"
  "commands (TcpClosed z # es) = commands es" "commands (es @ es') = commands es @ commands es'"
  by (simp_all add: commands_def map_filter_simps map_filter_def)

lemma slept_s_simps [simp]:
  "slept_s [] = 0" "slept_s (SleptS n # es) = n + slept_s es" "slept_s (Command c r # es) = slept_s es"
  "slept_s (es @ es') = slept_s es + slept_s es'"
  by (simp_all add: slept_s_def)

lemma RunCommand_post [io_rules]:
  "(\<And>r. Q (case r of Some t \<Rightarrow> t | None \<Rightarrow> []) [Command cmd r]) \<Longrightarrow> io_post (RunCommand api cmd) Q"
  unfolding RunCommand_def by (intro io_rules)

lemma bind_RunCommand [io_rules]:
  assumes "\<And>r. io_post (g (case r of Some t \<Rightarrow> t | None \<Rightarrow> [])) (\<lambda>y es. Q y (Command cmd r # es))"
  shows "io_post (State_Monad.bind (RunCommand api cmd) g) Q"
  using assms by (intro io_post_bind [OF RunCommand_post [where Q = "\<lambda>x es. \<exists>r. x = (case r of Some t \<Rightarrow> t | None \<Rightarrow> []) \<and>
    es = [Command cmd r]"]]) auto

interpretation wait_status: polling "WaitStatus api p checker" "status_probe api p checker" "io_return ()"
    "io_return False" for api p checker
  by unfold_locales (auto simp: status_probe_def intro!: state_ext split: prod.splits)

lemma WaitStatus_post:
  "io_post (WaitStatus api p checker n) (\<lambda>ok es. \<exists>j \<le> n. map fst (commands es) = replicate j ''STATUS'' \<and>
     slept_s es = j \<and> (ok \<longleftrightarrow> j > 0 \<and> checker (GetProperty (snd (last (commands es))) p)))"
proof (rule wait_status.loop_post [where Inv = "\<lambda>k es. map fst (commands es) = replicate k ''STATUS'' \<and>
     slept_s es = k \<and> (k > 0 \<longrightarrow> \<not> checker (GetProperty (snd (last (commands es))) p))"])
  fix k es
  assume "map fst (commands es) = replicate k ''STATUS'' \<and> slept_s es = k \<and>
      (0 < k \<longrightarrow> \<not> checker (GetProperty (snd (last (commands es))) p))" "k < n"
  then show "io_post (status_probe api p checker) (\<lambda>d es'. case d of
      Some ok \<Rightarrow> \<exists>j\<le>n. map fst (commands (es @ es')) = replicate j ''STATUS'' \<and> slept_s (es @ es') = j \<and>
         (ok \<longleftrightarrow> j > 0 \<and> checker (GetProperty (snd (last (commands (es @ es')))) p))
    | None \<Rightarrow> io_post (io_return ()) (\<lambda>_ es''. map fst (commands (es @ es' @ es'')) = replicate (Suc k) ''STATUS'' \<and>
         slept_s (es @ es' @ es'') = Suc k \<and>
         (0 < Suc k \<longrightarrow> \<not> checker (GetProperty (snd (last (commands (es @ es' @ es'')))) p))))"
    unfolding status_probe_def GetStatus_def
    by (auto intro!: io_rules exI [of _ "Suc k"] simp: replicate_append_same)
qed (auto intro!: io_rules)


subsection \<open>Connecting and disconnecting\<close>

lemma Connect_trace:
  fixes cm nid r0 r1 r2 r3
  defines "t1 \<equiv> [Command ''ADD_NETWORK'' r0, Command (set_cmd nid ''ssid'' (m_ssid cm)) r1]"
  defines "t2 \<equiv> t1 @ [Command (set_cmd nid ''psk'' (m_psk cm)) r2]"
  defines "t3 \<equiv> t2 @ [Command (select_cmd nid) r3]"
  assumes "nid = (case r0 of Some t \<Rightarrow> t | None \<Rightarrow> [])"
  shows "connect_trace cm nid False t1" "connect_trace cm nid False t2" "connect_trace cm nid False t3"
    "(case r1 of Some t \<Rightarrow> t | None \<Rightarrow> []) = ''OK'' \<Longrightarrow> (case r2 of Some t \<Rightarrow> t | None \<Rightarrow> []) = ''OK'' \<Longrightarrow>
     (case r3 of Some t \<Rightarrow> t | None \<Rightarrow> []) = ''OK'' \<Longrightarrow> j \<le> 10 \<Longrightarrow> map fst (commands es) = replicate j ''STATUS'' \<Longrightarrow>
     slept_s es = j \<Longrightarrow> (ok \<longleftrightarrow> 0 < j \<and> wpa_state (snd (last (commands es))) = ''COMPLETED'') \<Longrightarrow>
     connect_trace cm nid ok (t3 @ es)"
  using assms(4)
  by (auto simp: t1_def t2_def t3_def connect_trace_def setup_commands_def numeral_3_eq_3
     intro: exI [of _ "2 :: nat"] exI [of _ "3 :: nat"] exI [of _ "4 :: nat"])

lemma Connect_post:
  "io_post (Connect api cm) (\<lambda>(ok, cm') es. cm' = cm\<lparr>m_networkId := m_networkId cm'\<rparr> \<and>
     connect_trace cm (m_networkId cm') ok es)"
proof -
  note wait = io_post_bind [OF WaitStatus_post]
  note trace = Connect_trace [OF refl, simplified append_Cons append_Nil]
  show ?thesis
    unfolding Connect_def AddNetwork_def SetNetwork_def SelectNetwork_def Let_def
      set_cmd_def [symmetric] select_cmd_def [symmetric]
    by (simp cong: if_cong, intro io_rules wait)
      (auto simp: trace defaultTimeout_def wpa_state_def [symmetric] intro!: trace(4))
qed

lemma Disconnect_post:
  "io_post (Disconnect api cm) (\<lambda>ok es. disconnect_trace (m_networkId cm) ok es)"
proof -
  let ?C = "''DISABLE_NETWORK '' @ m_networkId cm"
  have wait: "io_post (WaitStatus api ''wpa_state'' (\<lambda>status. status \<noteq> ''COMPLETED'') defaultTimeout)
      (\<lambda>ok es. disconnect_trace (m_networkId cm) ok (Command ?C r # es))"
    if "(case r of Some t \<Rightarrow> t | None \<Rightarrow> []) = ''OK''" for r
    using that by (intro io_post_mono [OF WaitStatus_post])
      (auto simp: disconnect_trace_def wpa_state_def defaultTimeout_def)
  have fail: "disconnect_trace (m_networkId cm) False [Command ?C r]" for r
    by (auto simp: disconnect_trace_def)
  show ?thesis
    unfolding Disconnect_def DisableNetwork_def
    by (simp del: append_Cons, intro io_rules wait fail) (simp_all add: fail)
qed


subsection \<open>Status texts\<close>

declare GetProperty_loop.simps [simp del]

lemma GetProperty_loop_line:
  assumes "CHR 0x0A \<notin> set l"
  shows "GetProperty_loop (Some (l @ CHR 0x0A # rest)) p =
    (case split_line l of Some (k, v) \<Rightarrow> if k = p then v else GetProperty_loop (Some rest) p
     | None \<Rightarrow> GetProperty_loop (Some rest) p)"
  using getline_delim [OF assms, of rest]
  by (subst GetProperty_loop.simps) (simp add: split_line_def del: getline.simps)

lemma GetProperty_loop_lines:
  assumes "\<forall>l \<in> set ls. CHR 0x0A \<notin> set l"
  shows "GetProperty_loop (Some (join [CHR 0x0A] ls)) p =
    (case map_of (List.map_filter split_line ls) p of Some v \<Rightarrow> v | None \<Rightarrow> [])"
  using assms
proof (induction "[CHR 0x0A]" ls rule: join.induct)
  case 1
  show ?case by (simp add: GetProperty_loop.simps)
next
  case (2 l)
  have none: "GetProperty_loop None p = []" by (simp add: GetProperty_loop.simps)
  show ?case
  proof (cases "l = []")
    case True
    then show ?thesis by (simp add: GetProperty_loop.simps map_filter_simps split_line_def)
  next
    case False
    then have "getline CHR 0x0A (Some l) = Some (l, None)" using 2 by (intro getline_last) auto
    then show ?thesis using none
      by (subst GetProperty_loop.simps) (simp add: map_filter_simps split_line_def del: getline.simps)
  qed
next
  case (3 l l' ls)
  have "CHR 0x0A \<notin> set l" using 3(2) by auto
  from GetProperty_loop_line [OF this] 3 show ?case
    by (simp add: map_filter_simps split: option.splits)
qed


subsection \<open>The program\<close>

lemma status_calls [io_rules]:
  assumes "\<And>r. io_post (g (GetProperty (case r of Some t \<Rightarrow> t | None \<Rightarrow> []) p)) (\<lambda>y es. Q y (Command ''STATUS'' r # es))"
  shows "io_post (State_Monad.bind (State_Monad.bind (GetStatus api) (\<lambda>blob. io_return (GetProperty blob p))) g) Q"
  using assms unfolding GetStatus_def by (simp, intro io_rules)

lemma tcp_exchange_post:
  "io_post (tcp_exchange api ip port msg) (\<lambda>ok es. resource_ok tcp_use None es \<and> commands es = [] \<and>
     (ok \<longleftrightarrow> valid_ip api ip))"
proof -
  have send: "io_post (if \<not> ok then io_return True else call (TcpSent msg) (tcp_send api msg))
      (\<lambda>_ es. no_use tcp_use es \<and> commands es = [])" for ok
    by (auto intro!: io_rules)
  have close: "io_post (if is_open then call TcpClosed (tcp_close api) else io_return True)
      (\<lambda>_ es. \<exists>r. es = (if is_open then [TcpClosed r] else []))" for is_open
    by (auto intro!: io_rules)
  show ?thesis
    unfolding tcp_exchange_def
    by (intro io_rules io_post_bind [OF send] io_post_bind [OF close]) (auto split: if_splits)
qed

lemma no_tcp:
  "io_post (WaitStatus api p checker n) (\<lambda>_ es. no_use tcp_use es)"
  "io_post (Connect api cm) (\<lambda>_ es. no_use tcp_use es)"
  "io_post (Disconnect api cm) (\<lambda>_ es. no_use tcp_use es)"
proof -
  show wait: "io_post (WaitStatus api p checker n) (\<lambda>_ es. no_use tcp_use es)" for p checker n
    by (rule wait_status.loop_post [where Inv = "\<lambda>k es. no_use tcp_use es"])
      (auto simp: status_probe_def GetStatus_def intro!: io_rules)
  show "io_post (Connect api cm) (\<lambda>_ es. no_use tcp_use es)"
    unfolding Connect_def AddNetwork_def SetNetwork_def SelectNetwork_def Let_def
    by (simp cong: if_cong, intro io_rules io_post_bind [OF wait]) simp_all
  show "io_post (Disconnect api cm) (\<lambda>_ es. no_use tcp_use es)"
    unfolding Disconnect_def DisableNetwork_def
    by (simp cong: if_cong, intro io_rules io_post_mono [OF wait]) simp_all
qed

lemma status_queries:
  "io_post (GetConnectionStatus api) (\<lambda>_ es. no_use tcp_use es)"
  "io_post (GetCurrentSSID api) (\<lambda>_ es. no_use tcp_use es)"
  unfolding GetConnectionStatus_def GetCurrentSSID_def GetStatus_def by (intro io_rules; simp)+

lemma GetNetworks_post:
  "io_post (GetNetworks api) (\<lambda>x es. no_use tcp_use es \<and>
     (\<not> fst x \<longrightarrow> (\<exists>r. (''SCAN'', r) \<in> set (commands es) \<and> r \<noteq> ''OK'')))"
  unfolding GetNetworks_def StartScan_def GetScanResults_def
  by (simp cong: if_cong, intro io_rules) auto

lemma main_wifi_post:
  "io_post (main_wifi api opts) (\<lambda>ret es. resource_ok tcp_use None es \<and> wifi_end api opts ret es)"
proof -
  let ?mid = "if opt_serverIp opts \<noteq> [] then do {
                  _ \<leftarrow> emit (SleptS 10);
                  tcp_exchange api (opt_serverIp opts) (opt_serverPort opts)
                    (''Hello from KasperskyOS'' @ [CHR 0x0A]) }
                else do { _ \<leftarrow> emit (SleptS 1); io_return True }"
  have conn: "io_post (Connect api (configured opts)) (\<lambda>x es. no_use tcp_use es \<and>
      connect_trace (configured opts) (m_networkId (snd x)) (fst x) es)"
    using io_post_conj [OF no_tcp(2) Connect_post] by (rule io_post_mono) auto
  have mid: "io_post ?mid (\<lambda>ok es. resource_ok tcp_use None es \<and>
      (\<not> ok \<longrightarrow> opt_serverIp opts \<noteq> [] \<and> \<not> valid_ip api (opt_serverIp opts)))"
    by (intro io_rules io_post_mono [OF tcp_exchange_post]) auto
  have disc: "io_post (Disconnect api cm) (\<lambda>ok es. no_use tcp_use es \<and> disconnect_trace (m_networkId cm) ok es)" for cm
    by (rule io_post_conj [OF no_tcp(3) Disconnect_post])
  have ends:
    "connect_trace (configured opts) nid False b \<Longrightarrow> wifi_end api opts (Some EXIT_FAILURE) (a1 @ a2 @ b)"
    "connect_trace (configured opts) nid True b \<Longrightarrow> opt_serverIp opts \<noteq> [] \<Longrightarrow>
       \<not> valid_ip api (opt_serverIp opts) \<Longrightarrow> wifi_end api opts None (a1 @ a2 @ b @ c1 @ c2 @ c3)"
    "connect_trace (configured opts) nid True b \<Longrightarrow> disconnect_trace nid False d \<Longrightarrow>
       wifi_end api opts (Some EXIT_FAILURE) (a1 @ a2 @ b @ c1 @ c2 @ c3 @ d)"
    "connect_trace (configured opts) nid True b \<Longrightarrow> disconnect_trace nid True d \<Longrightarrow>
       wifi_end api opts (Some EXIT_SUCCESS) (a1 @ a2 @ b @ c1 @ c2 @ c3 @ d @ e)" for nid a1 a2 b c1 c2 c3 d e
    using not_connected [of opts nid b api "a1 @ a2"] bad_address [of opts nid b api "a1 @ a2" "c1 @ c2 @ c3"]
      finished [of opts nid b False d api "a1 @ a2" "c1 @ c2 @ c3" "[]"]
      finished [of opts nid b True d api "a1 @ a2" "c1 @ c2 @ c3" e] by simp_all
  show ?thesis
    unfolding main_wifi_def Let_def configured_def [symmetric]
    by (intro io_post_bind [OF status_queries(1)] io_post_bind [OF status_queries(2)]
        io_post_bind [OF GetNetworks_post] io_post_bind [OF conn] io_post_bind [OF mid] io_post_bind [OF disc]
        io_post_case_prod io_post_if io_post_return; simp)
      (auto intro: scan_refused ends)
qed

text \<open>The whole program: it is terminated before any command when the file cannot be parsed, and otherwise ends as
  \<open>main_wifi\<close> does for the options of the file.\<close>

lemma main_wifi_configured_post:
  "io_post (main_wifi_configured api port conf) (\<lambda>ret es. resource_ok tcp_use None es \<and>
     (case GetConfigurationOptions port conf of None \<Rightarrow> conf = None \<and> ret = None \<and> es = []
      | Some opts \<Rightarrow> wifi_end api opts ret es))"
proof (cases conf)
  case (Some vm)
  then show ?thesis using main_wifi_post by (simp add: main_wifi_configured_def GetConfigurationOptions_def)
qed (auto simp: main_wifi_configured_def GetConfigurationOptions_def intro: io_rules)


subsection \<open>Properties\<close>

text \<open>\<open>GetProperty\<close> of a status text, given by its lines, returns what follows the first equals sign
  of the first line whose part before it is the property, and the empty string if no line has it;
  lines without an equals sign are skipped.\<close>

theorem GetProperty_spec:
  assumes "\<forall>l \<in> set ls. CHR 0x0A \<notin> set l"
  shows "GetProperty (join [CHR 0x0A] ls) property =
    (case map_of (List.map_filter split_line ls) property of Some v \<Rightarrow> v | None \<Rightarrow> [])"
  using GetProperty_loop_lines [OF assms] by (simp add: GetProperty_def)

theorem GetProperty_spec_witness:
  "GetProperty (join [CHR 0x0A] [''bssid=1'', ''x'', ''ssid=a=b'', ''ssid=c'']) ''ssid'' = ''a=b''"
proof -
  have "\<forall>l \<in> set [''bssid=1'', ''x'', ''ssid=a=b'', ''ssid=c'']. CHR 0x0A \<notin> set l" by simp
  from GetProperty_spec [OF this, of "''ssid''"] show ?thesis by (simp add: map_filter_simps split_line_def)
qed



text \<open>C12: The program ends in one of four ways, and its TCP socket is closed on each if it was open:
  with a failure after the scan was refused, or after \<open>Connect\<close> failed; terminated after a successful
  \<open>Connect\<close> if the configured server address is not an address; and otherwise after \<open>Connect\<close> succeeded
  and then \<open>Disconnect\<close> gave up the same network, with the success of the latter as the result.\<close>

theorem main_wifi_spec:
  assumes "run_io (main_wifi api opts) w = (ret, es)"
  shows "resource_ok tcp_use None es \<and> wifi_end api opts ret es"
  by (rule io_post_run [OF main_wifi_post assms])

theorem main_wifi_spec_witness:
  "let api = demo_wifi (Some ''wpa_state=INACTIVE'');
       opts = \<lparr>opt_ssid = ''net'', opt_psk = ''key'', opt_serverIp = [], opt_serverPort = 0\<rparr>;
       (ret, es) = run_io (main_wifi api opts) ()
   in wifi_end api opts ret es"
  unfolding Let_def
  using main_wifi_spec [OF prod.collapse [symmetric], of "demo_wifi (Some ''wpa_state=INACTIVE'')"
    "\<lparr>opt_ssid = ''net'', opt_psk = ''key'', opt_serverIp = [], opt_serverPort = 0\<rparr>" "()"]
  by (simp add: split_beta)

text \<open>\<open>Disconnect\<close> takes a status query that fails for a connection that is gone: a supplicant that
  accepts the command and then answers no status query makes it return true after one second.\<close>

theorem disconnect_without_status:
  "run_io (Disconnect (demo_wifi None) \<lparr>m_ssid = ''net'', m_psk = ''key'', m_networkId = ''0''\<rparr>) () =
    (True, [Command ''DISABLE_NETWORK 0'' (Some ''OK''), SleptS 1, Command ''STATUS'' None])"
  by code_simp

end
