(* ===== verification/Jpeg.thy ===== *)
theory Jpeg
  imports Prelude
begin

section \<open>Finding the end of a JPEG image\<close>

text \<open>
  \<^verbatim>\<open>examples/uvc_camera_stills/client/src/main.c\<close>, function \<open>GetJpegSize\<close>: it walks over the markers of an
  image in a buffer that may be longer than the image.  Every byte access is checked: \<^term>\<open>None\<close> is a
  read outside the buffer.
\<close>

subsection \<open>The code\<close>

definition JpegPadding :: u8 where "JpegPadding = 0xFF"
definition JpegFF :: u8 where "JpegFF = 0x00"
definition JpegSOI :: u8 where "JpegSOI = 0xD8"
definition JpegEOI :: u8 where "JpegEOI = 0xD9"
definition JpegTEM :: u8 where "JpegTEM = 0x01"
definition JpegRST0 :: u8 where "JpegRST0 = 0xD0"
definition JpegRST7 :: u8 where "JpegRST7 = 0xD7"
definition JpegSOS :: u8 where "JpegSOS = 0xDA"

definition is_rst :: "u8 \<Rightarrow> bool" where
  "is_rst b \<longleftrightarrow> JpegRST0 \<le> b \<and> b \<le> JpegRST7"

text \<open>The loop over the entropy-coded data; it returns the index at which it leaves.\<close>

function scan_loop :: "u8 list \<Rightarrow> nat \<Rightarrow> nat \<Rightarrow> nat option" where
  "scan_loop jpeg sz i =
    (if i < sz - 1 then do {
       b \<leftarrow> get8 i jpeg;
       let i = i + 1;
       if b \<noteq> JpegPadding then scan_loop jpeg sz i
       else do {
         b \<leftarrow> get8 i jpeg;
         if b = JpegFF \<or> is_rst b then scan_loop jpeg sz i else Some i } }
     else Some i)"
  by pat_completeness auto
termination
  by (relation "measure (\<lambda>(jpeg, sz, i). sz - i)") auto

text \<open>\<open>be16toh(*(uint16_t *)&jpeg[i])\<close>\<close>

definition be16 :: "u8 list \<Rightarrow> nat \<Rightarrow> nat option" where
  "be16 jpeg i = do { hi \<leftarrow> get8 i jpeg; lo \<leftarrow> get8 (i + 1) jpeg; Some (unat hi * 256 + unat lo) }"

function GetJpegSize_loop :: "u8 list \<Rightarrow> nat \<Rightarrow> nat \<Rightarrow> nat option" where
  "GetJpegSize_loop jpeg sz i =
    (if i < sz then do {
       b \<leftarrow> get8 i jpeg;
       let i = i + 1;
       if b = JpegPadding \<or> b = JpegSOI \<or> b = JpegTEM \<or> is_rst b then GetJpegSize_loop jpeg sz i
       else if b = JpegSOS then do {
         i' \<leftarrow> scan_loop jpeg sz i;
         GetJpegSize_loop jpeg sz i' }
       else if b = JpegEOI then Some i
       else if i + 2 \<ge> sz then Some 0
       else do {
         n \<leftarrow> be16 jpeg i;
         GetJpegSize_loop jpeg sz (i + n) } }
     else Some 0)"
  by pat_completeness auto
termination
proof (relation "measure (\<lambda>(jpeg, sz, i). sz - i)")
  have ge: "scan_loop jpeg sz i = Some i' \<Longrightarrow> i \<le> i'" for jpeg sz i i'
  proof (induction jpeg sz i rule: scan_loop.induct)
    case (1 jpeg sz i)
    from 1(3) [unfolded scan_loop.simps [of jpeg sz i]] 1(1,2) show ?case
      by (fastforce simp: Let_def bind_eq_Some_conv simp del: scan_loop.simps split: if_splits)
  qed
  show "((jpeg, sz, i''), jpeg, sz, i) \<in> measure (\<lambda>(jpeg, sz, i). sz - i)"
    if "i < sz" "i' = i + 1" "scan_loop jpeg sz i' = Some i''" for jpeg sz i i' i''
    using that ge [OF that(3)] by simp
qed auto

definition GetJpegSize :: "u8 list \<Rightarrow> nat \<Rightarrow> nat option" where
  "GetJpegSize jpeg sz = GetJpegSize_loop jpeg sz 0"


declare scan_loop.simps [simp del] GetJpegSize_loop.simps [simp del]

lemmas jpeg_consts = JpegPadding_def JpegFF_def JpegSOI_def JpegEOI_def JpegTEM_def JpegRST0_def JpegRST7_def
  JpegSOS_def


subsection \<open>Reference images\<close>

text \<open>A segment with a length field, and a start of scan with all the data up to the next marker.\<close>

datatype segment = Segment u8 "u8 list" | Scan "u8 list"

text \<open>In scan data a byte 0xFF is followed by the stuffing byte or a restart marker.\<close>

fun stuffed :: "u8 list \<Rightarrow> bool" where
  "stuffed [] = True"
| "stuffed [b] = (b \<noteq> 0xFF)"
| "stuffed (b # c # s) = ((b = 0xFF \<longrightarrow> c = 0 \<or> is_rst c) \<and> stuffed (c # s))"

fun segment_ok :: "segment \<Rightarrow> bool" where
  "segment_ok (Segment m payload) = (m \<notin> {0xFF, 0xD8, 0x01, 0xDA, 0xD9, 0} \<and> \<not> is_rst m \<and> length payload + 2 < 65536)"
| "segment_ok (Scan s) = stuffed s"

text \<open>The marker with what follows it, without the 0xFF before it.\<close>

fun encode_segment :: "segment \<Rightarrow> u8 list" where
  "encode_segment (Segment m payload) =
     m # of_nat ((length payload + 2) div 256) # of_nat ((length payload + 2) mod 256) # payload"
| "encode_segment (Scan s) = 0xDA # s"

fun segments_image :: "segment list \<Rightarrow> u8 list" where
  "segments_image [] = [0xFF, 0xD9]"
| "segments_image (g # gs) = 0xFF # encode_segment g @ segments_image gs"

definition jpeg_image :: "segment list \<Rightarrow> u8 list" where
  "jpeg_image gs = 0xFF # 0xD8 # segments_image gs"


subsection \<open>Bounds\<close>

lemma scan_loop_bounds:
  assumes "sz \<le> length jpeg" "i \<le> sz"
  shows "\<exists>i'. scan_loop jpeg sz i = Some i' \<and> i \<le> i' \<and> i' \<le> sz"
  using assms
proof (induction jpeg sz i rule: scan_loop.induct)
  case (1 jpeg sz i)
  show ?case
  proof (cases "i < sz - 1")
    case True
    then have "get8 i jpeg = Some (jpeg ! i)" "get8 (i + 1) jpeg = Some (jpeg ! (i + 1))"
      using 1(3) by (auto simp: get8_def)
    then show ?thesis using 1(1,2) 1(3,4) True by (subst scan_loop.simps) (fastforce simp: Let_def)
  next
    case False
    then show ?thesis using 1(4) by (subst scan_loop.simps) simp
  qed
qed

lemma GetJpegSize_loop_bounds:
  assumes "sz \<le> length jpeg"
  shows "\<exists>n. GetJpegSize_loop jpeg sz i = Some n \<and> n \<le> sz \<and> (0 < n \<longrightarrow> jpeg ! (n - 1) = JpegEOI)"
  using assms
proof (induction jpeg sz i rule: GetJpegSize_loop.induct)
  case (1 jpeg sz i)
  show ?case
  proof (cases "i < sz")
    case True
    then have b: "get8 i jpeg = Some (jpeg ! i)" using 1(4) by (auto simp: get8_def)
    obtain i' where scan: "scan_loop jpeg sz (i + 1) = Some i'" using scan_loop_bounds [of sz jpeg "i + 1"] 1(4) True by auto
    have len: "i + 1 + 2 < sz \<Longrightarrow> \<exists>n. be16 jpeg (i + 1) = Some n" using 1(4) by (auto simp: be16_def get8_def)
    note ih = 1(1) [OF True b refl _ 1(4)] 1(2) [OF True b refl _ _ scan 1(4)] 1(3) [OF True b refl _ _ _ _ _ 1(4)]
    show ?thesis
      using ih b True scan len by (subst GetJpegSize_loop.simps) (auto simp: Let_def)
  next
    case False
    then show ?thesis by (subst GetJpegSize_loop.simps) simp
  qed
qed


subsection \<open>Images\<close>

lemma drop_Cons:
  assumes "drop p jpeg = b # bs"
  shows "p < length jpeg" "get8 p jpeg = Some b" "drop (Suc p) jpeg = bs"
proof -
  show p: "p < length jpeg" using assms by (metis drop_eq_Nil leI list.distinct(1))
  then show "get8 p jpeg = Some b" using nth_via_drop [OF assms] by (simp add: get8_def)
  show "drop (Suc p) jpeg = bs" using assms by (metis drop_Suc list.sel(3) tl_drop)
qed

lemma length_drop_eq: "drop p jpeg = bs \<Longrightarrow> bs \<noteq> [] \<Longrightarrow> length jpeg = p + length bs"
  by auto

lemma drop_append: "drop p jpeg = xs @ ys \<Longrightarrow> drop (p + length xs) jpeg = ys"
  by (metis add.commute append_eq_conv_conj drop_drop)

lemma stuffed_tl: "stuffed (b # s) \<Longrightarrow> stuffed s"
  by (cases s) auto

lemma scan_loop_stuffed:
  assumes "drop i jpeg = s @ 0xFF # m # rest" "stuffed s" "m \<noteq> 0" "\<not> is_rst m"
  shows "scan_loop jpeg (length jpeg) i = Some (i + length s + 1)"
  using assms(1,2)
proof (induction s arbitrary: i)
  case Nil
  then have "drop i jpeg = 0xFF # m # rest" by simp
  note d = drop_Cons [OF this] drop_Cons [OF drop_Cons(3) [OF this]]
  show ?case using d assms(3,4) by (subst scan_loop.simps) (auto simp: jpeg_consts)
next
  case (Cons b s)
  then have b: "drop i jpeg = b # (s @ 0xFF # m # rest)" by simp
  note d = drop_Cons [OF b]
  have ih: "scan_loop jpeg (length jpeg) (Suc i) = Some (Suc i + length s + 1)"
    using Cons.IH [OF d(3)] stuffed_tl [OF Cons.prems(2)] by simp
  have lt: "i < length jpeg - 1" using length_drop_eq [OF b] by simp
  show ?case
  proof (cases "b = 0xFF")
    case True
    then obtain c s' where s: "s = c # s'" "c = 0 \<or> is_rst c" using Cons.prems(2) by (cases s) auto
    have "drop (Suc i) jpeg = c # (s' @ 0xFF # m # rest)" using d(3) s(1) by simp
    note drop_Cons [OF this]
    then show ?thesis using d ih lt True s(2) by (subst scan_loop.simps) (auto simp: jpeg_consts)
  next
    case False
    then show ?thesis using d ih lt by (subst scan_loop.simps) (auto simp: jpeg_consts)
  qed
qed

lemma skip_padding:
  assumes "drop p jpeg = b # bs" "b \<in> {0xFF, 0xD8}"
  shows "GetJpegSize_loop jpeg (length jpeg) p = GetJpegSize_loop jpeg (length jpeg) (Suc p)"
  using drop_Cons [OF assms(1)] assms(2) by (subst GetJpegSize_loop.simps) (auto simp: jpeg_consts)

lemma next_marker: "\<forall>g \<in> set gs. segment_ok g \<Longrightarrow>
    \<exists>m rest. segments_image gs @ trailing = 0xFF # m # rest \<and> m \<noteq> 0 \<and> \<not> is_rst m"
proof (cases gs)
  case (Cons g gs')
  assume "\<forall>g \<in> set gs. segment_ok g"
  then show ?thesis using Cons by (cases g) (auto simp: is_rst_def jpeg_consts)
qed (simp add: is_rst_def jpeg_consts)

lemma be16_length:
  assumes "drop i jpeg = of_nat (n div 256) # of_nat (n mod 256) # bs" "n < 65536"
  shows "be16 jpeg i = Some n"
proof -
  have "unat (of_nat (n div 256) :: u8) = n div 256" "unat (of_nat (n mod 256) :: u8) = n mod 256"
    using assms(2) by (simp_all add: unat_of_nat)
  then show ?thesis using drop_Cons [OF assms(1)] drop_Cons [OF drop_Cons(3) [OF assms(1)]]
    by (simp add: be16_def)
qed

lemma skip_segment:
  assumes "drop p jpeg = encode_segment g @ rest" "segment_ok g" "2 \<le> length rest"
    and "\<exists>m r. rest = 0xFF # m # r \<and> m \<noteq> 0 \<and> \<not> is_rst m"
  shows "GetJpegSize_loop jpeg (length jpeg) p = GetJpegSize_loop jpeg (length jpeg) (p + length (encode_segment g))"
proof (cases g)
  case (Segment m payload)
  let ?n = "length payload + 2"
  have d: "drop p jpeg = m # of_nat (?n div 256) # of_nat (?n mod 256) # (payload @ rest)"
    using assms(1) Segment by simp
  have "be16 jpeg (Suc p) = Some ?n" using be16_length [OF drop_Cons(3) [OF d]] assms(2) Segment by simp
  moreover have "Suc p + 2 < length jpeg" using length_drop_eq [OF d] assms(3) by (cases rest) auto
  ultimately show ?thesis using drop_Cons [OF d] assms(2) Segment
    by (subst GetJpegSize_loop.simps) (auto simp: jpeg_consts)
next
  case (Scan s)
  obtain m r where rest: "rest = 0xFF # m # r" "m \<noteq> 0" "\<not> is_rst m" using assms(4) by blast
  have d: "drop p jpeg = 0xDA # (s @ 0xFF # m # r)" using assms(1) Scan rest by simp
  have "scan_loop jpeg (length jpeg) (Suc p) = Some (Suc p + length s + 1)"
    using scan_loop_stuffed [OF drop_Cons(3) [OF d]] assms(2) Scan rest by simp
  moreover have "drop (Suc p + length s) jpeg = 0xFF # m # r"
    using drop_append [OF drop_Cons(3) [OF d]] by simp
  ultimately show ?thesis
    using drop_Cons [OF d] skip_padding [of "Suc p + length s" jpeg "0xFF" "m # r"] Scan
    by (subst GetJpegSize_loop.simps) (auto simp: jpeg_consts is_rst_def)
qed

lemma GetJpegSize_loop_image:
  assumes "drop p jpeg = segments_image gs @ trailing" "\<forall>g \<in> set gs. segment_ok g"
  shows "GetJpegSize_loop jpeg (length jpeg) p = Some (p + length (segments_image gs))"
  using assms
proof (induction gs arbitrary: p)
  case Nil
  then have d: "drop p jpeg = 0xFF # 0xD9 # trailing" by simp
  have "GetJpegSize_loop jpeg (length jpeg) (Suc p) = Some (p + 2)"
    using drop_Cons [OF drop_Cons(3) [OF d]] by (subst GetJpegSize_loop.simps) (simp add: jpeg_consts is_rst_def)
  then show ?case using skip_padding [OF d] by simp
next
  case (Cons g gs)
  let ?rest = "segments_image gs @ trailing"
  have d: "drop p jpeg = 0xFF # (encode_segment g @ ?rest)" using Cons.prems by simp
  have nxt: "\<exists>m r. ?rest = 0xFF # m # r \<and> m \<noteq> 0 \<and> \<not> is_rst m" using next_marker [of gs] Cons.prems by simp
  then have "2 \<le> length ?rest"
  proof (elim exE conjE)
    fix m r assume "?rest = 0xFF # m # r"
    then show ?thesis by (simp only: list.size)
  qed
  from skip_segment [OF drop_Cons(3) [OF d] _ this nxt] Cons.IH [OF drop_append [OF drop_Cons(3) [OF d]]]
    skip_padding [OF d] Cons.prems(2)
  show ?case by simp
qed


subsection \<open>Properties\<close>

text \<open>C33: Whatever the bytes, \<open>GetJpegSize\<close> ends, reads nothing outside the given size, and returns 0 or a
  length of at most the size whose last byte is an end-of-image marker code.\<close>

theorem GetJpegSize_bounds:
  assumes "sz \<le> length jpeg"
  shows "\<exists>n. GetJpegSize jpeg sz = Some n \<and> n \<le> sz \<and> (0 < n \<longrightarrow> jpeg ! (n - 1) = JpegEOI)"
  using GetJpegSize_loop_bounds [OF assms] by (simp add: GetJpegSize_def)

theorem GetJpegSize_bounds_witness:
  "\<exists>n. GetJpegSize [0xFF, 0xD8, 0xE0, 0xFF, 0xFF] 5 = Some n \<and> n \<le> 5"
  using GetJpegSize_bounds [of 5 "[0xFF, 0xD8, 0xE0, 0xFF, 0xFF]"] by auto

text \<open>C4: For a well-formed image (start marker, segments with length fields and any number of scans with
  stuffed data, end marker) followed by any other bytes, \<open>GetJpegSize\<close> returns exactly the length of
  the image.\<close>

theorem GetJpegSize_image:
  assumes "\<forall>g \<in> set gs. segment_ok g"
  shows "GetJpegSize (jpeg_image gs @ trailing) (length (jpeg_image gs @ trailing)) = Some (length (jpeg_image gs))"
proof -
  let ?j = "jpeg_image gs @ trailing"
  have d: "drop 0 ?j = 0xFF # 0xD8 # (segments_image gs @ trailing)" by (simp add: jpeg_image_def)
  from skip_padding [OF d] skip_padding [OF drop_Cons(3) [OF d]]
    GetJpegSize_loop_image [OF drop_Cons(3) [OF drop_Cons(3) [OF d]] assms]
  show ?thesis by (simp add: GetJpegSize_def jpeg_image_def)
qed

theorem GetJpegSize_image_witness:
  "GetJpegSize [0xFF, 0xD8, 0xFF, 0xE0, 0, 4, 0xFF, 0xD9, 0xFF, 0xDA, 7, 0xFF, 0, 0xFF, 0xD0, 9, 0xFF, 0xD9, 1, 2, 0xFF, 0xD9] 22 =
    Some 18"
proof -
  let ?gs = "[Segment 0xE0 [0xFF, 0xD9], Scan [7, 0xFF, 0, 0xFF, 0xD0, 9]]"
  have ok: "\<forall>g \<in> set ?gs. segment_ok g" by code_simp
  have lens: "length (jpeg_image ?gs @ [1, 2, 0xFF, 0xD9]) = 22" "length (jpeg_image ?gs) = 18" by code_simp+
  have img: "jpeg_image ?gs @ [1, 2, 0xFF, 0xD9] = [0xFF, 0xD8, 0xFF, 0xE0, 0, 4, 0xFF, 0xD9, 0xFF, 0xDA, 7, 0xFF,
      0, 0xFF, 0xD0, 9, 0xFF, 0xD9, 1, 2, 0xFF, 0xD9]"
    by code_simp
  from GetJpegSize_image [OF ok, of "[1, 2, 0xFF, 0xD9]"] show ?thesis by (simp only: lens) (simp only: img)
qed

end
