(* ===== verification/Camera.thy ===== *)
theory Camera
  imports Complex_Main Effects Kosipc Jpeg
begin

section \<open>The camera client\<close>

text \<open>
  \<^verbatim>\<open>examples/uvc_camera_stills/client/src/main.c\<close>.  The camera driver and the file system are parameters.
  A loop that runs as long as the driver answers in a certain way is cut after a given number of
  rounds, with the result \<^term>\<open>None\<close>.  Text printed on \<open>stderr\<close> is left out, and with it the values that
  \<open>InterrogateCamera\<close> prints; memory allocation is taken to succeed.  The event \<open>Aborted\<close> is a violated
  assertion or a read outside a buffer: what follows it in a trace has no counterpart in the code.
\<close>

subsection \<open>Services\<close>

datatype pix_fmt = CAMERA_PIX_FMT_YUYV | CAMERA_PIX_FMT_MJPEG | CAMERA_PIX_FMT_OTHER nat

record CameraInfo =
  pFmt :: pix_fmt
  resX :: u32
  resY :: u32
  bpp :: u32

record RtlTimeSpec =
  ts_sec :: nat
  ts_nsec :: u32

type_synonym camera_handle = nat

record 'w camera_api =
  CAMERA_CTRL_VFLIP :: nat
  CameraInit :: "'w \<Rightarrow> Retcode \<times> 'w"
  CameraFini :: "'w \<Rightarrow> unit \<times> 'w"
  CameraEnumPorts :: "'w \<Rightarrow> (Retcode \<times> string) \<times> 'w"
  CameraOpenPort :: "string \<Rightarrow> 'w \<Rightarrow> (Retcode \<times> camera_handle) \<times> 'w"
  CameraClosePort :: "camera_handle \<Rightarrow> 'w \<Rightarrow> Retcode \<times> 'w"
  CameraGetCtrlInfo :: "camera_handle \<Rightarrow> nat \<Rightarrow> 'w \<Rightarrow> Retcode \<times> 'w"
  CameraGetCtrlValue :: "camera_handle \<Rightarrow> nat \<Rightarrow> 'w \<Rightarrow> Retcode \<times> 'w"
  CameraEnumProfiles :: "camera_handle \<Rightarrow> nat \<Rightarrow> 'w \<Rightarrow> (Retcode \<times> CameraInfo) \<times> 'w"
  CameraSelectProfile :: "camera_handle \<Rightarrow> nat \<Rightarrow> 'w \<Rightarrow> Retcode \<times> 'w"
  CameraGetInfo :: "camera_handle \<Rightarrow> 'w \<Rightarrow> (Retcode \<times> CameraInfo) \<times> 'w"
  CameraEnable :: "camera_handle \<Rightarrow> 'w \<Rightarrow> Retcode \<times> 'w"
  CameraDisable :: "camera_handle \<Rightarrow> 'w \<Rightarrow> unit \<times> 'w"
  CameraReadFrame :: "camera_handle \<Rightarrow> nat \<Rightarrow> 'w \<Rightarrow> (Retcode \<times> u8 list \<times> RtlTimeSpec) \<times> 'w"
  file_create :: "string \<Rightarrow> 'w \<Rightarrow> bool \<times> 'w"
  file_write :: "u8 list \<Rightarrow> 'w \<Rightarrow> nat \<times> 'w"
  file_close :: "'w \<Rightarrow> unit \<times> 'w"

datatype camera_event =
    Initialized Retcode
  | Finished unit
  | PortsListed "Retcode \<times> string"
  | PortOpened "Retcode \<times> camera_handle"
  | PortClosed camera_handle Retcode
  | CtrlInfo camera_handle nat Retcode
  | CtrlValue camera_handle nat Retcode
  | ProfileListed camera_handle nat "Retcode \<times> CameraInfo"
  | ProfileSelected camera_handle nat Retcode
  | InfoRead camera_handle "Retcode \<times> CameraInfo"
  | CameraEnabled camera_handle Retcode
  | CameraDisabled camera_handle unit
  | FrameRead camera_handle nat "Retcode \<times> u8 list \<times> RtlTimeSpec"
  | FileCreated string bool
  | FileWritten "u8 list" nat
  | FileClosed unit
  | SleptMs u32
  | Aborted

type_synonym ('w, 'a) camera_io = "('w, camera_event, 'a) io"



subsection \<open>Choosing a profile\<close>

fun ConfigureCamera_loop :: "'w camera_api \<Rightarrow> camera_handle \<Rightarrow> nat \<Rightarrow> pix_fmt \<Rightarrow> nat \<Rightarrow> nat \<Rightarrow> int \<Rightarrow> nat \<Rightarrow>
    ('w, (Retcode \<times> int) option) camera_io" where
  "ConfigureCamera_loop api camera height fmt 0 i bestProfileIdx bestHeight = io_return None"
| "ConfigureCamera_loop api camera height fmt (Suc n) i bestProfileIdx bestHeight = do {
     (rc, info) \<leftarrow> call (ProfileListed camera i) (CameraEnumProfiles api camera i);
     if rc \<noteq> rcOk then io_return (Some (rc, bestProfileIdx))
     else if pFmt info = fmt \<and> unat (resY info) \<le> height \<and> unat (resY info) > bestHeight
     then ConfigureCamera_loop api camera height fmt n (i + 1) (int i) (unat (resY info))
     else ConfigureCamera_loop api camera height fmt n (i + 1) bestProfileIdx bestHeight }"

definition ConfigureCamera :: "'w camera_api \<Rightarrow> nat \<Rightarrow> camera_handle \<Rightarrow> nat \<Rightarrow> pix_fmt \<Rightarrow>
    ('w, Retcode option) camera_io" where
  "ConfigureCamera api n camera height fmt = do {
     r \<leftarrow> ConfigureCamera_loop api camera height fmt n 0 (-1) 0;
     (case r of None \<Rightarrow> io_return None
      | Some (rc, bestProfileIdx) \<Rightarrow>
          if rc \<noteq> rcResourceNotFound then io_return (Some rc)
          else if bestProfileIdx = -1 then io_return (Some rcResourceNotFound)
          else do {
            rc \<leftarrow> call (ProfileSelected camera (nat bestProfileIdx)) (CameraSelectProfile api camera (nat bestProfileIdx));
            io_return (Some rc) }) }"


subsection \<open>Frames\<close>

text \<open>
  \<open>YUYVToRGB\<close>.  The colour expressions are evaluated in double precision: \<open>rnd\<close> is the rounding of the
  machine, applied to every constant, product and sum.  \<open>clamp_u8\<close> cuts to the range of a byte and
  drops the fraction.
\<close>

definition clamp_u8 :: "real \<Rightarrow> u8" where
  "clamp_u8 x = of_int \<lfloor>max 0 (min x 255)\<rfloor>"

definition colour :: "(real \<Rightarrow> real) \<Rightarrow> real \<Rightarrow> real \<Rightarrow> real \<Rightarrow> real \<Rightarrow> real \<Rightarrow> u8" where
  "colour rnd y u v cu cv =
    clamp_u8 (rnd (rnd (rnd (y * rnd 1) + rnd (u * rnd cu)) + rnd (v * rnd cv)))"

fun YUYVToRGB_loop :: "(real \<Rightarrow> real) \<Rightarrow> u8 list \<Rightarrow> u8 list" where
  "YUYVToRGB_loop rnd (y1 # u # y2 # v # src) =
    (let y1 = real (unat y1) - 16; y2 = real (unat y2) - 16;
         u = real (unat u) - 128; v = real (unat v) - 128
     in [colour rnd y1 u v 0 (128 / 100), colour rnd y1 u v (- 21 / 100) (- 38 / 100),
         colour rnd y1 u v (213 / 100) 0,
         colour rnd y2 u v 0 (128 / 100), colour rnd y2 u v (- 21 / 100) (- 38 / 100),
         colour rnd y2 u v (213 / 100) 0] @ YUYVToRGB_loop rnd src)"
| "YUYVToRGB_loop rnd _ = []"

text \<open>The three assertions come first; \<^term>\<open>None\<close> when one is violated.\<close>

definition YUYVToRGB :: "(real \<Rightarrow> real) \<Rightarrow> u8 list \<Rightarrow> nat \<Rightarrow> nat \<Rightarrow> u8 list option" where
  "YUYVToRGB rnd yuyv yuyvSize rgbSize =
    (if yuyvSize mod 4 = 0 \<and> rgbSize mod 3 = 0 \<and> yuyvSize div 4 * 2 = rgbSize div 3
     then Some (YUYVToRGB_loop rnd (take yuyvSize yuyv)) else None)"








subsection \<open>The program\<close>











subsection \<open>Vocabulary of the contracts\<close>




fun file_use :: "camera_event \<Rightarrow> unit resource_use" where
  "file_use (FileCreated _ created) = (if created then Opens () else NoUse)"
| "file_use (FileWritten _ _) = Uses ()"
| "file_use (FileClosed _) = Closes ()"
| "file_use _ = NoUse"

definition file_ok :: "camera_event list \<Rightarrow> bool" where
  "file_ok es \<longleftrightarrow> (Aborted \<in> set es \<or> resource_ok file_use None es)"




definition suitable :: "nat \<Rightarrow> pix_fmt \<Rightarrow> CameraInfo \<Rightarrow> bool" where
  "suitable height fmt p \<longleftrightarrow> pFmt p = fmt \<and> unat (resY p) \<le> height \<and> 0 < unat (resY p)"

text \<open>A driver with a fixed list of profiles.\<close>

definition has_profiles :: "'w camera_api \<Rightarrow> camera_handle \<Rightarrow> CameraInfo list \<Rightarrow> bool" where
  "has_profiles api camera ps \<longleftrightarrow> (\<forall>i w. \<exists>info. CameraEnumProfiles api camera i w =
     ((if i < length ps then (rcOk, ps ! i) else (rcResourceNotFound, info)), w))"

text \<open>The best of the first \<open>i\<close> profiles: the first one of the greatest height.\<close>

definition best_of :: "nat \<Rightarrow> pix_fmt \<Rightarrow> CameraInfo list \<Rightarrow> nat \<Rightarrow> nat \<Rightarrow> bool" where
  "best_of height fmt ps i k \<longleftrightarrow> k < i \<and> suitable height fmt (ps ! k) \<and>
     (\<forall>j < i. suitable height fmt (ps ! j) \<longrightarrow> unat (resY (ps ! j)) \<le> unat (resY (ps ! k)) \<and>
        (j < k \<longrightarrow> unat (resY (ps ! j)) < unat (resY (ps ! k))))"

definition best_inv :: "nat \<Rightarrow> pix_fmt \<Rightarrow> CameraInfo list \<Rightarrow> nat \<Rightarrow> int \<Rightarrow> nat \<Rightarrow> bool" where
  "best_inv height fmt ps i b bh \<longleftrightarrow>
    (b = -1 \<and> bh = 0 \<and> (\<forall>j < i. \<not> suitable height fmt (ps ! j))) \<or>
    (\<exists>k. b = int k \<and> best_of height fmt ps i k \<and> bh = unat (resY (ps ! k)))"

text \<open>Grey input: neutral chroma.\<close>

fun grey :: "u8 list \<Rightarrow> u8 list" where
  "grey [] = []"
| "grey [y] = []"
| "grey (y1 # y2 # ys) = y1 # 128 # y2 # 128 # grey ys"

text \<open>A driver with two profiles that delivers one image.\<close>

definition demo_mode :: CameraInfo where
  "demo_mode = \<lparr>pFmt = CAMERA_PIX_FMT_MJPEG, resX = 2, resY = 4, bpp = 0\<rparr>"

definition demo_profiles :: "CameraInfo list" where
  "demo_profiles = [\<lparr>pFmt = CAMERA_PIX_FMT_MJPEG, resX = 2, resY = 2, bpp = 0\<rparr>,
     demo_mode,
     \<lparr>pFmt = CAMERA_PIX_FMT_MJPEG, resX = 3840, resY = 2160, bpp = 0\<rparr>]"

definition demo_camera :: "unit camera_api" where
  "demo_camera = \<lparr>CAMERA_CTRL_VFLIP = 1, CameraInit = (\<lambda>w. (rcOk, w)), CameraFini = (\<lambda>w. ((), w)),
     CameraEnumPorts = (\<lambda>w. ((rcOk, ''cam''), w)), CameraOpenPort = (\<lambda>_ w. ((rcOk, 7), w)),
     CameraClosePort = (\<lambda>_ w. (rcOk, w)), CameraGetCtrlInfo = (\<lambda>_ _ w. (rcNoCapability, w)),
     CameraGetCtrlValue = (\<lambda>_ _ w. (rcOk, w)),
     CameraEnumProfiles = (\<lambda>_ i w. ((if i < length demo_profiles then (rcOk, demo_profiles ! i)
        else (rcResourceNotFound, demo_profiles ! 0)), w)),
     CameraSelectProfile = (\<lambda>_ _ w. (rcOk, w)), CameraGetInfo = (\<lambda>_ w. ((rcOk, demo_mode), w)),
     CameraEnable = (\<lambda>_ w. (rcOk, w)), CameraDisable = (\<lambda>_ w. ((), w)),
     CameraReadFrame = (\<lambda>_ sz w. ((rcOk, [0xFF, 0xD8, 0xFF, 0xD9] @ replicate (sz - 4) 0,
        \<lparr>ts_sec = 12, ts_nsec = 5000000\<rparr>), w)),
     file_create = (\<lambda>_ w. (True, w)), file_write = (\<lambda>bs w. (length bs, w)), file_close = (\<lambda>w. ((), w))\<rparr>"


subsection \<open>Choosing a profile\<close>

lemma best_inv_Suc:
  assumes "best_inv height fmt ps i b bh"
  shows "if pFmt (ps ! i) = fmt \<and> unat (resY (ps ! i)) \<le> height \<and> unat (resY (ps ! i)) > bh
    then best_inv height fmt ps (Suc i) (int i) (unat (resY (ps ! i)))
    else best_inv height fmt ps (Suc i) b bh"
proof (cases "b = -1 \<and> bh = 0 \<and> (\<forall>j < i. \<not> suitable height fmt (ps ! j))")
  case True
  then show ?thesis
    by (auto simp: best_inv_def best_of_def suitable_def less_Suc_eq)
next
  case False
  then obtain k where k: "b = int k" "best_of height fmt ps i k" "bh = unat (resY (ps ! k))"
    using assms by (auto simp: best_inv_def)
  then have pos: "0 < bh" "k < i" by (auto simp: best_of_def suitable_def)
  show ?thesis
  proof (cases "pFmt (ps ! i) = fmt \<and> unat (resY (ps ! i)) \<le> height \<and> unat (resY (ps ! i)) > bh")
    case True
    then have "best_of height fmt ps (Suc i) i"
      using k pos by (fastforce simp: best_of_def suitable_def less_Suc_eq)
    then show ?thesis using True by (auto simp: best_inv_def)
  next
    case False
    then have "best_of height fmt ps (Suc i) k"
      using k pos by (fastforce simp: best_of_def suitable_def less_Suc_eq)
    then show ?thesis using False k by (auto simp: best_inv_def)
  qed
qed

lemma ConfigureCamera_loop_run:
  assumes "has_profiles api camera ps" "best_inv height fmt ps i b bh" "i \<le> length ps" "length ps < i + n"
  shows "\<exists>b' bh' es. run_state (ConfigureCamera_loop api camera height fmt n i b bh) s =
      (Some (rcResourceNotFound, b'), s\<lparr>trace := trace s @ es\<rparr>) \<and>
    best_inv height fmt ps (length ps) b' bh' \<and> (\<forall>e \<in> set es. \<exists>j r. e = ProfileListed camera j r)"
  using assms(2-4)
proof (induction n arbitrary: i b bh s)
  case (Suc n)
  obtain info where enum: "CameraEnumProfiles api camera i (world s) =
     ((if i < length ps then (rcOk, ps ! i) else (rcResourceNotFound, info)), world s)"
    using assms(1) unfolding has_profiles_def by blast
  show ?case
  proof (cases "i < length ps")
    case True
    let ?s = "s\<lparr>trace := trace s @ [ProfileListed camera i (rcOk, ps ! i)]\<rparr>"
    let ?new = "pFmt (ps ! i) = fmt \<and> unat (resY (ps ! i)) \<le> height \<and> unat (resY (ps ! i)) > bh"
    let ?b = "if ?new then int i else b" and ?bh = "if ?new then unat (resY (ps ! i)) else bh"
    have "best_inv height fmt ps (Suc i) ?b ?bh" using best_inv_Suc [OF Suc.prems(1)] by (simp split: if_splits)
    then obtain b' bh' es where "run_state (ConfigureCamera_loop api camera height fmt n (Suc i) ?b ?bh) ?s =
       (Some (rcResourceNotFound, b'), ?s\<lparr>trace := trace ?s @ es\<rparr>)"
       "best_inv height fmt ps (length ps) b' bh'" "\<forall>e \<in> set es. \<exists>j r. e = ProfileListed camera j r"
      using Suc.IH [of "Suc i" ?b ?bh ?s] Suc.prems(3) True by auto
    then show ?thesis using enum True
      by (intro exI [of _ b'] exI [of _ bh'] exI [of _ "ProfileListed camera i (rcOk, ps ! i) # es"])
        (auto split: if_splits)
  next
    case False
    then show ?thesis using enum Suc.prems
      by (intro exI [of _ b] exI [of _ bh] exI [of _ "[ProfileListed camera i (rcResourceNotFound, info)]"]) auto
  qed
qed simp

lemma ConfigureCamera_run:
  assumes "has_profiles api camera ps" "length ps < n"
  shows "\<exists>listed. (\<forall>e \<in> set listed. \<exists>j r. e = ProfileListed camera j r) \<and>
    (if list_ex (suitable height fmt) ps
     then \<exists>k. best_of height fmt ps (length ps) k \<and>
       run_io (ConfigureCamera api n camera height fmt) w =
         (let rc = fst (CameraSelectProfile api camera k w) in (Some rc, listed @ [ProfileSelected camera k rc]))
     else run_io (ConfigureCamera api n camera height fmt) w = (Some rcResourceNotFound, listed))"
proof -
  have "best_inv height fmt ps 0 (-1) 0" by (simp add: best_inv_def)
  from ConfigureCamera_loop_run [OF assms(1) this, of n "\<lparr>world = w, trace = []\<rparr>"] assms(2)
  obtain b bh es where run: "run_state (ConfigureCamera_loop api camera height fmt n 0 (-1) 0) \<lparr>world = w, trace = []\<rparr> =
      (Some (rcResourceNotFound, b), \<lparr>world = w, trace = es\<rparr>)" "best_inv height fmt ps (length ps) b bh"
      "\<forall>e \<in> set es. \<exists>j r. e = ProfileListed camera j r" by auto
  show ?thesis
  proof (cases "b = -1")
    case True
    then have "\<not> list_ex (suitable height fmt) ps" using run(2) by (auto simp: best_inv_def list_ex_length)
    then show ?thesis using run True
      by (intro exI [of _ es]) (simp add: ConfigureCamera_def run_io_def)
  next
    case False
    then obtain k where k: "b = int k" "best_of height fmt ps (length ps) k" using run(2) by (auto simp: best_inv_def)
    then have "list_ex (suitable height fmt) ps" by (auto simp: best_of_def list_ex_length)
    then show ?thesis using run k
      by (intro exI [of _ es]) (auto simp: ConfigureCamera_def run_io_def Let_def split_beta intro!: exI [of _ k])
  qed
qed


subsection \<open>Resources\<close>

lemma file_ok_simps [simp]: "file_ok []" "file_ok es \<Longrightarrow> file_ok es' \<Longrightarrow> file_ok (es @ es')"
  "file_use e = NoUse \<Longrightarrow> file_ok (e # es) = (e = Aborted \<or> file_ok es)"
  by (auto simp: file_ok_def)



















lemma demo_has_profiles: "has_profiles demo_camera h demo_profiles"
  by (auto simp: has_profiles_def demo_camera_def)



text \<open>C25: Choosing a profile: with a driver that lists the profiles \<open>ps\<close>, \<open>ConfigureCamera\<close> only lists
  profiles and then selects the first one of the greatest height among those of the wanted format and
  at most the wanted height, and returns what the driver answers; if there is none it selects nothing
  and returns \<open>rcResourceNotFound\<close>.\<close>

theorem ConfigureCamera_spec:
  assumes "has_profiles api camera ps" "length ps < n"
  shows "\<exists>listed. (\<forall>e \<in> set listed. \<exists>j r. e = ProfileListed camera j r) \<and>
    (if list_ex (suitable height fmt) ps
     then \<exists>k. best_of height fmt ps (length ps) k \<and>
       run_io (ConfigureCamera api n camera height fmt) w =
         (let rc = fst (CameraSelectProfile api camera k w) in (Some rc, listed @ [ProfileSelected camera k rc]))
     else run_io (ConfigureCamera api n camera height fmt) w = (Some rcResourceNotFound, listed))"
  using assms by (rule ConfigureCamera_run)

theorem ConfigureCamera_spec_witness:
  "has_profiles demo_camera 7 demo_profiles \<and> list_ex (suitable 1080 CAMERA_PIX_FMT_MJPEG) demo_profiles \<and>
   (\<exists>k. best_of 1080 CAMERA_PIX_FMT_MJPEG demo_profiles 3 k)"
proof -
  have len: "length demo_profiles = 3" by (simp add: demo_profiles_def)
  have suit: "list_ex (suitable 1080 CAMERA_PIX_FMT_MJPEG) demo_profiles"
    by (simp add: demo_profiles_def suitable_def)
  show ?thesis
    using ConfigureCamera_spec [OF demo_has_profiles, where n = 5 and camera = 7 and height = 1080 and fmt = CAMERA_PIX_FMT_MJPEG and w = "()"] demo_has_profiles len suit by auto
qed


subsection \<open>Running to the end\<close>











subsection \<open>Pixels\<close>

definition exact_on_bytes :: "(real \<Rightarrow> real) \<Rightarrow> bool" where
  "exact_on_bytes rnd \<longleftrightarrow> (\<forall>k :: int. \<bar>k\<bar> \<le> 255 \<longrightarrow> rnd (of_int k) = of_int k)"

lemma YUYVToRGB_loop_length: "length (YUYVToRGB_loop rnd yuyv) = 6 * (length yuyv div 4)"
  by (induction rnd yuyv rule: YUYVToRGB_loop.induct) (auto simp: Let_def)

lemma colour_grey:
  assumes "exact_on_bytes rnd"
  shows "colour rnd (real (unat y) - 16) 0 0 cu cv = (if 16 \<le> y then y - 16 else 0)"
proof -
  have range: "unat y < 256" using unsigned_less [of y, where ?'a = nat] by simp
  then have "\<bar>int (unat y) - 16\<bar> \<le> 255" by linarith
  then have "rnd (of_int (int (unat y) - 16)) = of_int (int (unat y) - 16)"
    using assms unfolding exact_on_bytes_def by blast
  moreover have "rnd 0 = 0" "rnd 1 = 1"
    using assms [unfolded exact_on_bytes_def, rule_format, of 0] assms [unfolded exact_on_bytes_def, rule_format, of 1]
    by simp_all
  ultimately have "colour rnd (real (unat y) - 16) 0 0 cu cv = clamp_u8 (of_int (int (unat y) - 16))"
    by (simp add: colour_def)
  also have "\<dots> = of_int (max 0 (min (int (unat y) - 16) 255))"
    proof -
    have "max 0 (min (real_of_int (int (unat y) - 16)) 255) = of_int (max 0 (min (int (unat y) - 16) 255))"
      by (simp only: of_int_max of_int_min of_int_0 of_int_numeral)
    then show ?thesis by (simp only: clamp_u8_def floor_of_int)
  qed
  also have "max 0 (min (int (unat y) - 16) 255) = (if 16 \<le> y then int (unat y) - 16 else 0)"
    using range by (auto simp: word_le_nat_alt simp del: of_nat_unat)
  finally show ?thesis by simp
qed

lemma YUYVToRGB_loop_grey:
  assumes "exact_on_bytes rnd" "even (length ys)"
  shows "YUYVToRGB_loop rnd (grey ys) = concat (map (\<lambda>y. replicate 3 (if 16 \<le> y then y - 16 else 0)) ys)"
  using assms(2)
  by (induction ys rule: grey.induct) (simp_all add: colour_grey [OF assms(1), simplified] Let_def numeral_3_eq_3)

lemma length_grey: "even (length ys) \<Longrightarrow> length (grey ys) = 2 * length ys"
  by (induction ys rule: grey.induct) auto

text \<open>C26: Converting a frame: when the buffer sizes fit the assertions of \<open>YUYVToRGB\<close> and the source buffer
  has the stated size, exactly \<open>rgbSize\<close> bytes are written; a frame with an even number of pixels of two
  bytes each, and three bytes of output per pixel, fits.  A colourless frame stays colourless: each pixel
  becomes three equal bytes, its luma less 16, or black below that, on every machine whose floating
  point numbers represent the integers up to 255.\<close>

theorem YUYVToRGB_spec:
  assumes "exact_on_bytes rnd" "even (length ys)"
  shows "YUYVToRGB rnd (grey ys) (2 * length ys) (3 * length ys) =
      Some (concat (map (\<lambda>y. replicate 3 (if 16 \<le> y then y - 16 else 0)) ys)) \<and>
    (\<forall>rnd yuyv yuyvSize rgbSize rgb. yuyvSize \<le> length yuyv \<longrightarrow>
      YUYVToRGB rnd yuyv yuyvSize rgbSize = Some rgb \<longrightarrow> length rgb = rgbSize)"
proof (intro conjI allI impI)
  show "YUYVToRGB rnd (grey ys) (2 * length ys) (3 * length ys) =
     Some (concat (map (\<lambda>y. replicate 3 (if 16 \<le> y then y - 16 else 0)) ys))"
    using assms by (auto simp: YUYVToRGB_def YUYVToRGB_loop_grey length_grey elim!: evenE)
  show "length rgb = rgbSize" if "yuyvSize \<le> length yuyv" "YUYVToRGB rnd yuyv yuyvSize rgbSize = Some rgb"
    for rnd yuyv yuyvSize rgbSize rgb
    using that by (auto simp: YUYVToRGB_def YUYVToRGB_loop_length split: if_splits)
qed

theorem YUYVToRGB_spec_witness:
  "exact_on_bytes (\<lambda>x. x) \<and> YUYVToRGB (\<lambda>x. x) [200, 128, 8, 128] 4 6 = Some [184, 184, 184, 0, 0, 0]"
proof -
  have "exact_on_bytes (\<lambda>x. x)" by (simp add: exact_on_bytes_def)
  moreover have "2 * length [200, 8 :: u8] = 4" "3 * length [200, 8 :: u8] = 6" by simp_all
  moreover have "concat (map (\<lambda>y. replicate 3 (if 16 \<le> y then y - 16 else 0)) [200, 8 :: u8]) = [184, 184, 184, 0, 0, 0]"
    by (simp add: numeral_3_eq_3)
  moreover have "grey [200, 8] = [200, 128, 8, 128]" "even (length [200, 8 :: u8])" by simp_all
  ultimately show ?thesis using YUYVToRGB_spec [of "\<lambda>x. x" "[200, 8]"] by metis
qed

end
