(* ===== verification/Amqp_Dump.thy ===== *)
theory Amqp_Dump
  imports Effects
begin

section \<open>The dump of an AMQP message\<close>

text \<open>
  \<open>AmqpDump\<close> and its helpers of \<^verbatim>\<open>examples/rabbitmq/common/utils/utils.cpp\<close>: what they print on \<open>std::cout\<close>,
  as a string.
\<close>

subsection \<open>The code\<close>

text \<open>
  \<open>int\<close> arrays are lists of 32-bit words; \<open>memccpy\<close> sees them as bytes, low byte first: it copies at most
  \<open>n\<close> bytes and stops after a byte equal to \<open>c\<close>.
\<close>

definition int_bytes :: "u32 \<Rightarrow> u8 list" where
  "int_bytes x = [ucast x, ucast (drop_bit 8 x), ucast (drop_bit 16 x), ucast (drop_bit 24 x)]"

fun ints_of :: "u8 list \<Rightarrow> u32 list" where
  "ints_of (a # b # c # d # bs) =
    (ucast a + 256 * ucast b + 65536 * ucast c + 16777216 * ucast d) # ints_of bs"
| "ints_of _ = []"

fun memccpy :: "u8 list \<Rightarrow> u8 list \<Rightarrow> u8 \<Rightarrow> nat \<Rightarrow> u8 list" where
  "memccpy (d # ds) (s # ss) c (Suc n) = s # (if s = c then ds else memccpy ds ss c n)"
| "memccpy ds ss c n = ds"

definition isprint :: "u32 \<Rightarrow> bool" where
  "isprint c \<longleftrightarrow> 32 \<le> unat c \<and> unat c \<le> 126"

definition endl :: string where "endl = [CHR 0x0A]"

definition hex_column :: "u32 list \<Rightarrow> nat \<Rightarrow> string" where
  "hex_column chs i = (if i = 8 then '' :'' else []) @ setw (CHR ''0'') 2 (hex (unat (chs ! i)))"

definition blank_column :: "nat \<Rightarrow> string" where
  "blank_column i = (if i = 8 then '' :'' else []) @ ''   ''"

definition DumpRow :: "nat \<Rightarrow> nat \<Rightarrow> u32 list \<Rightarrow> string" where
  "DumpRow count numinrow chs = setw (CHR ''0'') 8 (hex (count - numinrow)) @
    (if numinrow > 0
     then concat (map (hex_column chs) [0..<numinrow]) @
       concat (map blank_column [numinrow..<16]) @ ''  '' @
       map (\<lambda>i. if isprint (chs ! i) then char_of (unat (chs ! i)) else CHR ''.'') [0..<numinrow]
     else []) @ endl"

definition RowsEq :: "u32 list \<Rightarrow> u32 list \<Rightarrow> bool" where
  "RowsEq a b \<longleftrightarrow> list_all (\<lambda>i. a ! i = b ! i) [0..<16]"

definition dots_line :: string where
  "dots_line = ''          .. .. .. .. .. .. .. .. : .. .. .. .. .. .. .. ..'' @ endl"

record dump_state =
  count :: nat
  numinrow :: nat
  chs :: "u32 list"
  oldchs :: "u32 list"
  showed_dots :: bool
  printed :: string

definition flush_row :: "dump_state \<Rightarrow> dump_state" where
  "flush_row st =
    (let st = (if RowsEq (oldchs st) (chs st)
               then if \<not> showed_dots st then st\<lparr>showed_dots := True, printed := printed st @ dots_line\<rparr> else st
               else st\<lparr>showed_dots := False, printed := printed st @ DumpRow (count st) (numinrow st) (chs st)\<rparr>)
     in st\<lparr>oldchs := ints_of (memccpy (concat (map int_bytes (oldchs st))) (concat (map int_bytes (chs st))) 16 4),
           numinrow := 0\<rparr>)"

fun dump_loop :: "u8 list \<Rightarrow> dump_state \<Rightarrow> dump_state" where
  "dump_loop [] st = st"
| "dump_loop (b # buf) st =
    (let st = (if numinrow st = 16 then flush_row st else st)
     in dump_loop buf (st\<lparr>count := count st + 1, chs := (chs st)[numinrow st := ucast b],
          numinrow := numinrow st + 1\<rparr>))"

text \<open>The array \<open>chs\<close> is not initialized: \<open>chs0\<close> is what it holds.\<close>

definition AmqpDump :: "u32 list \<Rightarrow> u8 list \<Rightarrow> string" where
  "AmqpDump chs0 buf =
    (let st = dump_loop buf \<lparr>count = 0, numinrow = 0, chs = chs0, oldchs = replicate 16 0,
                showed_dots = False, printed = []\<rparr>
     in printed st @ DumpRow (count st) (numinrow st) (chs st) @
        (if numinrow st \<noteq> 0 then setw (CHR ''0'') 8 (hex (count st)) @ endl else []))"


subsection \<open>Reference for the dump\<close>

text \<open>The rows of a message: all but the last one have 16 bytes.\<close>

function rows :: "u8 list \<Rightarrow> u8 list list" where
  "rows bs = (if length bs \<le> 16 then [bs] else take 16 bs # rows (drop 16 bs))"
  by pat_completeness auto
termination
  by (relation "measure length") auto

declare rows.simps [simp del]

definition hex_byte :: "u8 \<Rightarrow> string" where
  "hex_byte b = setw (CHR ''0'') 2 (hex (unat b))"

definition row_text :: "u8 \<Rightarrow> char" where
  "row_text b = (if 32 \<le> b \<and> b \<le> 126 then char_of (unat b) else CHR ''.'')"

text \<open>A line: the offset, the bytes in hexadecimal in two groups of eight, three blanks for each byte that
  is missing, and the bytes as text.\<close>

definition row_line :: "nat \<Rightarrow> u8 list \<Rightarrow> string" where
  "row_line off r = setw (CHR ''0'') 8 (hex off) @
    (if r = [] then [] else
       concat (map hex_byte (take 8 r)) @ replicate (3 * (8 - length r)) (CHR '' '') @ '' :'' @
       concat (map hex_byte (drop 8 r)) @ replicate (3 * (16 - max 8 (length r))) (CHR '' '') @
       ''  '' @ map row_text r) @ endl"

text \<open>A full row that is not the last one is replaced by dots when all its bytes but the first are zero and the
  first one is the first byte of the row before; the first row is compared with zero.\<close>

fun dump_rows :: "nat \<Rightarrow> u8 \<Rightarrow> bool \<Rightarrow> u8 list list \<Rightarrow> string" where
  "dump_rows off p dots (r # r' # rs) =
    (if r = p # replicate 15 0
     then (if dots then [] else dots_line) @ dump_rows (off + 16) p True (r' # rs)
     else row_line off r @ dump_rows (off + 16) (hd r) False (r' # rs))"
| "dump_rows off p dots [r] =
     row_line off r @ (if r = [] then [] else setw (CHR ''0'') 8 (hex (off + length r)) @ endl)"
| "dump_rows off p dots [] = []"


subsection \<open>The dump meets the reference\<close>

lemma int_bytes_byte [simp]: "int_bytes (ucast (b :: u8)) = [b, 0, 0, 0]" "int_bytes 0 = [0, 0, 0, 0]"
proof -
  have "\<not> bit b (k + n)" if "8 \<le> k" for k n
    using that bit_imp_le_length [of b "k + n"] by auto
  then show "int_bytes (ucast b) = [b, 0, 0, 0]"
    by (auto simp: int_bytes_def bit_simps intro!: bit_word_eqI)
qed (simp add: int_bytes_def)

lemma ints_of_zeros: "ints_of (concat (map int_bytes (replicate n 0))) = replicate n 0"
  by (induction n) simp_all

lemma remembered:
  "ints_of (memccpy (concat (map int_bytes (ucast (p :: u8) # replicate 15 0)))
     (concat (map int_bytes (ucast (b :: u8) # cs))) 16 4) = ucast b # replicate 15 0"
proof -
  define zs where "zs = concat (map int_bytes (replicate 15 0))"
  have "ints_of zs = replicate 15 0" using ints_of_zeros [of 15] by (simp only: zs_def)
  moreover have "concat (map int_bytes (ucast p # replicate 15 0)) = p # 0 # 0 # 0 # zs" by (simp add: zs_def)
  moreover have "(4 :: nat) = Suc (Suc (Suc (Suc 0)))" by simp
  ultimately show ?thesis by (simp only: list.map concat.simps int_bytes_byte) simp
qed

lemma RowsEq_eq: "length a = 16 \<Longrightarrow> length b = 16 \<Longrightarrow> RowsEq a b \<longleftrightarrow> a = b"
  by (auto simp: RowsEq_def list_all_iff list_eq_iff_nth_eq)

lemma unat_ucast_byte [simp]: "unat (ucast (b :: u8) :: u32) = unat b"
  using unsigned_less [of b, where ?'a = nat] by (simp add: unsigned_ucast_eq take_bit_nat_eq_self)

lemma inj_ucast_byte: "inj (ucast :: u8 \<Rightarrow> u32)"
  by (rule injI) (metis unat_ucast_byte word_unat_eq_iff)

lemma RowsEq_iff:
  assumes "length r = 16"
  shows "RowsEq (ucast p # replicate 15 0) (map ucast r) \<longleftrightarrow> r = p # replicate 15 (0 :: u8)"
proof -
  have "(ucast p # replicate 15 0 :: u32 list) = map ucast (p # replicate 15 (0 :: u8))" by simp
  then have "RowsEq (ucast p # replicate 15 0) (map ucast r) \<longleftrightarrow>
      (map ucast (p # replicate 15 (0 :: u8)) :: u32 list) = map ucast r"
    using assms by (simp only: RowsEq_eq length_map length_Cons length_replicate)
  then show ?thesis using inj_map_eq_map [OF inj_ucast_byte, of "p # replicate 15 0" r] by (simp only: eq_commute)
qed

lemma upt_split_8: "n \<le> 8 \<Longrightarrow> 8 \<le> m \<Longrightarrow> [n..<m] = [n..<8] @ [8..<m]"
  by (metis upt_add_eq_append le_add_diff_inverse)

lemma blank_columns: "8 \<notin> set is \<Longrightarrow> concat (map blank_column is) = replicate (3 * length is) (CHR '' '')"
  by (induction "is") (auto simp: blank_column_def numeral_3_eq_3)

lemma blanks:
  assumes "n \<le> 8"
  shows "concat (map blank_column [n..<16]) = replicate (3 * (8 - n)) (CHR '' '') @ '' :'' @ replicate 24 (CHR '' '')"
proof -
  have "[n..<16] = [n..<8] @ [8..<16]" using assms by (rule upt_split_8) simp
  moreover have "concat (map blank_column [8..<16]) = '' :'' @ replicate 24 (CHR '' '')" by code_simp
  ultimately show ?thesis using blank_columns [of "[n..<8]"] by simp
qed

lemma DumpRow_line:
  assumes "length r \<le> 16" "take (length r) cs = map ucast r"
  shows "DumpRow (off + length r) (length r) cs = row_line off r"
proof (cases "r = []")
  case False
  have byte: "cs ! i = ucast (r ! i)" if "i < length r" for i
    using assms(2) that by (metis length_map nth_map nth_take)
  have chars: "map (\<lambda>i. if isprint (cs ! i) then char_of (unat (cs ! i)) else CHR ''.'') [0..<length r] = map row_text r"
    by (rule nth_equalityI) (simp_all add: byte isprint_def row_text_def word_le_nat_alt)
  have hex: "hex_column cs i = (if i = 8 then '' :'' else []) @ hex_byte (r ! i)" if "i < length r" for i
    using that by (simp add: hex_column_def hex_byte_def byte)
  show ?thesis
  proof (cases "length r \<le> 8")
    case True
    then have "map (hex_column cs) [0..<length r] = map hex_byte r"
      by (intro nth_equalityI) (simp_all add: hex)
    moreover have "concat (map blank_column [length r..<16]) =
        replicate (3 * (8 - length r)) (CHR '' '') @ '' :'' @ replicate 24 (CHR '' '')"
      using blanks [OF True] .
    ultimately show ?thesis using True \<open>r \<noteq> []\<close> chars by (simp add: DumpRow_def row_line_def)
  next
    case long: False
    have "map (hex_column cs) [0..<8] = map hex_byte (take 8 r)"
      by (intro nth_equalityI) (use long in \<open>simp_all add: hex\<close>)
    moreover have "map (hex_column cs) [8..<length r] = ('' :'' @ hex_byte (r ! 8)) # map hex_byte (drop 9 r)"
      using long by (subst upt_conv_Cons) (auto simp: hex intro!: nth_equalityI)
    moreover have "drop 8 r = r ! 8 # drop 9 r" using long by (simp add: Cons_nth_drop_Suc [symmetric])
    ultimately have "concat (map (hex_column cs) [0..<length r]) =
        concat (map hex_byte (take 8 r)) @ '' :'' @ concat (map hex_byte (drop 8 r))"
      using long by (simp add: upt_split_8 [of 0 "length r"])
    moreover have "concat (map blank_column [length r..<16]) = replicate (3 * (16 - length r)) (CHR '' '')"
      using long blank_columns [of "[length r..<16]"] by simp
    ultimately show ?thesis using long \<open>r \<noteq> []\<close> chars by (simp add: DumpRow_def row_line_def)
  qed
qed (simp add: DumpRow_def row_line_def)

lemma rows_split: "length r = 16 \<Longrightarrow> rows (r @ b # bs) = r # rows (b # bs)"
  by (subst rows.simps) simp

lemma rows_short: "length r \<le> 16 \<Longrightarrow> rows r = [r]"
  by (simp add: rows.simps)

lemma rows_ne: "\<exists>r rs. rows bs = r # rs"
  by (subst rows.simps) simp

definition dump_end :: "dump_state \<Rightarrow> string" where
  "dump_end st = printed st @ DumpRow (count st) (numinrow st) (chs st) @
     (if numinrow st \<noteq> 0 then setw (CHR ''0'') 8 (hex (count st)) @ endl else [])"

lemma flush_row_keeps [simp]:
  "chs (flush_row st) = chs st" "count (flush_row st) = count st" "numinrow (flush_row st) = 0"
  by (simp_all add: flush_row_def Let_def)

lemma dump_loop_rows:
  assumes "length (chs st) = 16" "length row \<le> 16" "take (length row) (chs st) = map ucast row" "numinrow st = length row"
     "count st = off + length row" "oldchs st = ucast p # replicate 15 0"
  shows "dump_end (dump_loop bs st) = printed st @ dump_rows off p (showed_dots st) (rows (row @ bs))"
  using assms
proof (induction bs arbitrary: st row off p)
  case Nil
  then show ?case by (simp add: dump_end_def rows_short DumpRow_line)
next
  case (Cons b bs)
  let ?store = "\<lambda>st :: dump_state. st\<lparr>count := count st + 1, chs := (chs st)[numinrow st := ucast b], numinrow := numinrow st + 1\<rparr>"
  show ?case
  proof (cases "length row = 16")
    case False
    have "take (length (row @ [b])) (chs (?store st)) = map ucast (row @ [b])"
      using Cons.prems False by (simp add: take_Suc_conv_app_nth)
    with Cons.IH [of "?store st" "row @ [b]" off p] Cons.prems False show ?thesis by (simp add: Let_def)
  next
    case True
    then have cs: "chs st = map ucast row" using Cons.prems by (metis take_all_iff order_refl)
    obtain b0 row' where row: "row = b0 # row'" using True by (cases row) auto
    obtain r rs where rs: "rows (b # bs) = r # rs" using rows_ne by blast
    let ?new = "?store (flush_row st)"
    have old: "oldchs (flush_row st) = ucast b0 # replicate 15 0"
      using Cons.prems(6) remembered [of p b0 "map ucast row'"] by (simp add: flush_row_def Let_def cs row)
    have IH: "dump_end (dump_loop bs ?new) = printed (flush_row st) @ dump_rows (off + 16) b0 (showed_dots (flush_row st)) (r # rs)"
      using Cons.IH [of ?new "[b]" "off + 16" b0] Cons.prems True old rs
      by (simp add: take_Suc_conv_app_nth)
    have "printed (flush_row st) @ dump_rows (off + 16) b0 (showed_dots (flush_row st)) (r # rs) =
        printed st @ dump_rows off p (showed_dots st) (row # r # rs)"
    proof (cases "row = p # replicate 15 0")
      case True
      then show ?thesis using Cons.prems(6) RowsEq_iff [OF \<open>length row = 16\<close>, of p] row
        by (simp add: flush_row_def Let_def cs)
    next
      case False
      then show ?thesis using Cons.prems(4-6) RowsEq_iff [OF \<open>length row = 16\<close>, of p] row
          DumpRow_line [of row "chs st" off] \<open>length row = 16\<close>
        by (auto simp: flush_row_def Let_def cs)
    qed
    then show ?thesis using IH True Cons.prems(4) rs rows_split [OF True, of b bs] by (simp add: Let_def)
  qed
qed

lemma AmqpDump_rows:
  assumes "length chs0 = 16"
  shows "AmqpDump chs0 buf = dump_rows 0 0 False (rows buf)"
proof -
  let ?st = "\<lparr>count = 0, numinrow = 0, chs = chs0, oldchs = replicate 16 0, showed_dots = False, printed = []\<rparr>"
  have "replicate 16 0 = ucast (0 :: u8) # replicate 15 (0 :: u32)" by (simp add: numeral_eq_Suc)
  then have "dump_end (dump_loop buf ?st) = dump_rows 0 0 False (rows buf)"
    using dump_loop_rows [of ?st "[]" 0 0 buf] assms by simp
  then show ?thesis by (simp add: AmqpDump_def dump_end_def Let_def)
qed

text \<open>C34: The dump: for every message \<open>AmqpDump\<close> prints the reference, whatever its uninitialized row buffer
  held: one line for each row of 16 bytes with offset, hexadecimal columns and text, dots in place of the rows
  that count as repeated, the last row always, and a last line with the length unless the message is empty.
  The rows that count as repeated are those whose bytes after the first are zero and whose first
  byte is the first byte of the row before, because only one \<open>int\<close> of the row is remembered.\<close>

theorem AmqpDump_spec:
  assumes "length chs0 = 16"
  shows "AmqpDump chs0 buf = dump_rows 0 0 False (rows buf)"
  using assms by (rule AmqpDump_rows)

theorem AmqpDump_spec_witness:
  "AmqpDump (replicate 16 7) (map of_nat [65..<83]) =
    ''000000004142434445464748 :494a4b4c4d4e4f50  ABCDEFGHIJKLMNOP'' @ endl @
    ''000000105152                   :                          QR'' @ endl @
    ''00000012'' @ endl"
proof -
  have "dump_rows 0 0 False (rows (map of_nat [65..<83])) =
    ''000000004142434445464748 :494a4b4c4d4e4f50  ABCDEFGHIJKLMNOP'' @ endl @
    ''000000105152                   :                          QR'' @ endl @
    ''00000012'' @ endl" by code_simp
  then show ?thesis using AmqpDump_spec [of "replicate 16 7" "map of_nat [65..<83]"] by simp
qed

text \<open>The suppression of repeated rows does not work: of the rows \<open>a\<close> = 1, 2, 0, ... and \<open>b\<close> = 1, 0, 0, ...
  the message \<open>a b c\<close> shows dots in place of the different row \<open>b\<close>, while \<open>a a c\<close> prints the same row twice.\<close>

theorem AmqpDump_hides_row:
  assumes "length chs0 = 16"
  shows "AmqpDump chs0 ((1 # 2 # replicate 14 0) @ (1 # replicate 15 0) @ [3]) =
      row_line 0 (1 # 2 # replicate 14 0) @ dots_line @ row_line 32 [3] @ ''00000021'' @ endl"
    and "AmqpDump chs0 ((1 # 2 # replicate 14 0) @ (1 # 2 # replicate 14 0) @ [3]) =
      row_line 0 (1 # 2 # replicate 14 0) @ row_line 16 (1 # 2 # replicate 14 0) @ row_line 32 [3] @ ''00000021'' @ endl"
  unfolding AmqpDump_rows [OF assms] by code_simp+

end
