(* ===== verification/Amqp.thy ===== *)
theory Amqp
  imports Effects Amqp_Dump
begin

section \<open>The AMQP publisher and consumer\<close>

text \<open>
  \<^verbatim>\<open>examples/rabbitmq\<close>: the error checks of \<^verbatim>\<open>common/utils/utils.cpp\<close>, the classes \<open>Publisher\<close> and
  \<open>Consumer\<close> and the two \<open>main\<close> functions.  The library \<open>rabbitmq-c\<close>, the network and the environment of the
  process are parameters.  Log lines are left out; what the programs print on \<open>std::cout\<close> is kept.
  The classes use the channel 1 of their one connection, the exchange \<open>amq.direct\<close> and the key \<open>test\<close>, fixed in
  their headers; these arguments are not repeated in the calls.
\<close>

subsection \<open>Errors\<close>

datatype server_method = ConnectionClose u16 string | ChannelClose u16 string | OtherMethod u32

datatype amqp_rpc_reply = ResponseNormal | ResponseNone | LibraryException int | ServerException server_method

text \<open>\<^term>\<open>Inl\<close> is the text of the \<open>std::runtime_error\<close> that is thrown; \<open>error_string\<close> is \<open>amqp_error_string2\<close>.\<close>

definition ThrowOnError :: "(int \<Rightarrow> string) \<Rightarrow> int \<Rightarrow> string \<Rightarrow> string + unit" where
  "ThrowOnError error_string x context_name =
    (if x < 0 then Inl (context_name @ '': '' @ error_string x) else Inr ())"

fun ThrowOnAmqpError :: "(int \<Rightarrow> string) \<Rightarrow> amqp_rpc_reply \<Rightarrow> string \<Rightarrow> string + unit" where
  "ThrowOnAmqpError error_string ResponseNormal context_name = Inr ()"
| "ThrowOnAmqpError error_string ResponseNone context_name = Inl (context_name @ '': missing RPC reply type!'')"
| "ThrowOnAmqpError error_string (LibraryException e) context_name = Inl (context_name @ '':'' @ error_string e)"
| "ThrowOnAmqpError error_string (ServerException (ConnectionClose code msg)) context_name =
     Inl (context_name @ '': server connection error '' @ dec (unat code) @ ''h, message: '' @ msg)"
| "ThrowOnAmqpError error_string (ServerException (ChannelClose code msg)) context_name =
     Inl (context_name @ '': server channel error '' @ dec (unat code) @ ''h, message: '' @ msg)"
| "ThrowOnAmqpError error_string (ServerException (OtherMethod nr)) context_name =
     Inl (context_name @ '': unknown server error, method id 0x'' @ setw (CHR ''0'') 8 (hex (unat nr)))"


subsection \<open>Time\<close>

text \<open>\<open>MicroSecNow\<close> on what \<open>gettimeofday\<close> returned, and the request \<open>MicroSleep\<close> hands to \<open>nanosleep\<close>: its product
  is computed in \<open>int\<close>.\<close>

definition MicroSecNow :: "u64 \<Rightarrow> u64 \<Rightarrow> u64" where
  "MicroSecNow tv_sec tv_usec = tv_sec * 1000000 + tv_usec"

definition MicroSleep :: "u32 \<Rightarrow> int \<times> int" where
  "MicroSleep usec = (0, sint (1000 * usec))"

text \<open>Only sleeps below one second give a valid request.\<close>

lemma MicroSleep_valid:
  assumes "usec < 1000000"
  shows "MicroSleep usec = (0, 1000 * int (unat usec))" "1000 * int (unat usec) < 10 ^ 9"
proof -
  have small: "unat usec < 1000000" using assms by (simp add: word_less_nat_alt)
  then have "unat (1000 * usec) = 1000 * unat usec"
    by (subst unat_mult_lem [THEN iffD1]) simp_all
  then have "uint (1000 * usec) = 1000 * int (unat usec)" by (metis int_ops(7) of_nat_numeral uint_nat)
  then show "MicroSleep usec = (0, 1000 * int (unat usec))"
    using small by (simp add: MicroSleep_def sint_uint signed_take_bit_int_eq_self del: of_nat_unat)
  show "1000 * int (unat usec) < 10 ^ 9" using small by (simp del: of_nat_unat)
qed


subsection \<open>Services\<close>

type_synonym connection = nat

record envelope =
  delivery_tag :: u64
  env_exchange :: string
  env_routing_key :: string
  content_type :: "string option"
  env_body :: "u8 list"

record 'w amqp_api =
  amqp_error_string2 :: "int \<Rightarrow> string"
  wait_for_iface :: "'w \<Rightarrow> bool \<times> 'w"
  amqp_new_connection :: "'w \<Rightarrow> connection option \<times> 'w"
  amqp_tcp_socket_new :: "connection \<Rightarrow> 'w \<Rightarrow> nat option \<times> 'w"
  amqp_socket_open :: "nat \<Rightarrow> string \<Rightarrow> int \<Rightarrow> 'w \<Rightarrow> int \<times> 'w"
  amqp_login :: "connection \<Rightarrow> 'w \<Rightarrow> amqp_rpc_reply \<times> 'w"
  amqp_channel_open :: "connection \<Rightarrow> 'w \<Rightarrow> unit \<times> 'w"
  amqp_get_rpc_reply :: "connection \<Rightarrow> 'w \<Rightarrow> amqp_rpc_reply \<times> 'w"
  amqp_queue_declare :: "connection \<Rightarrow> 'w \<Rightarrow> string option \<times> 'w"
  amqp_bytes_malloc_dup :: "string \<Rightarrow> 'w \<Rightarrow> string option \<times> 'w"
  amqp_queue_bind :: "connection \<Rightarrow> string \<Rightarrow> 'w \<Rightarrow> unit \<times> 'w"
  amqp_basic_consume :: "connection \<Rightarrow> string \<Rightarrow> 'w \<Rightarrow> unit \<times> 'w"
  amqp_maybe_release_buffers :: "connection \<Rightarrow> 'w \<Rightarrow> unit \<times> 'w"
  amqp_consume_message :: "connection \<Rightarrow> 'w \<Rightarrow> (amqp_rpc_reply \<times> envelope) \<times> 'w"
  amqp_destroy_envelope :: "envelope \<Rightarrow> 'w \<Rightarrow> unit \<times> 'w"
  amqp_basic_publish :: "connection \<Rightarrow> string \<Rightarrow> 'w \<Rightarrow> int \<times> 'w"
  amqp_bytes_free :: "string option \<Rightarrow> 'w \<Rightarrow> unit \<times> 'w"
  amqp_channel_close :: "connection \<Rightarrow> 'w \<Rightarrow> unit \<times> 'w"
  amqp_connection_close :: "connection \<Rightarrow> 'w \<Rightarrow> unit \<times> 'w"
  amqp_destroy_connection :: "connection \<Rightarrow> 'w \<Rightarrow> unit \<times> 'w"

datatype amqp_event =
    NetworkReady bool
  | ConnectionNew "connection option"
  | SocketNew connection "nat option"
  | SocketOpened nat string int int
  | LoggedIn connection amqp_rpc_reply
  | ChannelOpened connection unit
  | RpcReply connection amqp_rpc_reply
  | QueueDeclared connection "string option"
  | BytesCopied string "string option"
  | QueueBound connection string unit
  | ConsumeStarted connection string unit
  | BuffersReleased connection unit
  | MessageRead connection "amqp_rpc_reply \<times> envelope"
  | EnvelopeDestroyed envelope unit
  | Published connection string int
  | Printed string
  | BytesFreed "string option" unit
  | ChannelClosed connection unit
  | ConnectionClosed connection unit
  | ConnectionDestroyed connection unit

type_synonym ('w, 'a) amqp_io = "('w, amqp_event, 'a) io"

text \<open>How a program ends: by an exit code, by an exception that nobody catches, or by undefined behaviour (the
  use of a null pointer).\<close>

datatype outcome = Exit int | Terminated | Undefined


subsection \<open>Connecting\<close>

text \<open>The constructors of \<open>Publisher\<close> and \<open>Consumer\<close> have the same body.\<close>

record amqp_object =
  m_conn :: connection
  m_socket :: nat
  m_status :: int

record Consumer = amqp_object +
  m_queueName :: "string option"

definition connect_amqp :: "'w amqp_api \<Rightarrow> string \<Rightarrow> int \<Rightarrow> ('w, string + connection \<times> nat \<times> int) amqp_io" where
  "connect_amqp api hostname port = do {
     conn \<leftarrow> call ConnectionNew (amqp_new_connection api);
     (case conn of None \<Rightarrow> io_return (Inl ''Allocation error for connection object'')
      | Some conn \<Rightarrow> do {
          socket \<leftarrow> call (SocketNew conn) (amqp_tcp_socket_new api conn);
          (case socket of None \<Rightarrow> io_return (Inl ''Error creating TCP socket'')
           | Some socket \<Rightarrow> do {
               status \<leftarrow> call (SocketOpened socket hostname port) (amqp_socket_open api socket hostname port);
               if status \<noteq> 0
               then io_return (Inl (''Error opening broker connection socket with address: '' @ hostname @
                      '' port: '' @ (if port < 0 then ''-'' else []) @ dec (nat \<bar>port\<bar>)))
               else do {
                 reply \<leftarrow> call (LoggedIn conn) (amqp_login api conn);
                 (case ThrowOnAmqpError (amqp_error_string2 api) reply ''Logging in'' of
                    Inl e \<Rightarrow> io_return (Inl e)
                  | Inr _ \<Rightarrow> do {
                      _ \<leftarrow> call (ChannelOpened conn) (amqp_channel_open api conn);
                      reply \<leftarrow> call (RpcReply conn) (amqp_get_rpc_reply api conn);
                      (case ThrowOnAmqpError (amqp_error_string2 api) reply ''Opening channel'' of
                         Inl e \<Rightarrow> io_return (Inl e)
                       | Inr _ \<Rightarrow> io_return (Inr (conn, socket, status))) }) } }) }) }"

definition Publisher_new :: "'w amqp_api \<Rightarrow> string \<Rightarrow> int \<Rightarrow> ('w, string + amqp_object) amqp_io" where
  "Publisher_new api hostname port = do {
     r \<leftarrow> connect_amqp api hostname port;
     io_return (case r of Inl e \<Rightarrow> Inl e
       | Inr (conn, socket, status) \<Rightarrow> Inr \<lparr>m_conn = conn, m_socket = socket, m_status = status\<rparr>) }"

definition Consumer_new :: "'w amqp_api \<Rightarrow> string \<Rightarrow> int \<Rightarrow> ('w, string + Consumer) amqp_io" where
  "Consumer_new api hostname port = do {
     r \<leftarrow> connect_amqp api hostname port;
     io_return (case r of Inl e \<Rightarrow> Inl e
       | Inr (conn, socket, status) \<Rightarrow>
           Inr \<lparr>m_conn = conn, m_socket = socket, m_status = status, m_queueName = None\<rparr>) }"

definition Publisher_delete :: "'w amqp_api \<Rightarrow> amqp_object \<Rightarrow> ('w, unit) amqp_io" where
  "Publisher_delete api p = do {
     _ \<leftarrow> call (ChannelClosed (m_conn p)) (amqp_channel_close api (m_conn p));
     _ \<leftarrow> call (ConnectionClosed (m_conn p)) (amqp_connection_close api (m_conn p));
     call (ConnectionDestroyed (m_conn p)) (amqp_destroy_connection api (m_conn p)) }"



subsection \<open>Publishing\<close>

definition AppTag_publisher :: string where "AppTag_publisher = ''Publisher''"

text \<open>The body of message \<open>k\<close>, counted from 1.\<close>

definition messageBody :: "nat \<Rightarrow> string" where
  "messageBody k = ''{'' @ [CHR 0x22] @ ''sequence'' @ [CHR 0x22] @ ''='' @ dec k @ ''}''"

fun SendData_loop :: "'w amqp_api \<Rightarrow> amqp_object \<Rightarrow> nat list \<Rightarrow> ('w, string + unit) amqp_io" where
  "SendData_loop api p [] = io_return (Inr ())"
| "SendData_loop api p (i # is) = do {
     _ \<leftarrow> emit (Printed (AppTag_publisher @ messageBody (i + 1) @ [CHR 0x0A, CHR 0x0D]));
     x \<leftarrow> call (Published (m_conn p) (messageBody (i + 1)))
            (amqp_basic_publish api (m_conn p) (messageBody (i + 1)));
     (case ThrowOnError (amqp_error_string2 api) x ''Publishing'' of
        Inl e \<Rightarrow> io_return (Inl e)
      | Inr _ \<Rightarrow> SendData_loop api p is) }"

definition SendData :: "'w amqp_api \<Rightarrow> amqp_object \<Rightarrow> ('w, string + unit) amqp_io" where
  "SendData api p = SendData_loop api p [0..<100]"


subsection \<open>Consuming\<close>

text \<open>What a call that may throw, or use a null pointer, ends with.\<close>

datatype failure = Throws string | NullPointer






subsection \<open>The programs\<close>

text \<open>\<open>std::stoi\<close>, and the port as both programs read it: an exception other than \<open>std::invalid_argument\<close> is
  not caught there, and a string made of a null pointer is undefined behaviour.\<close>

datatype stoi_error = InvalidArgument | OutOfRange

definition isspace :: "char \<Rightarrow> bool" where
  "isspace c \<longleftrightarrow> c \<in> set [CHR '' '', CHR 0x09, CHR 0x0A, CHR 0x0B, CHR 0x0C, CHR 0x0D]"

definition isdigit_char :: "char \<Rightarrow> bool" where
  "isdigit_char c \<longleftrightarrow> 48 \<le> (of_char c :: nat) \<and> (of_char c :: nat) \<le> 57"

definition digits_value :: "string \<Rightarrow> int" where
  "digits_value ds = foldl (\<lambda>v d. 10 * v + (of_char d - 48)) 0 ds"

definition stoi :: "string \<Rightarrow> stoi_error + int" where
  "stoi s =
    (let s = dropWhile isspace s;
         (neg, s) = (case s of c # cs \<Rightarrow> if c = CHR ''-'' then (True, cs) else if c = CHR ''+'' then (False, cs) else (False, s)
                     | [] \<Rightarrow> (False, s));
         ds = takeWhile isdigit_char s;
         v = (if neg then - digits_value ds else digits_value ds)
     in if ds = [] then Inl InvalidArgument
        else if v < - (2 ^ 31) \<or> 2 ^ 31 - 1 < v then Inl OutOfRange else Inr v)"

definition DefaultPort :: int where "DefaultPort = 5672"

definition brokerPort :: "string option \<Rightarrow> outcome + int" where
  "brokerPort value = (case value of None \<Rightarrow> Inl Undefined
     | Some s \<Rightarrow> (case stoi s of Inr v \<Rightarrow> Inr v
         | Inl InvalidArgument \<Rightarrow> Inr DefaultPort
         | Inl OutOfRange \<Rightarrow> Inl Terminated))"

text \<open>The object is destroyed when the \<open>try\<close> block is left, by an exception too, but not when its constructor threw.\<close>

definition main_publisher :: "'w amqp_api \<Rightarrow> (string \<Rightarrow> string option) \<Rightarrow> ('w, outcome) amqp_io" where
  "main_publisher api getenv = do {
     ready \<leftarrow> call NetworkReady (wait_for_iface api);
     if \<not> ready then io_return (Exit EXIT_FAILURE)
     else (case getenv ''AMQP_BROKER_ADDRESS'' of
         None \<Rightarrow> io_return (Exit EXIT_FAILURE)
       | Some brokerAddress \<Rightarrow>
         (case brokerPort (getenv ''AMQP_BROKER_PORT'') of
            Inl r \<Rightarrow> io_return r
          | Inr port \<Rightarrow> do {
              pub \<leftarrow> Publisher_new api brokerAddress port;
              (case pub of Inl e \<Rightarrow> io_return (Exit EXIT_FAILURE)
               | Inr p \<Rightarrow> do {
                   r \<leftarrow> SendData api p;
                   _ \<leftarrow> Publisher_delete api p;
                   io_return (Exit (case r of Inl e \<Rightarrow> EXIT_FAILURE | Inr _ \<Rightarrow> EXIT_SUCCESS)) }) })) }"



subsection \<open>Vocabulary of the contracts\<close>

text \<open>The events of setting up: nothing is printed, published, read or closed.\<close>

fun setup_event :: "amqp_event \<Rightarrow> bool" where
  "setup_event (MessageRead _ _) = False"
| "setup_event (Published _ _ _) = False"
| "setup_event (Printed _) = False"
| "setup_event (BytesFreed _ _) = False"
| "setup_event (ChannelClosed _ _) = False"
| "setup_event (ConnectionClosed _ _) = False"
| "setup_event (ConnectionDestroyed _ _) = False"
| "setup_event _ = True"

text \<open>The trace of publishing the messages \<open>is\<close> with the results \<open>sts\<close>.\<close>

definition sent :: "connection \<Rightarrow> nat list \<Rightarrow> int list \<Rightarrow> amqp_event list" where
  "sent c is sts = concat (map (\<lambda>(i, st).
     [Printed (''Publisher'' @ messageBody (i + 1) @ [CHR 0x0A, CHR 0x0D]), Published c (messageBody (i + 1)) st]) (zip is sts))"


text \<open>What a loop of publishing ends with: all sent, or stopped at the first error.\<close>

fun all_sent :: "nat \<Rightarrow> int list \<Rightarrow> bool" where
  "all_sent n sts \<longleftrightarrow> length sts = n \<and> list_all (\<lambda>s. 0 \<le> s) sts"

fun stopped :: "nat \<Rightarrow> int list \<Rightarrow> bool" where
  "stopped n sts \<longleftrightarrow> sts \<noteq> [] \<and> length sts \<le> n \<and> list_all (\<lambda>s. 0 \<le> s) (butlast sts) \<and> last sts < 0"


subsection \<open>Contracts\<close>

lemma ThrowOnAmqpError_Inr [simp]: "ThrowOnAmqpError f r ctx = Inr u \<longleftrightarrow> r = ResponseNormal"
  by (induction f r ctx rule: ThrowOnAmqpError.induct) auto

lemma ThrowOnError_cases: "ThrowOnError f x ctx = Inr u \<longleftrightarrow> 0 \<le> x" "ThrowOnError f x ctx = Inl e \<Longrightarrow> x < 0"
  by (auto simp: ThrowOnError_def split: if_splits)

definition connected :: "connection \<Rightarrow> amqp_event list \<Rightarrow> bool" where
  "connected c es \<longleftrightarrow> list_all setup_event es \<and>
     (\<exists>pre. es = pre @ [LoggedIn c ResponseNormal, ChannelOpened c (), RpcReply c ResponseNormal])"

lemma connected_Cons: "connected c es \<Longrightarrow> setup_event e \<Longrightarrow> connected c (e # es)"
  by (auto simp: connected_def)

lemma brokerPort_Inl: "brokerPort v = Inl r \<Longrightarrow> r \<noteq> Exit code"
  by (auto simp: brokerPort_def split: option.splits sum.splits stoi_error.splits)

lemma connect_amqp_post:
  "io_post (connect_amqp api hostname port) (\<lambda>r es. list_all setup_event es \<and>
     (case r of Inl _ \<Rightarrow> True | Inr (c, _, _) \<Rightarrow> connected c es))"
  unfolding connect_amqp_def by (intro io_rules) (auto simp: connected_def)

lemma Publisher_new_post:
  "io_post (Publisher_new api hostname port) (\<lambda>r es. list_all setup_event es \<and>
     (case r of Inl _ \<Rightarrow> True | Inr p \<Rightarrow> connected (m_conn p) es))"
  unfolding Publisher_new_def
  by (intro io_rules io_post_bind [OF connect_amqp_post]) (auto split: sum.splits)


lemma SendData_loop_post:
  "io_post (SendData_loop api p is) (\<lambda>r es. \<exists>sts. es = sent (m_conn p) is sts \<and>
     (case r of Inr _ \<Rightarrow> all_sent (length is) sts | Inl _ \<Rightarrow> stopped (length is) sts))"
proof (induction "is")
  case Nil
  show ?case by (auto intro!: io_rules simp: sent_def)
next
  case (Cons i "is")
  have more: "\<exists>sts'. Printed (AppTag_publisher @ messageBody (i + 1) @ [CHR 0x0A, CHR 0x0D]) #
       Published (m_conn p) (messageBody (i + 1)) x # es = sent (m_conn p) (i # is) sts' \<and>
     (case r of Inr _ \<Rightarrow> all_sent (length (i # is)) sts' | Inl _ \<Rightarrow> stopped (length (i # is)) sts')"
    if "0 \<le> x" "es = sent (m_conn p) is sts" "case r of Inr _ \<Rightarrow> all_sent (length is) sts | Inl _ \<Rightarrow> stopped (length is) sts"
    for x es sts and r :: "string + unit"
    using that by (intro exI [of _ "x # sts"]) (auto simp: sent_def AppTag_publisher_def split: sum.splits)
  have stop: "\<exists>sts'. [Printed (AppTag_publisher @ messageBody (i + 1) @ [CHR 0x0A, CHR 0x0D]),
       Published (m_conn p) (messageBody (i + 1)) x] = sent (m_conn p) (i # is) sts' \<and> stopped (length (i # is)) sts'"
    if "x < 0" for x
    using that by (intro exI [of _ "[x]"]) (auto simp: sent_def AppTag_publisher_def)
  show ?case unfolding SendData_loop.simps
    by (intro io_rules io_post_mono [OF Cons.IH])
      (use stop more ThrowOnError_cases in \<open>auto simp del: all_sent.simps stopped.simps\<close>)
qed

lemma SendData_post:
  "io_post (SendData api p) (\<lambda>r es. \<exists>sts. es = sent (m_conn p) [0..<100] sts \<and>
     (case r of Inr _ \<Rightarrow> all_sent 100 sts | Inl _ \<Rightarrow> stopped 100 sts))"
  using SendData_loop_post [of api p "[0..<100]"] unfolding SendData_def length_upt diff_zero .

text \<open>C13: The publisher, whatever the library and the broker answer: it publishes only on a channel that was opened
  after a successful login, one message \<open>{"sequence"=k}\<close> after the other for \<open>k\<close> from 1 on, each printed
  before it is sent, up to 100 of them or up to the first error, and then closes the channel and the
  connection and destroys the connection.  It exits with success exactly when all 100 were accepted.  When
  it does not get that far nothing is printed, published or closed.\<close>

theorem main_publisher_spec:
  assumes "run_io (main_publisher api getenv) w = (r, es)"
  shows "(r \<noteq> Exit EXIT_SUCCESS \<and> list_all setup_event es) \<or>
    (\<exists>c start sts. connected c start \<and>
       es = start @ sent c [0..<100] sts @ [ChannelClosed c (), ConnectionClosed c (), ConnectionDestroyed c ()] \<and>
       (r = Exit EXIT_SUCCESS \<and> all_sent 100 sts \<or> r = Exit EXIT_FAILURE \<and> stopped 100 sts))"
proof -
  define Q where "Q = (\<lambda>r es. (r \<noteq> Exit EXIT_SUCCESS \<and> list_all setup_event es) \<or>
    (\<exists>c start sts. connected c start \<and>
       es = start @ sent c [0..<100] sts @ [ChannelClosed c (), ConnectionClosed c (), ConnectionDestroyed c ()] \<and>
       (r = Exit EXIT_SUCCESS \<and> all_sent 100 sts \<or> r = Exit EXIT_FAILURE \<and> stopped 100 sts)))"
  have failed: "Q r es" if "r \<noteq> Exit EXIT_SUCCESS" "list_all setup_event es" for r es
    using that by (auto simp: Q_def)
  have done_: "Q (Exit (case x of Inl e \<Rightarrow> EXIT_FAILURE | Inr _ \<Rightarrow> EXIT_SUCCESS))
      (NetworkReady b # start @ sent c [0..<100] sts @ [ChannelClosed c (), ConnectionClosed c (), ConnectionDestroyed c ()])"
    if "connected c start" "case x of Inr _ \<Rightarrow> all_sent 100 sts | Inl _ \<Rightarrow> stopped 100 sts"
    for c b start sts and x :: "string + unit"
    unfolding Q_def using connected_Cons [OF that(1), of "NetworkReady b"] that(2)
    by (intro disjI2 exI [of _ c] exI [of _ "NetworkReady b # start"] exI [of _ sts])
      (auto split: sum.splits simp del: all_sent.simps stopped.simps)
  have "io_post (main_publisher api getenv) Q"
    unfolding main_publisher_def Publisher_delete_def bind_assoc
    by (intro io_rules io_post_bind [OF Publisher_new_post] io_post_bind [OF SendData_post])
      (auto simp: failed brokerPort_Inl done_ simp del: all_sent.simps stopped.simps)
  from io_post_run [OF this assms] show ?thesis unfolding Q_def .
qed

text \<open>A library and a broker that accept everything, deliver two messages and then fail.\<close>

definition demo_amqp :: "nat amqp_api" where
  "demo_amqp = \<lparr>amqp_error_string2 = (\<lambda>_. ''error''), wait_for_iface = (\<lambda>w. (True, w)),
     amqp_new_connection = (\<lambda>w. (Some 5, w)), amqp_tcp_socket_new = (\<lambda>_ w. (Some 9, w)),
     amqp_socket_open = (\<lambda>_ _ _ w. (0, w)), amqp_login = (\<lambda>_ w. (ResponseNormal, w)),
     amqp_channel_open = (\<lambda>_ w. ((), w)), amqp_get_rpc_reply = (\<lambda>_ w. (ResponseNormal, w)),
     amqp_queue_declare = (\<lambda>_ w. (Some ''q'', w)), amqp_bytes_malloc_dup = (\<lambda>s w. (Some s, w)),
     amqp_queue_bind = (\<lambda>_ _ w. ((), w)), amqp_basic_consume = (\<lambda>_ _ w. ((), w)),
     amqp_maybe_release_buffers = (\<lambda>_ w. ((), w)),
     amqp_consume_message = (\<lambda>_ w. ((if w < 2 then ResponseNormal else ResponseNone,
        \<lparr>delivery_tag = of_nat (Suc w), env_exchange = ''amq.direct'', env_routing_key = ''test'', content_type = None,
          env_body = map of_char (messageBody (Suc w))\<rparr>), Suc w)),
     amqp_destroy_envelope = (\<lambda>_ w. ((), w)), amqp_basic_publish = (\<lambda>_ _ w. (0, w)),
     amqp_bytes_free = (\<lambda>_ w. ((), w)), amqp_channel_close = (\<lambda>_ w. ((), w)),
     amqp_connection_close = (\<lambda>_ w. ((), w)), amqp_destroy_connection = (\<lambda>_ w. ((), w))\<rparr>"

definition demo_env :: "string \<Rightarrow> string option" where
  "demo_env name = (if name = ''AMQP_BROKER_ADDRESS'' then Some ''10.0.2.2''
     else if name = ''AMQP_BROKER_PORT'' then Some ''5672'' else None)"

lemma demo_port:
  "demo_env ''AMQP_BROKER_ADDRESS'' = Some ''10.0.2.2''" "brokerPort (demo_env ''AMQP_BROKER_PORT'') = Inr 5672"
  by code_simp+

lemma demo_connected:
  "wait_for_iface demo_amqp = Pair True"
  "fst (run_state (Publisher_new demo_amqp host port) s) = Inr \<lparr>m_conn = 5, m_socket = 9, m_status = 0\<rparr>"
  "fst (run_state (Consumer_new demo_amqp host port) s) = Inr \<lparr>m_conn = 5, m_socket = 9, m_status = 0, m_queueName = None\<rparr>"
  by (simp_all add: Publisher_new_def Consumer_new_def connect_amqp_def split_beta) (simp_all add: demo_amqp_def)

theorem main_publisher_spec_witness:
  "\<exists>es sts. run_io (main_publisher demo_amqp demo_env) 0 = (Exit EXIT_SUCCESS, es) \<and> all_sent 100 sts \<and>
    (\<exists>c start. es = start @ sent c [0..<100] sts @ [ChannelClosed c (), ConnectionClosed c (), ConnectionDestroyed c ()])"
proof -
  have loop: "fst (run_state (SendData_loop demo_amqp p is) s) = Inr ()" for p "is" s
    by (induction "is" arbitrary: s) (simp_all add: demo_amqp_def ThrowOnError_def)
  obtain r es where run: "run_io (main_publisher demo_amqp demo_env) 0 = (r, es)" by fastforce
  moreover have "fst (run_io (main_publisher demo_amqp demo_env) 0) = Exit EXIT_SUCCESS"
    using demo_port demo_connected by (simp add: run_io_def main_publisher_def loop SendData_def split_beta)
  ultimately have "r = Exit EXIT_SUCCESS" by simp
  with main_publisher_spec [OF run] run show ?thesis by auto
qed





lemma io_post_case_failure [io_rules]:
  "(\<And>e. x = Throws e \<Longrightarrow> io_post (f e) Q) \<Longrightarrow> (x = NullPointer \<Longrightarrow> io_post g Q) \<Longrightarrow>
    io_post (case x of Throws e \<Rightarrow> f e | NullPointer \<Rightarrow> g) Q"
  by (cases x) simp_all





end
