(* ===== verification/Resolver.thy ===== *)
theory Resolver
  imports Effects "HOL-Library.Multiset"
begin

section \<open>The name resolver\<close>

text \<open>
  \<^verbatim>\<open>examples/c-ares/resolver/src/resolver.cpp\<close>: the class \<open>Resolver\<close> with its two threads.  The thread of the IPC loop runs
  \<open>Resolve\<close> and, at the end, the destructor; the service thread runs \<open>ServeRequests\<close>.  They meet in the list
  of requests, under its mutex and condition variable, and in the library c-ares, which is
  a parameter.  A step of the model is what a thread does between two points at which the
  other one can interfere: a block under the mutex, a call of the library, a notification, and the two
  halves of \<open>OnResolved\<close>, which runs without the mutex.
\<close>

subsection \<open>Printing an address\<close>

text \<open>\<open>std::to_string\<close> of a \<open>char\<close>, whose signedness depends on the platform.\<close>

definition octet_string :: "bool \<Rightarrow> u8 \<Rightarrow> string" where
  "octet_string char_signed b =
    (let v = (if char_signed then sint b else uint b)
     in (if v < 0 then ''-'' else []) @ dec (nat \<bar>v\<bar>))"

text \<open>The loop over the octets and \<open>pop_back\<close>.\<close>

definition address_string :: "bool \<Rightarrow> u8 list \<Rightarrow> string" where
  "address_string char_signed octets =
    butlast (foldl (\<lambda>addr i. addr @ octet_string char_signed (octets ! i) @ ''.'') [] [0..<4])"


subsection \<open>Polling\<close>

text \<open>The macros of \<open>ares.h\<close> and \<open>poll.h\<close> that the code uses.\<close>

definition ARES_GETSOCK_MAXNUM :: nat where "ARES_GETSOCK_MAXNUM = 16"

definition ARES_GETSOCK_READABLE :: "u32 \<Rightarrow> nat \<Rightarrow> bool" where
  "ARES_GETSOCK_READABLE bits num \<longleftrightarrow> bit bits num"

definition ARES_GETSOCK_WRITABLE :: "u32 \<Rightarrow> nat \<Rightarrow> bool" where
  "ARES_GETSOCK_WRITABLE bits num \<longleftrightarrow> bit bits (num + ARES_GETSOCK_MAXNUM)"

record pollfd =
  fd :: int
  pollin :: bool
  pollout :: bool

text \<open>The loop from index \<open>i\<close> on: the descriptors filled in.\<close>

function FillPollDescriptors_loop :: "u32 \<Rightarrow> (nat \<Rightarrow> int) \<Rightarrow> nat \<Rightarrow> nat \<Rightarrow> pollfd list" where
  "FillPollDescriptors_loop bitmask socks maxSocksNum i =
    (if i < maxSocksNum
     then if \<not> ARES_GETSOCK_READABLE bitmask i \<and> \<not> ARES_GETSOCK_WRITABLE bitmask i then []
          else \<lparr>fd = socks i, pollin = ARES_GETSOCK_READABLE bitmask i, pollout = ARES_GETSOCK_WRITABLE bitmask i\<rparr>
            # FillPollDescriptors_loop bitmask socks maxSocksNum (i + 1)
     else [])"
  by pat_completeness auto
termination
  by (relation "measure (\<lambda>(_, _, m, i). m - i)") auto

declare FillPollDescriptors_loop.simps [simp del]

definition FillPollDescriptors :: "u32 \<Rightarrow> (nat \<Rightarrow> int) \<Rightarrow> nat \<Rightarrow> pollfd list" where
  "FillPollDescriptors bitmask socks sz = FillPollDescriptors_loop bitmask socks (min sz ARES_GETSOCK_MAXNUM) 0"

text \<open>The timeout in milliseconds, rounded towards zero and cast to \<open>int\<close>.  \<open>ares_timeout\<close> was given no
  maximum, so it returns a null pointer (\<^term>\<open>None\<close>) when no query can time out; the code does not test for it.\<close>

definition GetTimeout :: "(int \<times> int) option \<Rightarrow> int option" where
  "GetTimeout tvp = map_option (\<lambda>(tv_sec, tv_usec).
     let us = tv_usec + tv_sec * 1000000
     in signed_take_bit 31 (if us < 0 then - ((- us) div 1000) else us div 1000)) tvp"

definition ARES_SOCKET_BAD :: int where "ARES_SOCKET_BAD = -1"

text \<open>The arguments of the calls of \<open>ares_process_fd\<close> after \<open>poll\<close> returned: \<open>revents i\<close> says whether descriptor \<open>i\<close> is
  readable and writable.\<close>

definition process_calls :: "int \<Rightarrow> pollfd list \<Rightarrow> (nat \<Rightarrow> bool \<times> bool) \<Rightarrow> (int \<times> int) list" where
  "process_calls pollResult descriptors revents =
    (if pollResult > 0
     then map (\<lambda>i. (if fst (revents i) then fd (descriptors ! i) else ARES_SOCKET_BAD,
                    if snd (revents i) then fd (descriptors ! i) else ARES_SOCKET_BAD)) [0..<length descriptors]
     else [(ARES_SOCKET_BAD, ARES_SOCKET_BAD)])"

text \<open>The calls of one round of the loop in \<open>ServeRequests\<close>.  \<open>poll\<close> returns its result and fills in \<open>revents\<close>.\<close>

datatype round_event =
    SocketsAsked "u32 \<times> (nat \<Rightarrow> int)"
  | TimeoutAsked "(int \<times> int) option"
  | Polled "pollfd list" int "int \<times> (nat \<Rightarrow> bool \<times> bool)"
  | FdProcessed int int unit
  | Cancelled unit

record 'w round_api =
  ares_getsock :: "nat \<Rightarrow> 'w \<Rightarrow> (u32 \<times> (nat \<Rightarrow> int)) \<times> 'w"
  ares_timeout :: "'w \<Rightarrow> (int \<times> int) option \<times> 'w"
  poll_fds :: "pollfd list \<Rightarrow> int \<Rightarrow> 'w \<Rightarrow> (int \<times> (nat \<Rightarrow> bool \<times> bool)) \<times> 'w"
  ares_process_fd :: "int \<Rightarrow> int \<Rightarrow> 'w \<Rightarrow> unit \<times> 'w"
  ares_cancel :: "'w \<Rightarrow> unit \<times> 'w"

fun process_fds :: "'w round_api \<Rightarrow> (int \<times> int) list \<Rightarrow> ('w, round_event, unit) io" where
  "process_fds api [] = io_return ()"
| "process_fds api ((fdRead, fdWrite) # calls) = do {
     _ \<leftarrow> call (FdProcessed fdRead fdWrite) (ares_process_fd api fdRead fdWrite);
     process_fds api calls }"

text \<open>The body of the loop; \<^term>\<open>False\<close> is the use of the null pointer in \<open>GetTimeout\<close>.\<close>

definition ServeRequests_round :: "'w round_api \<Rightarrow> ('w, round_event, bool) io" where
  "ServeRequests_round api = do {
     (bitmask, socks) \<leftarrow> call SocketsAsked (ares_getsock api ARES_GETSOCK_MAXNUM);
     let descriptors = FillPollDescriptors bitmask socks ARES_GETSOCK_MAXNUM;
     if descriptors = [] then io_return True
     else do {
       tvp \<leftarrow> call TimeoutAsked (ares_timeout api);
       (case GetTimeout tvp of None \<Rightarrow> io_return False
        | Some timeout \<Rightarrow> do {
            (pollResult, revents) \<leftarrow> call (Polled descriptors timeout) (poll_fds api descriptors timeout);
            _ \<leftarrow> process_fds api (process_calls pollResult descriptors revents);
            _ \<leftarrow> (if pollResult < 0 then call Cancelled (ares_cancel api) else io_return ());
            io_return True }) } }"


subsection \<open>Requests\<close>

text \<open>A callback is known by a number.  A request is a node of the list \<open>m_requests\<close>; its address is given to the
  library.  \<^term>\<open>None\<close> is the null callback that is left when the callback was moved out.\<close>

type_synonym callback = nat

record request =
  req_node :: nat
  req_name :: string
  req_callback :: "callback option"

datatype answer = Found string "u8 list" | NotFound

text \<open>Where the threads are.\<close>

datatype ipc_point =
    IpcIdle
  | Added nat
  | IpcAnswering nat callback answer
  | AddNotify
  | ShutdownNotify
  | Joining
  | Joined

datatype service_point =
    Checking
  | Waiting
  | Woken
  | Serving
  | Processing
  | Answering nat callback answer
  | Exited

text \<open>The object, the queries the library has not answered yet, the threads, and two records for the
  theorems: the requests accepted by \<open>Resolve\<close> and the calls of \<open>OnResolve\<close>, with callback, name and
  address.  \<open>crashed\<close> marks the use of a freed node or of a null callback.\<close>

record resolver =
  m_requests :: "request list"
  m_active :: bool
  queries :: "nat list"
  fresh_node :: nat
  ipc :: ipc_point
  service :: service_point
  accepted :: "(callback \<times> string) list"
  answered :: "(callback \<times> string \<times> string) list"
  crashed :: bool

definition initial :: resolver where
  "initial = \<lparr>m_requests = [], m_active = True, queries = [], fresh_node = 0, ipc = IpcIdle, service = Checking,
     accepted = [], answered = [], crashed = False\<rparr>"

definition find_node :: "nat \<Rightarrow> request list \<Rightarrow> request option" where
  "find_node n rs = List.find (\<lambda>r. req_node r = n) rs"

text \<open>\<open>OnResolved\<close> up to the move of the callback out of the request.\<close>

definition OnResolved_take :: "nat \<Rightarrow> resolver \<Rightarrow> callback option \<times> resolver" where
  "OnResolved_take n s = (case find_node n (m_requests s) of
       None \<Rightarrow> (None, s\<lparr>crashed := True\<rparr>)
     | Some r \<Rightarrow> (req_callback r, s\<lparr>m_requests := map (\<lambda>r. if req_node r = n then r\<lparr>req_callback := None\<rparr> else r) (m_requests s),
         crashed := crashed s \<or> req_callback r = None\<rparr>))"

text \<open>The rest of \<open>OnResolved\<close>; in the error case it reads the name from the request.\<close>

definition OnResolved_call :: "bool \<Rightarrow> nat \<Rightarrow> callback \<Rightarrow> answer \<Rightarrow> resolver \<Rightarrow> resolver" where
  "OnResolved_call char_signed n cb ans s = (case ans of
       Found h_name octets \<Rightarrow> s\<lparr>answered := answered s @ [(cb, h_name, address_string char_signed octets)]\<rparr>
     | NotFound \<Rightarrow> (case find_node n (m_requests s) of
           None \<Rightarrow> s\<lparr>crashed := True\<rparr>
         | Some r \<Rightarrow> s\<lparr>answered := answered s @ [(cb, req_name r, ''Lookup failed'')]\<rparr>))"

text \<open>\<open>HasRequests\<close>: the block before the wait, and the test after a wake-up.\<close>

definition HasRequests_result :: "resolver \<Rightarrow> resolver" where
  "HasRequests_result s = s\<lparr>service := (if m_requests s \<noteq> [] then Serving else Exited)\<rparr>"

definition HasRequests_check :: "resolver \<Rightarrow> resolver" where
  "HasRequests_check s =
    (let s = s\<lparr>m_requests := filter (\<lambda>r. req_callback r \<noteq> None) (m_requests s)\<rparr>
     in if m_requests s = [] \<and> m_active s then s\<lparr>service := Waiting\<rparr> else HasRequests_result s)"

definition HasRequests_woken :: "resolver \<Rightarrow> resolver" where
  "HasRequests_woken s =
    (if m_requests s \<noteq> [] \<or> \<not> m_active s then HasRequests_result s else s\<lparr>service := Waiting\<rparr>)"

definition notify_one :: "resolver \<Rightarrow> resolver" where
  "notify_one s = (if service s = Waiting then s\<lparr>service := Woken\<rparr> else s)"

text \<open>\<open>Resolve\<close> and the block of \<open>AddRequest\<close> under the mutex; \<^term>\<open>Inl\<close> is the exception for an empty name.\<close>

definition AddRequest_emplace :: "string \<Rightarrow> callback \<Rightarrow> resolver \<Rightarrow> resolver" where
  "AddRequest_emplace nm cb s = s\<lparr>
     m_requests := m_requests s @ [\<lparr>req_node = fresh_node s, req_name = nm, req_callback = Some cb\<rparr>],
     fresh_node := fresh_node s + 1, ipc := Added (fresh_node s), accepted := accepted s @ [(cb, nm)]\<rparr>"

definition Resolve :: "string \<Rightarrow> callback \<Rightarrow> resolver \<Rightarrow> string + resolver" where
  "Resolve nm cb s = (if nm = [] then Inl ''Empty host name'' else Inr (AddRequest_emplace nm cb s))"

definition Shutdown :: "resolver \<Rightarrow> resolver" where
  "Shutdown s = s\<lparr>m_active := False, ipc := ShutdownNotify\<rparr>"

text \<open>
  The steps.  \<open>sync\<close> says whether the library may call \<open>OnResolved\<close> from within \<open>ares_gethostbyname\<close>.  It answers a query
  at most once, from \<open>ares_process_fd\<close> or \<open>ares_cancel\<close>, which both run in the loop of the service thread; it may
  report any sockets and \<open>poll\<close> may return anything.
\<close>

inductive step :: "bool \<Rightarrow> bool \<Rightarrow> resolver \<Rightarrow> resolver \<Rightarrow> bool" for char_signed sync where
  resolve: "ipc s = IpcIdle \<Longrightarrow> Resolve nm cb s = Inr s' \<Longrightarrow> step char_signed sync s s'"
| gethostbyname: "ipc s = Added n \<Longrightarrow> step char_signed sync s (s\<lparr>queries := queries s @ [n], ipc := AddNotify\<rparr>)"
| answer_now: "sync \<Longrightarrow> ipc s = Added n \<Longrightarrow> OnResolved_take n s = (Some cb, s') \<Longrightarrow>
    step char_signed sync s (s'\<lparr>ipc := IpcAnswering n cb ans\<rparr>)"
| answered_now: "ipc s = IpcAnswering n cb ans \<Longrightarrow>
    step char_signed sync s ((OnResolved_call char_signed n cb ans s)\<lparr>ipc := AddNotify\<rparr>)"
| add_notify: "ipc s = AddNotify \<Longrightarrow> step char_signed sync s ((notify_one s)\<lparr>ipc := IpcIdle\<rparr>)"
| shutdown: "ipc s = IpcIdle \<Longrightarrow> step char_signed sync s (Shutdown s)"
| shutdown_notify: "ipc s = ShutdownNotify \<Longrightarrow> step char_signed sync s ((notify_one s)\<lparr>ipc := Joining\<rparr>)"
| join: "ipc s = Joining \<Longrightarrow> service s = Exited \<Longrightarrow> step char_signed sync s (s\<lparr>ipc := Joined\<rparr>)"
| check: "service s = Checking \<Longrightarrow> step char_signed sync s (HasRequests_check s)"
| woken: "service s = Woken \<Longrightarrow> step char_signed sync s (HasRequests_woken s)"
| poll: "service s = Serving \<Longrightarrow>
    step char_signed sync s (s\<lparr>service := (if FillPollDescriptors bitmask socks ARES_GETSOCK_MAXNUM = [] then Checking else Processing)\<rparr>)"
| take: "service s = Processing \<Longrightarrow> n \<in> set (queries s) \<Longrightarrow>
    OnResolved_take n (s\<lparr>queries := remove1 n (queries s)\<rparr>) = (Some cb, s') \<Longrightarrow>
    step char_signed sync s (s'\<lparr>service := Answering n cb ans\<rparr>)"
| take_bad: "service s = Processing \<Longrightarrow> n \<in> set (queries s) \<Longrightarrow>
    OnResolved_take n (s\<lparr>queries := remove1 n (queries s)\<rparr>) = (None, s') \<Longrightarrow> step char_signed sync s s'"
| answer: "service s = Answering n cb ans \<Longrightarrow>
    step char_signed sync s ((OnResolved_call char_signed n cb ans s)\<lparr>service := Processing\<rparr>)"
| processed: "service s = Processing \<Longrightarrow> step char_signed sync s (s\<lparr>service := Checking\<rparr>)"

abbreviation reachable :: "bool \<Rightarrow> bool \<Rightarrow> resolver \<Rightarrow> bool" where
  "reachable char_signed sync s \<equiv> (step char_signed sync)\<^sup>*\<^sup>* initial s"


subsection \<open>The program\<close>

text \<open>\<open>main\<close> with the constructor and the destructor of \<open>Resolver\<close>; \<open>run_loop\<close> is the event loop, which returns or throws.\<close>

datatype resolver_event =
    NetworkUp bool
  | LibraryInit unit
  | ChannelInit bool
  | ThreadStarted
  | LoopRun bool
  | ThreadJoined unit
  | ChannelDestroyed unit
  | LibraryCleanup unit

record 'w resolver_api =
  iface_ready :: "'w \<Rightarrow> bool \<times> 'w"
  ares_library_init :: "'w \<Rightarrow> unit \<times> 'w"
  ares_init :: "'w \<Rightarrow> bool \<times> 'w"
  run_loop :: "'w \<Rightarrow> bool \<times> 'w"
  shutdown_and_join :: "'w \<Rightarrow> unit \<times> 'w"
  ares_destroy :: "'w \<Rightarrow> unit \<times> 'w"
  ares_library_cleanup :: "'w \<Rightarrow> unit \<times> 'w"

definition Resolver_new :: "'w resolver_api \<Rightarrow> ('w, resolver_event, string + resolver) io" where
  "Resolver_new api = do {
     _ \<leftarrow> call LibraryInit (ares_library_init api);
     ok \<leftarrow> call ChannelInit (ares_init api);
     if \<not> ok then io_return (Inl ''Ares channel init failed'')
     else do { _ \<leftarrow> emit ThreadStarted; io_return (Inr initial) } }"

definition Resolver_delete :: "'w resolver_api \<Rightarrow> ('w, resolver_event, unit) io" where
  "Resolver_delete api = do {
     _ \<leftarrow> call ThreadJoined (shutdown_and_join api);
     _ \<leftarrow> call ChannelDestroyed (ares_destroy api);
     call LibraryCleanup (ares_library_cleanup api) }"

definition main_resolver :: "'w resolver_api \<Rightarrow> ('w, resolver_event, int) io" where
  "main_resolver api = do {
     up \<leftarrow> call NetworkUp (iface_ready api);
     if \<not> up then io_return EXIT_FAILURE
     else do {
       r \<leftarrow> Resolver_new api;
       (case r of Inl e \<Rightarrow> io_return EXIT_FAILURE
        | Inr _ \<Rightarrow> do {
            returned \<leftarrow> call LoopRun (run_loop api);
            _ \<leftarrow> Resolver_delete api;
            io_return (if returned then EXIT_SUCCESS else EXIT_FAILURE) }) } }"

lemma Resolver_new_post:
  "io_post (Resolver_new api) (\<lambda>r es. es = [LibraryInit (), ChannelInit False] \<and> (\<exists>e. r = Inl e) \<or>
     es = [LibraryInit (), ChannelInit True, ThreadStarted] \<and> r = Inr initial)"
  unfolding Resolver_new_def by (intro io_rules) simp_all

text \<open>The thread that was started is always joined before the channel it uses is destroyed.\<close>

lemma main_resolver_trace:
  assumes "run_io (main_resolver api) w = (code, es)"
  shows "es = [NetworkUp False] \<or> es = [NetworkUp True, LibraryInit (), ChannelInit False] \<or>
    (\<exists>returned. es = [NetworkUp True, LibraryInit (), ChannelInit True, ThreadStarted, LoopRun returned, ThreadJoined (),
       ChannelDestroyed (), LibraryCleanup ()] \<and> (code = EXIT_SUCCESS) = returned)"
proof -
  have "io_post (main_resolver api) (\<lambda>code es. es = [NetworkUp False] \<or> es = [NetworkUp True, LibraryInit (), ChannelInit False] \<or>
    (\<exists>returned. es = [NetworkUp True, LibraryInit (), ChannelInit True, ThreadStarted, LoopRun returned, ThreadJoined (),
       ChannelDestroyed (), LibraryCleanup ()] \<and> (code = EXIT_SUCCESS) = returned))"
    unfolding main_resolver_def Resolver_delete_def bind_assoc
    by (intro io_rules io_post_bind [OF Resolver_new_post]) auto
  from io_post_run [OF this assms] show ?thesis .
qed


subsection \<open>Invariant\<close>

text \<open>The callbacks that are still to be called, with their names, and the one that a thread has in its hands.\<close>

fun waiting :: "request list \<Rightarrow> (callback \<times> string) list" where
  "waiting [] = []"
| "waiting (r # rs) = (case req_callback r of None \<Rightarrow> waiting rs | Some cb \<Rightarrow> (cb, req_name r) # waiting rs)"

fun in_hand :: "service_point \<Rightarrow> callback list" where
  "in_hand (Answering n cb ans) = [cb]"
| "in_hand _ = []"

definition has_request :: "nat \<Rightarrow> bool \<Rightarrow> resolver \<Rightarrow> bool" where
  "has_request n open_request s \<longleftrightarrow> (\<exists>r \<in> set (m_requests s). req_node r = n \<and> (req_callback r \<noteq> None) = open_request)"

definition nodes_ok :: "resolver \<Rightarrow> bool" where
  "nodes_ok s \<longleftrightarrow> distinct (map req_node (m_requests s)) \<and> (\<forall>r \<in> set (m_requests s). req_node r < fresh_node s)"

definition library_ok :: "resolver \<Rightarrow> bool" where
  "library_ok s \<longleftrightarrow> \<not> crashed s \<and> distinct (queries s) \<and> (\<forall>n \<in> set (queries s). has_request n True s) \<and>
     (\<forall>n. ipc s = Added n \<longrightarrow> n \<notin> set (queries s) \<and> has_request n True s) \<and>
     (\<forall>n cb ans. ipc s \<noteq> IpcAnswering n cb ans) \<and>
     (\<forall>n cb ans. service s = Answering n cb ans \<longrightarrow> has_request n False s \<and>
        (\<forall>r \<in> set (m_requests s). req_node r = n \<longrightarrow> (cb, req_name r) \<in> set (accepted s)))"

definition threads_ok :: "resolver \<Rightarrow> bool" where
  "threads_ok s \<longleftrightarrow> (m_active s \<longleftrightarrow> ipc s \<notin> {ShutdownNotify, Joining, Joined}) \<and>
     (service s = Waiting \<longrightarrow> m_requests s = [] \<and> m_active s \<or> ipc s = AddNotify \<or> ipc s = ShutdownNotify \<or> (\<exists>n. ipc s = Added n)) \<and>
     (service s = Exited \<longrightarrow> m_requests s = [] \<and> \<not> m_active s) \<and>
     (ipc s = Joined \<longrightarrow> service s = Exited)"

text \<open>An answer is an address from the library, or reports the failure for the name that was asked.\<close>

fun answer_ok :: "bool \<Rightarrow> (callback \<times> string) set \<Rightarrow> callback \<times> string \<times> string \<Rightarrow> bool" where
  "answer_ok char_signed acc (cb, nm, addr) \<longleftrightarrow> (\<exists>octets. addr = address_string char_signed octets) \<or>
     addr = ''Lookup failed'' \<and> (cb, nm) \<in> acc"

definition account_ok :: "bool \<Rightarrow> resolver \<Rightarrow> bool" where
  "account_ok char_signed s \<longleftrightarrow>
     mset (map fst (accepted s)) = mset (map fst (answered s)) + mset (map fst (waiting (m_requests s))) + mset (in_hand (service s)) \<and>
     set (waiting (m_requests s)) \<subseteq> set (accepted s) \<and>
     (\<forall>a \<in> set (answered s). answer_ok char_signed (set (accepted s)) a)"

definition resolver_ok :: "bool \<Rightarrow> resolver \<Rightarrow> bool" where
  "resolver_ok char_signed s \<longleftrightarrow> nodes_ok s \<and> library_ok s \<and> threads_ok s \<and> account_ok char_signed s"

lemmas resolver_ok_defs = resolver_ok_def nodes_ok_def library_ok_def threads_ok_def account_ok_def

lemma waiting_append [simp]: "waiting (rs @ rs') = waiting rs @ waiting rs'"
  by (induction rs) (auto split: option.splits)

lemma waiting_filter [simp]: "waiting (filter (\<lambda>r. \<exists>y. req_callback r = Some y) rs) = waiting rs"
  by (induction rs) (auto split: option.splits)

definition moved :: "nat \<Rightarrow> request list \<Rightarrow> request list" where
  "moved n rs = map (\<lambda>r. if req_node r = n then r\<lparr>req_callback := None\<rparr> else r) rs"

lemma moved_nodes [simp]: "map req_node (moved n rs) = map req_node rs"
  by (auto simp: moved_def)

lemma set_moved: "set (moved n rs) = (\<lambda>r. if req_node r = n then r\<lparr>req_callback := None\<rparr> else r) ` set rs"
  by (simp add: moved_def)

lemma moved_other: "n \<notin> set (map req_node rs) \<Longrightarrow> moved n rs = rs"
  unfolding moved_def by (rule map_idI) auto

lemma waiting_moved:
  assumes "distinct (map req_node rs)" "r \<in> set rs" "req_node r = n" "req_callback r = Some cb"
  shows "mset (waiting rs) = add_mset (cb, req_name r) (mset (waiting (moved n rs)))"
  using assms
proof (induction rs)
  case (Cons a rs)
  show ?case
  proof (cases "a = r")
    case True
    then have "moved n rs = rs" using Cons.prems by (intro moved_other) auto
    then show ?thesis using True Cons.prems by (simp add: moved_def)
  next
    case False
    then have "r \<in> set rs" "req_node a \<noteq> n" using Cons.prems by auto
    then show ?thesis using Cons False by (simp add: moved_def split: option.splits)
  qed
qed simp

lemma find_node_Some:
  assumes "distinct (map req_node rs)" "r \<in> set rs" "req_node r = n"
  shows "find_node n rs = Some r"
  using assms by (induction rs) (auto simp: find_node_def)

lemma OnResolved_take_ok:
  assumes "nodes_ok s" "r \<in> set (m_requests s)" "req_node r = n" "req_callback r = Some cb"
  shows "OnResolved_take n s = (Some cb, s\<lparr>m_requests := moved n (m_requests s)\<rparr>)"
  using assms find_node_Some [of "m_requests s" r n] by (simp add: OnResolved_take_def nodes_ok_def moved_def)

lemma has_request_open:
  assumes "has_request n True s" obtains r cb where "r \<in> set (m_requests s)" "req_node r = n" "req_callback r = Some cb"
  using assms by (auto simp: has_request_def)

inductive_cases stepE: "step char_signed sync s s'"

lemmas operation_defs = Resolve_def AddRequest_emplace_def OnResolved_call_def notify_one_def Shutdown_def
  HasRequests_check_def HasRequests_result_def HasRequests_woken_def

lemma start_ok: "resolver_ok char_signed initial"
  by (simp add: resolver_ok_defs initial_def)

lemma answer_ok_mono: "answer_ok cs acc a \<Longrightarrow> acc \<subseteq> acc' \<Longrightarrow> answer_ok cs acc' a"
  by (cases a) auto

lemma waiting_none: "filter (\<lambda>r. \<exists>y. req_callback r = Some y) rs = [] \<Longrightarrow> waiting rs = []"
  by (metis waiting.simps(1) waiting_filter)

lemma has_request_fresh: "nodes_ok s \<Longrightarrow> has_request n b s \<Longrightarrow> n < fresh_node s"
  by (auto simp: nodes_ok_def has_request_def)

lemma resolve_ok:
  assumes "resolver_ok cs s" "ipc s = IpcIdle"
  shows "resolver_ok cs (AddRequest_emplace nm cb s)"
proof -
  let ?s = "AddRequest_emplace nm cb s"
  have s: "nodes_ok s" "library_ok s" "threads_ok s" "account_ok cs s" using assms(1) by (auto simp: resolver_ok_def)
  have more: "has_request n b s \<Longrightarrow> has_request n b ?s" "has_request (fresh_node s) True ?s" for n b
    by (auto simp: has_request_def AddRequest_emplace_def)
  have "nodes_ok ?s" using s(1) by (auto simp: nodes_ok_def AddRequest_emplace_def less_Suc_eq)
  moreover have "fresh_node s \<notin> set (queries s)" "service s \<noteq> Answering (fresh_node s) cb' ans" for cb' ans
    using s(2) has_request_fresh [OF s(1)] unfolding library_ok_def by (metis less_irrefl)+
  then have "library_ok ?s"
    using s(2) more assms(2) unfolding library_ok_def by (auto simp: AddRequest_emplace_def)
  moreover have "threads_ok ?s" using s(3) assms(2) by (auto simp: threads_ok_def AddRequest_emplace_def)
  moreover have "account_ok cs ?s"
    using s(4) by (auto simp: account_ok_def AddRequest_emplace_def intro: answer_ok_mono)
  ultimately show ?thesis by (simp add: resolver_ok_def)
qed

lemma check_ok:
  assumes "resolver_ok cs s" "service s = Checking"
  shows "resolver_ok cs (HasRequests_check s)"
proof -
  let ?s = "HasRequests_check s"
  have s: "nodes_ok s" "library_ok s" "threads_ok s" "account_ok cs s" using assms(1) by (auto simp: resolver_ok_def)
  have "nodes_ok ?s" using s(1) by (auto simp: nodes_ok_def HasRequests_check_def HasRequests_result_def Let_def distinct_map_filter)
  moreover have "has_request n True ?s \<longleftrightarrow> has_request n True s" for n
    by (auto simp: has_request_def operation_defs Let_def filter_empty_conv)
  then have "library_ok ?s" using s(2) assms(2)
    unfolding library_ok_def by (simp add: operation_defs Let_def)
  moreover have "threads_ok ?s" using s(3) assms(2) by (auto simp: threads_ok_def operation_defs Let_def)
  moreover have "account_ok cs ?s"
    using s(4) assms(2) by (auto simp: account_ok_def operation_defs Let_def waiting_none)
  ultimately show ?thesis by (simp add: resolver_ok_def)
qed

lemma answer_step_ok:
  assumes "resolver_ok cs s" "service s = Answering n cb ans"
  shows "resolver_ok cs ((OnResolved_call cs n cb ans s)\<lparr>service := Processing\<rparr>)"
proof -
  have s: "nodes_ok s" "library_ok s" "threads_ok s" "account_ok cs s" using assms(1) by (auto simp: resolver_ok_def)
  obtain r where r: "r \<in> set (m_requests s)" "req_node r = n" "(cb, req_name r) \<in> set (accepted s)"
    using s(2) assms(2) by (auto simp: library_ok_def has_request_def)
  then have "find_node n (m_requests s) = Some r" using s(1) find_node_Some by (auto simp: nodes_ok_def)
  then have "\<exists>a. OnResolved_call cs n cb ans s = s\<lparr>answered := answered s @ [a]\<rparr> \<and> fst a = cb \<and>
      answer_ok cs (set (accepted s)) a"
    using r(3) by (cases ans) (force simp: OnResolved_call_def)+
  then obtain a where a: "OnResolved_call cs n cb ans s = s\<lparr>answered := answered s @ [a]\<rparr>" "fst a = cb"
    "answer_ok cs (set (accepted s)) a"
    by blast
  then show ?thesis
    using s assms(2) by (auto simp: resolver_ok_defs has_request_def)
qed

text \<open>Answering a query: the request is there and still has its callback.\<close>

lemma take_ok:
  assumes "resolver_ok cs s" "service s = Processing" "n \<in> set (queries s)"
  obtains r cb where "r \<in> set (m_requests s)" "req_node r = n" "req_callback r = Some cb"
    "OnResolved_take n (s\<lparr>queries := remove1 n (queries s)\<rparr>) =
      (Some cb, s\<lparr>queries := remove1 n (queries s), m_requests := moved n (m_requests s)\<rparr>)"
    "resolver_ok cs (s\<lparr>queries := remove1 n (queries s), m_requests := moved n (m_requests s), service := Answering n cb ans\<rparr>)"
proof -
  have "has_request n True s" using assms by (auto simp: resolver_ok_def library_ok_def)
  then obtain r cb where r: "r \<in> set (m_requests s)" "req_node r = n" "req_callback r = Some cb"
    by (rule has_request_open)
  have s: "library_ok s" "account_ok cs s" using assms(1) by (auto simp: resolver_ok_def)
  have nodes: "nodes_ok (s\<lparr>queries := remove1 n (queries s)\<rparr>)" "nodes_ok s"
    using assms by (auto simp: resolver_ok_def nodes_ok_def)
  have W: "mset (waiting (m_requests s)) = add_mset (cb, req_name r) (mset (waiting (moved n (m_requests s))))"
    using nodes(2) r by (intro waiting_moved) (simp_all add: nodes_ok_def)
  have less: "set (waiting (m_requests s)) = insert (cb, req_name r) (set (waiting (moved n (m_requests s))))"
    using arg_cong [OF W, of set_mset] by simp
  then have acc: "(cb, req_name r) \<in> set (accepted s)" using s(2) by (auto simp: account_ok_def)
  let ?s = "s\<lparr>queries := remove1 n (queries s), m_requests := moved n (m_requests s), service := Answering n cb ans\<rparr>"
  have "nodes_ok ?s" using nodes(2) unfolding nodes_ok_def by (simp, force simp: set_moved)
  moreover have "library_ok ?s"
  proof -
    have "has_request m True ?s" if "has_request m True s" "m \<noteq> n" for m
      using that by (auto simp: has_request_def set_moved)
    moreover have "r\<lparr>req_callback := None\<rparr> \<in> set (moved n (m_requests s))" using r by (auto simp: moved_def)
    then have "has_request n False ?s" using r(2) unfolding has_request_def
      by (intro bexI [where x = "r\<lparr>req_callback := None\<rparr>"]) simp_all
    moreover have "(cb, req_name r') \<in> set (accepted s)" if "r' \<in> set (moved n (m_requests s))" "req_node r' = n" for r'
    proof -
      obtain r0 where r0: "r0 \<in> set (m_requests s)" "req_node r0 = n" "req_name r' = req_name r0"
        using \<open>r' \<in> _\<close> \<open>req_node r' = n\<close> unfolding set_moved by (elim imageE) (simp split: if_splits)
      then have "find_node n (m_requests s) = Some r0" "find_node n (m_requests s) = Some r"
        using nodes(2) r find_node_Some unfolding nodes_ok_def by blast+
      then show ?thesis using acc r0(3) by simp
    qed
    ultimately show ?thesis using s(1) assms(2,3) by (auto simp: library_ok_def)
  qed
  moreover have "threads_ok ?s" using assms(1,2) by (simp add: resolver_ok_def threads_ok_def moved_def)
  moreover have "account_ok cs ?s"
    using s(2) assms(2) less unfolding account_ok_def by (simp add: W)
  ultimately show ?thesis
    using that [OF r] OnResolved_take_ok [OF nodes(1), of r n cb] r by (simp add: resolver_ok_def)
qed

text \<open>The other steps only move the threads: requests and accounts stay as they are.\<close>

lemma nodes_ok_update [simp]: "nodes_ok (s\<lparr>queries := q\<rparr>) = nodes_ok s" "nodes_ok (s\<lparr>ipc := i\<rparr>) = nodes_ok s"
  "nodes_ok (s\<lparr>service := v\<rparr>) = nodes_ok s" "nodes_ok (s\<lparr>m_active := a\<rparr>) = nodes_ok s"
  by (simp_all add: nodes_ok_def)

lemma account_ok_update [simp]: "account_ok cs (s\<lparr>queries := q\<rparr>) = account_ok cs s" "account_ok cs (s\<lparr>ipc := i\<rparr>) = account_ok cs s"
  "account_ok cs (s\<lparr>m_active := a\<rparr>) = account_ok cs s"
  "in_hand v = in_hand (service s) \<Longrightarrow> account_ok cs (s\<lparr>service := v\<rparr>) = account_ok cs s"
  by (simp_all add: account_ok_def)

lemma asked_ok: "resolver_ok cs s \<Longrightarrow> ipc s = Added n \<Longrightarrow> resolver_ok cs (s\<lparr>queries := queries s @ [n], ipc := AddNotify\<rparr>)"
  unfolding resolver_ok_def by (auto simp: library_ok_def threads_ok_def has_request_def)

lemma notified_ok:
  assumes "resolver_ok cs s" "ipc s = AddNotify \<and> i = IpcIdle \<or> ipc s = ShutdownNotify \<and> i = Joining"
  shows "resolver_ok cs ((notify_one s)\<lparr>ipc := i\<rparr>)"
proof -
  have "library_ok ((notify_one s)\<lparr>ipc := i\<rparr>)" "threads_ok ((notify_one s)\<lparr>ipc := i\<rparr>)"
    using assms unfolding resolver_ok_def by (auto simp: library_ok_def threads_ok_def has_request_def notify_one_def)
  then show ?thesis using assms(1) by (simp add: resolver_ok_def notify_one_def)
qed

lemma shutdown_ok: "resolver_ok cs s \<Longrightarrow> ipc s = IpcIdle \<Longrightarrow> resolver_ok cs (Shutdown s)"
  unfolding resolver_ok_def Shutdown_def by (auto simp: library_ok_def threads_ok_def has_request_def)

lemma joined_ok: "resolver_ok cs s \<Longrightarrow> ipc s = Joining \<Longrightarrow> service s = Exited \<Longrightarrow> resolver_ok cs (s\<lparr>ipc := Joined\<rparr>)"
  unfolding resolver_ok_def by (auto simp: library_ok_def threads_ok_def has_request_def)

lemma woken_ok: "resolver_ok cs s \<Longrightarrow> service s = Woken \<Longrightarrow> resolver_ok cs (HasRequests_woken s)"
  unfolding resolver_ok_def HasRequests_woken_def HasRequests_result_def
  by (auto simp: library_ok_def threads_ok_def has_request_def)

lemma loop_ok:
  "resolver_ok cs s \<Longrightarrow> service s = Serving \<or> service s = Processing \<Longrightarrow> v = Checking \<or> v = Processing \<Longrightarrow>
    resolver_ok cs (s\<lparr>service := v\<rparr>)"
  unfolding resolver_ok_def by (auto simp: library_ok_def threads_ok_def has_request_def)

lemma step_ok:
  assumes "resolver_ok cs s" "step cs False s s'"
  shows "resolver_ok cs s'"
  using assms(2)
proof cases
  case (resolve nm cb)
  then show ?thesis using resolve_ok [OF assms(1)] by (auto simp: Resolve_def split: if_splits)
next
  case (take n cb s'' ans)
  obtain r cb' where "OnResolved_take n (s\<lparr>queries := remove1 n (queries s)\<rparr>) =
      (Some cb', s\<lparr>queries := remove1 n (queries s), m_requests := moved n (m_requests s)\<rparr>)"
    "resolver_ok cs (s\<lparr>queries := remove1 n (queries s), m_requests := moved n (m_requests s), service := Answering n cb' ans\<rparr>)"
    using take_ok [OF assms(1) take(2,3)] by metis
  then show ?thesis using take by simp
next
  case (take_bad n)
  then show ?thesis using take_ok [OF assms(1) take_bad(1,2)] by (metis option.distinct(1) prod.inject)
next
  case (answered_now n cb ans)
  then show ?thesis using assms(1) by (simp add: resolver_ok_def library_ok_def)
qed (use assms(1) asked_ok notified_ok shutdown_ok joined_ok check_ok woken_ok loop_ok answer_step_ok in auto)

interpretation resolver_inv: invariant initial "step cs False" "resolver_ok cs" for cs
  by unfold_locales (auto simp: start_ok intro: step_ok)


subsection \<open>Addresses and descriptors\<close>

text \<open>Where \<open>char\<close> is unsigned the address is printed in dotted decimal; where it is signed, octets above 127 come
  out negative.\<close>

lemma address_unsigned:
  assumes "length octets = 4"
  shows "address_string False octets = join ''.'' (map (\<lambda>b. dec (unat b)) octets)"
proof -
  obtain a b c d where "octets = [a, b, c, d]"
    using assms by (auto simp: length_Suc_conv numeral_eq_Suc)
  moreover have "[0..<4] = [0, 1, 2, 3 :: nat]" by (simp add: upt_rec)
  ultimately show ?thesis by (simp add: address_string_def octet_string_def butlast_append nat_uint_eq del: dec.simps)
qed

lemma address_signed: "address_string True [192, 168, 0, 1] = ''-64.-88.0.1''"
  by code_simp

text \<open>The descriptors are those of the first sockets the library reports, up to the first one it does not, with
  the events it waits for.\<close>

definition watched :: "u32 \<Rightarrow> nat \<Rightarrow> bool" where
  "watched bitmask i \<longleftrightarrow> bit bitmask i \<or> bit bitmask (i + 16)"

definition descriptor :: "u32 \<Rightarrow> (nat \<Rightarrow> int) \<Rightarrow> nat \<Rightarrow> pollfd" where
  "descriptor bitmask socks i = \<lparr>fd = socks i, pollin = bit bitmask i, pollout = bit bitmask (i + 16)\<rparr>"

lemma FillPollDescriptors_loop_eq:
  "FillPollDescriptors_loop bitmask socks m i =
    (if i < m \<and> watched bitmask i then descriptor bitmask socks i # FillPollDescriptors_loop bitmask socks m (Suc i) else [])"
  by (subst FillPollDescriptors_loop.simps)
    (simp add: watched_def descriptor_def ARES_GETSOCK_READABLE_def ARES_GETSOCK_WRITABLE_def ARES_GETSOCK_MAXNUM_def)

lemma FillPollDescriptors_loop_prefix:
  "i \<le> m \<Longrightarrow> \<exists>k \<ge> i. k \<le> m \<and> FillPollDescriptors_loop bitmask socks m i = map (descriptor bitmask socks) [i..<k] \<and>
    (\<forall>j. i \<le> j \<longrightarrow> j < k \<longrightarrow> watched bitmask j) \<and> (k < m \<longrightarrow> \<not> watched bitmask k)"
proof (induction "m - i" arbitrary: i)
  case (Suc d)
  show ?case
  proof (cases "watched bitmask i")
    case True
    have "d = m - Suc i" "Suc i \<le> m" using Suc.hyps(2) by auto
    then obtain k where k: "Suc i \<le> k" "k \<le> m"
        "FillPollDescriptors_loop bitmask socks m (Suc i) = map (descriptor bitmask socks) [Suc i..<k]"
        "\<forall>j. Suc i \<le> j \<longrightarrow> j < k \<longrightarrow> watched bitmask j" "k < m \<longrightarrow> \<not> watched bitmask k"
      using Suc.hyps(1) by blast
    have "FillPollDescriptors_loop bitmask socks m i = map (descriptor bitmask socks) [i..<k]"
      using k(1,3) True \<open>Suc i \<le> m\<close> by (simp add: FillPollDescriptors_loop_eq [of _ _ _ i] upt_conv_Cons)
    moreover have "\<forall>j. i \<le> j \<longrightarrow> j < k \<longrightarrow> watched bitmask j"
      using k(4) True by (metis Suc_leI le_neq_implies_less)
    ultimately show ?thesis using k by (intro exI [of _ k]) simp
  next
    case False
    then show ?thesis using Suc.prems by (intro exI [of _ i]) (simp add: FillPollDescriptors_loop_eq [of _ _ _ i])
  qed
qed (auto simp: FillPollDescriptors_loop_eq [of bitmask socks m m])

lemma FillPollDescriptors_spec:
  "\<exists>k \<le> min sz 16. FillPollDescriptors bitmask socks sz = map (descriptor bitmask socks) [0..<k] \<and>
    (\<forall>j < k. watched bitmask j) \<and> (k < min sz 16 \<longrightarrow> \<not> watched bitmask k)"
  using FillPollDescriptors_loop_prefix [of 0 "min sz 16" bitmask socks]
  by (simp add: FillPollDescriptors_def ARES_GETSOCK_MAXNUM_def)


lemma FillPollDescriptors_empty: "FillPollDescriptors bitmask socks ARES_GETSOCK_MAXNUM = [] \<longleftrightarrow> \<not> watched bitmask 0"
  using FillPollDescriptors_loop_eq [of bitmask socks 16 0] by (simp add: FillPollDescriptors_def ARES_GETSOCK_MAXNUM_def)

lemma GetTimeout_ms:
  assumes "0 \<le> tv_sec" "0 \<le> tv_usec" "tv_sec * 1000 + tv_usec div 1000 < 2 ^ 31"
  shows "GetTimeout (Some (tv_sec, tv_usec)) = Some (tv_sec * 1000 + tv_usec div 1000)"
proof -
  have "(tv_usec + tv_sec * 1000000) div 1000 = tv_sec * 1000 + tv_usec div 1000" by linarith
  moreover have "signed_take_bit 31 (tv_sec * 1000 + tv_usec div 1000) = tv_sec * 1000 + tv_usec div 1000"
    using assms by (intro signed_take_bit_int_eq_self) (simp_all add: order_trans [of _ "0 :: int"])
  ultimately show ?thesis using assms by (simp add: GetTimeout_def Let_def)
qed

lemma process_fds_post:
  "io_post (process_fds api calls) (\<lambda>_ es. es = map (\<lambda>(fdRead, fdWrite). FdProcessed fdRead fdWrite ()) calls)"
  by (induction calls) (auto intro!: io_rules elim: io_post_mono)

text \<open>One round of the service loop.  Without a socket to watch nothing is done.  Otherwise the sockets the library waits for are
  polled for the time it allows; each of them is then handled once, in order, under its own number where it is ready and
  as \<open>ARES_SOCKET_BAD\<close> where it is not.  After a timeout the library is called once to look after its timers, and after an error
  all its queries are cancelled as well.\<close>

inductive round_outcome :: "bool \<Rightarrow> round_event list \<Rightarrow> bool" where
  no_socket: "\<not> watched bitmask 0 \<Longrightarrow> round_outcome True [SocketsAsked (bitmask, socks)]"
| no_timeout: "watched bitmask 0 \<Longrightarrow> round_outcome False [SocketsAsked (bitmask, socks), TimeoutAsked None]"
| polled: "watched bitmask 0 \<Longrightarrow> GetTimeout (Some tv) = Some ms \<Longrightarrow> ds = FillPollDescriptors bitmask socks ARES_GETSOCK_MAXNUM \<Longrightarrow>
    es = map (\<lambda>(fdRead, fdWrite). FdProcessed fdRead fdWrite ()) (process_calls res ds revents) \<Longrightarrow>
    es' = (if res < 0 then [Cancelled ()] else []) \<Longrightarrow>
    round_outcome True (SocketsAsked (bitmask, socks) # TimeoutAsked (Some tv) # Polled ds ms (res, revents) # es @ es')"

lemma ServeRequests_round_spec:
  assumes "run_io (ServeRequests_round api) w = (ok, es)"
  shows "round_outcome ok es"
proof -
  have timeout: "\<exists>tv. tvp = Some tv \<and> GetTimeout (Some tv) = Some ms" if "GetTimeout tvp = Some ms" for tvp ms
    using that by (cases tvp) (auto simp: GetTimeout_def)
  have "io_post (ServeRequests_round api) round_outcome"
    unfolding ServeRequests_round_def
    apply (intro io_rules io_nested io_post_bind [OF process_fds_post])
    subgoal by (simp add: FillPollDescriptors_empty no_socket)
    subgoal by (simp add: FillPollDescriptors_empty GetTimeout_def no_timeout)
    subgoal by (drule timeout) (elim exE conjE, simp add: FillPollDescriptors_empty polled)
    subgoal by (drule timeout) (elim exE conjE, simp add: FillPollDescriptors_empty polled [where es' = "[]", simplified])
    done
  from io_post_run [OF this assms] show ?thesis .
qed


subsection \<open>Properties\<close>

lemma joined_idle:
  assumes "reachable char_signed False s" "ipc s = Joined"
  shows "m_requests s = [] \<and> in_hand (service s) = []"
proof -
  have "threads_ok s" using resolver_inv.inv_reachable [OF assms(1)] by (simp add: resolver_ok_def)
  then have "service s = Exited \<and> m_requests s = []" using assms(2) by (auto simp: threads_ok_def)
  then show ?thesis by simp
qed

text \<open>A resolver with no request left has called as many callbacks as it accepted requests.\<close>

lemma all_answered:
  assumes "reachable char_signed False s" "m_requests s = []" "in_hand (service s) = []"
  shows "length (answered s) = length (accepted s)"
proof -
  have "account_ok char_signed s" using resolver_inv.inv_reachable [OF assms(1)] by (simp add: resolver_ok_def)
  then have "mset (map fst (accepted s)) = mset (map fst (answered s))" using assms(2,3) by (simp add: account_ok_def)
  from arg_cong [OF this, of size] show ?thesis by simp
qed




text \<open>C40: A query that the library answers from within \<open>ares_gethostbyname\<close> may be lost to the service thread:
  \<open>OnResolved\<close> takes the callback out of the request without the mutex, the service thread removes
  the request, and \<open>OnResolved\<close> then reads the name of the freed request.\<close>

theorem answered_at_once_use_after_free: "\<exists>s. reachable char_signed True s \<and> crashed s"
proof -
  let ?step = "step char_signed True"
  define s1 where "s1 = AddRequest_emplace ''kos'' 7 initial"
  define s2 where "s2 = s1\<lparr>m_requests := moved 0 (m_requests s1), ipc := IpcAnswering 0 7 NotFound\<rparr>"
  define s3 where "s3 = HasRequests_check s2"
  define s4 where "s4 = (OnResolved_call char_signed 0 7 NotFound s3)\<lparr>ipc := AddNotify\<rparr>"
  note defs = s1_def s2_def s3_def s4_def operation_defs initial_def Let_def moved_def
  have "?step initial s1" by (rule step.resolve [where nm = "''kos''" and cb = 7]) (simp_all add: defs)
  moreover have "?step s1 s2"
    using step.answer_now [of True s1 0 7 "s1\<lparr>m_requests := moved 0 (m_requests s1)\<rparr>" char_signed NotFound]
    by (simp add: defs OnResolved_take_def find_node_def)
  moreover have "?step s2 s3" unfolding s3_def by (rule step.check) (simp add: defs)
  moreover have "?step s3 s4" unfolding s4_def by (rule step.answered_now) (simp add: defs)
  ultimately have "reachable char_signed True s4" by (meson converse_rtranclp_into_rtranclp rtranclp.rtrancl_refl)
  moreover have "crashed s4" by (simp add: defs find_node_def)
  ultimately show ?thesis by blast
qed

subsection \<open>Progress\<close>










lemma accepted_operations [simp]:
  "accepted (notify_one s) = accepted s" "accepted (Shutdown s) = accepted s" "accepted (HasRequests_check s) = accepted s"
  "accepted (HasRequests_woken s) = accepted s" "accepted (OnResolved_call cs n cb ans s) = accepted s"
  by (simp_all add: operation_defs Let_def split: answer.splits option.splits)

lemma queries_operations [simp]:
  "queries (notify_one s) = queries s" "queries (Shutdown s) = queries s" "queries (HasRequests_check s) = queries s"
  "queries (HasRequests_woken s) = queries s" "queries (OnResolved_call cs n cb ans s) = queries s"
  "ipc (notify_one s) = ipc s" "ipc (HasRequests_check s) = ipc s" "ipc (HasRequests_woken s) = ipc s"
  "ipc (OnResolved_call cs n cb ans s) = ipc s"
  by (simp_all add: operation_defs Let_def split: answer.splits option.splits)












end
