(* ===== verification/Callable.thy ===== *)
theory Callable
  imports Effects
begin

section \<open>The client of the name resolver\<close>

text \<open>
  \<^verbatim>\<open>examples/c-ares/common/callable.h\<close>: a thread that serves callbacks, and a queue of handlers that tells it how
  many; and the client, \<^verbatim>\<open>examples/c-ares/client/src/main.cpp\<close>.  As for the resolver a step is what a thread does between
  two points at which the other one can interfere.  The event loop of the IPC framework is a parameter: its \<open>Step\<close>
  waits for one call from outside and serves it.
\<close>

subsection \<open>The queue and its thread\<close>

datatype handler = StepLoop | Empty

datatype owner_point = OwnerIdle | OwnerNotify | StopNotify | OwnerJoining | OwnerJoined

datatype thread_point = Getting | Sleeping | Awake | InStep | Ended

text \<open>\<open>gets\<close> counts the calls of \<open>Get\<close>, \<open>incoming\<close> the calls from outside that wait to be served, \<open>served\<close> those that
  were served.\<close>

record callable =
  m_handlers :: "handler list"
  owner :: owner_point
  thread :: thread_point
  gets :: nat
  incoming :: nat
  served :: nat

definition new_callable :: callable where
  "new_callable = \<lparr>m_handlers = [], owner = OwnerIdle, thread = Getting, gets = 0, incoming = 0, served = 0\<rparr>"

definition AddHandler :: "handler \<Rightarrow> callable \<Rightarrow> callable" where
  "AddHandler h s = s\<lparr>m_handlers := m_handlers s @ [h]\<rparr>"

definition Get :: "callable \<Rightarrow> callable" where
  "Get s = (AddHandler StepLoop s)\<lparr>owner := OwnerNotify, gets := gets s + 1\<rparr>"

definition Callable_delete :: "callable \<Rightarrow> callable" where
  "Callable_delete s = (AddHandler Empty s)\<lparr>owner := StopNotify\<rparr>"

definition notify_handler :: "callable \<Rightarrow> callable" where
  "notify_handler s = (if thread s = Sleeping then s\<lparr>thread := Awake\<rparr> else s)"

text \<open>\<open>GetHandler\<close> and the test of the loop in \<open>ServeCalls\<close>: wait for a handler, take the first one, run it or end.\<close>

definition GetHandler :: "callable \<Rightarrow> callable" where
  "GetHandler s = (case m_handlers s of
       [] \<Rightarrow> s\<lparr>thread := Sleeping\<rparr>
     | h # hs \<Rightarrow> s\<lparr>m_handlers := hs, thread := (case h of StepLoop \<Rightarrow> InStep | Empty \<Rightarrow> Ended)\<rparr>)"

inductive callable_step :: "callable \<Rightarrow> callable \<Rightarrow> bool" where
  get: "owner s = OwnerIdle \<Longrightarrow> callable_step s (Get s)"
| get_notify: "owner s = OwnerNotify \<Longrightarrow> callable_step s ((notify_handler s)\<lparr>owner := OwnerIdle\<rparr>)"
| delete: "owner s = OwnerIdle \<Longrightarrow> callable_step s (Callable_delete s)"
| delete_notify: "owner s = StopNotify \<Longrightarrow> callable_step s ((notify_handler s)\<lparr>owner := OwnerJoining\<rparr>)"
| joined: "owner s = OwnerJoining \<Longrightarrow> thread s = Ended \<Longrightarrow> callable_step s (s\<lparr>owner := OwnerJoined\<rparr>)"
| take_handler: "thread s = Getting \<or> thread s = Awake \<Longrightarrow> callable_step s (GetHandler s)"
| called: "callable_step s (s\<lparr>incoming := incoming s + 1\<rparr>)"
| serve: "thread s = InStep \<Longrightarrow> 0 < incoming s \<Longrightarrow>
    callable_step s (s\<lparr>incoming := incoming s - 1, served := served s + 1, thread := Getting\<rparr>)"


subsection \<open>The constructor\<close>

text \<open>The kernel's handles: a handle is a number and \<open>rcOk\<close> is 0.  The return code of \<open>KnHandleConnect\<close> is not looked at;
  the result of the constructor is the text of an exception, or the callback handle, the handle the event loop listens on, and
  the object with its thread started.\<close>

record 'w handle_api =
  KnHandleConnect :: "'w \<Rightarrow> (nat \<times> nat \<times> nat) \<times> 'w"
  KnHandleClose :: "nat \<Rightarrow> 'w \<Rightarrow> int \<times> 'w"
  KnHandleCreateUserObjectEx :: "nat \<Rightarrow> nat \<Rightarrow> 'w \<Rightarrow> (int \<times> nat) \<times> 'w"

datatype handle_event =
    HandlesConnected "nat \<times> nat \<times> nat"
  | HandleClosed nat int
  | UserObjectCreated nat nat "int \<times> nat"

definition show_rc :: "int \<Rightarrow> string" where
  "show_rc rc = (if rc < 0 then ''-'' else []) @ dec (nat \<bar>rc\<bar>)"

definition Callable_new :: "'w handle_api \<Rightarrow> nat \<Rightarrow> ('w, handle_event, string + nat \<times> nat \<times> callable) io" where
  "Callable_new api riid = do {
     (listener, server, client) \<leftarrow> call HandlesConnected (KnHandleConnect api);
     _ \<leftarrow> call (HandleClosed client) (KnHandleClose api client);
     _ \<leftarrow> (if server \<noteq> listener then call (HandleClosed server) (KnHandleClose api server) else io_return 0);
     (rc, callable) \<leftarrow> call (UserObjectCreated listener riid) (KnHandleCreateUserObjectEx api listener riid);
     if rc \<noteq> 0 then io_return (Inl (''KnHandleCreateUserObjectEx failed with code: '' @ show_rc rc))
     else io_return (Inr (callable, listener, new_callable)) }"


subsection \<open>The client\<close>

datatype client_event =
    CallableMade "string option"
  | ProxyMade "string option"
  | Got unit
  | ResolveCalled string "string option"
  | CallableDestroyed unit

text \<open>The services: the class above, whose constructor may throw, and the proxy of the resolver, which throws when it cannot be
  made or the call fails.\<close>

record 'w client_api =
  make_callable :: "'w \<Rightarrow> string option \<times> 'w"
  make_proxy :: "'w \<Rightarrow> string option \<times> 'w"
  get_callable :: "'w \<Rightarrow> unit \<times> 'w"
  call_resolve :: "string \<Rightarrow> 'w \<Rightarrow> string option \<times> 'w"
  destroy_callable :: "'w \<Rightarrow> unit \<times> 'w"

fun resolve_names :: "'w client_api \<Rightarrow> string list \<Rightarrow> ('w, client_event, bool) io" where
  "resolve_names api [] = io_return True"
| "resolve_names api (nm # names) = do {
     _ \<leftarrow> call Got (get_callable api);
     exc \<leftarrow> call (ResolveCalled nm) (call_resolve api nm);
     if exc \<noteq> None then io_return False else resolve_names api names }"

definition main_resolver_client :: "'w client_api \<Rightarrow> string list \<Rightarrow> ('w, client_event, int) io" where
  "main_resolver_client api names =
    (if names = [] then io_return EXIT_SUCCESS
     else do {
       exc \<leftarrow> call CallableMade (make_callable api);
       if exc \<noteq> None then io_return EXIT_FAILURE
       else do {
         exc \<leftarrow> call ProxyMade (make_proxy api);
         ok \<leftarrow> (if exc \<noteq> None then io_return False else resolve_names api names);
         _ \<leftarrow> call CallableDestroyed (destroy_callable api);
         io_return (if ok then EXIT_SUCCESS else EXIT_FAILURE) } })"

text \<open>The line the callback logs.\<close>

definition OnResolve :: "string \<Rightarrow> string \<Rightarrow> string" where
  "OnResolve nm address = ''Host '' @ nm @ '' has address: '' @ address"


subsection \<open>Contracts\<close>

definition callable_ok :: "callable \<Rightarrow> bool" where
  "callable_ok s \<longleftrightarrow>
    served s + length (filter (\<lambda>h. h = StepLoop) (m_handlers s)) + (if thread s = InStep then 1 else 0) = gets s \<and>
    (owner s \<in> {OwnerIdle, OwnerNotify} \<longrightarrow> Empty \<notin> set (m_handlers s) \<and> thread s \<noteq> Ended) \<and>
    (owner s \<in> {StopNotify, OwnerJoining, OwnerJoined} \<longrightarrow>
       (if thread s = Ended then m_handlers s = [] else \<exists>n. m_handlers s = replicate n StepLoop @ [Empty])) \<and>
    (thread s = Sleeping \<longrightarrow> m_handlers s = [] \<and> owner s = OwnerIdle \<or> owner s \<in> {OwnerNotify, StopNotify}) \<and>
    (owner s = OwnerJoined \<longrightarrow> thread s = Ended)"

lemma only_steps: "Empty \<notin> set hs \<Longrightarrow> \<exists>n. hs = replicate n StepLoop"
  by (metis (full_types) handler.exhaust replicate_eqI)

lemma GetHandler_ok:
  assumes "callable_ok s" "thread s = Getting \<or> thread s = Awake"
  shows "callable_ok (GetHandler s)"
proof (cases "m_handlers s")
  case Nil
  then show ?thesis using assms by (cases "owner s") (auto simp: callable_ok_def GetHandler_def)
next
  case (Cons h hs)
  show ?thesis
  proof (cases "owner s \<in> {OwnerIdle, OwnerNotify}")
    case True
    then show ?thesis using assms Cons by (cases h) (auto simp: callable_ok_def GetHandler_def)
  next
    case False
    then have "owner s \<in> {StopNotify, OwnerJoining}" using assms by (cases "owner s") (auto simp: callable_ok_def)
    then obtain n where "m_handlers s = replicate n StepLoop @ [Empty]" using assms by (auto simp: callable_ok_def)
    then show ?thesis using assms False Cons
      by (cases n) (auto simp: callable_ok_def GetHandler_def)
  qed
qed

lemma callable_step_ok:
  assumes "callable_ok s" "callable_step s s'"
  shows "callable_ok s'"
  using assms(2)
proof cases
  case delete
  then obtain n where "m_handlers s = replicate n StepLoop" using assms(1) only_steps by (auto simp: callable_ok_def)
  then show ?thesis using delete assms(1) by (auto simp: callable_ok_def Callable_delete_def AddHandler_def)
next
  case take_handler
  then show ?thesis using GetHandler_ok [OF assms(1)] by simp
qed (use assms(1) in \<open>auto simp: callable_ok_def Get_def AddHandler_def notify_handler_def split: if_splits\<close>)

interpretation callable_inv: invariant new_callable callable_step callable_ok
proof
  show "callable_ok new_callable" by (simp add: callable_ok_def new_callable_def)
qed (rule callable_step_ok)

text \<open>C15: The callback thread of the client, for every interleaving: it serves at most one call for each \<open>Get\<close>, it
  sleeps only while its queue is empty (no wake-up is lost), and when the destructor has joined it,
  exactly as many calls were served as \<open>Get\<close> was called.\<close>

theorem callable_spec:
  assumes "callable_step\<^sup>*\<^sup>* new_callable s"
  shows "served s \<le> gets s \<and> (thread s = Sleeping \<and> owner s \<in> {OwnerIdle, OwnerJoining} \<longrightarrow> m_handlers s = [] \<and> owner s = OwnerIdle) \<and>
    (owner s = OwnerJoined \<longrightarrow> served s = gets s)"
  using callable_inv.inv_reachable [OF assms] by (auto simp: callable_ok_def)

theorem callable_spec_witness:
  "\<exists>s. callable_step\<^sup>*\<^sup>* new_callable s \<and> owner s = OwnerJoined \<and> served s = gets s \<and> gets s = 1"
proof -
  define s1 where "s1 = Get new_callable"
  define s2 where "s2 = s1\<lparr>owner := OwnerIdle\<rparr>"
  define s3 where "s3 = s2\<lparr>incoming := 1\<rparr>"
  define s4 where "s4 = GetHandler s3"
  define s5 where "s5 = s4\<lparr>incoming := 0, served := 1, thread := Getting\<rparr>"
  define s6 where "s6 = Callable_delete s5"
  define s7 where "s7 = s6\<lparr>owner := OwnerJoining\<rparr>"
  define s8 where "s8 = GetHandler s7"
  define s9 where "s9 = s8\<lparr>owner := OwnerJoined\<rparr>"
  note defs = s1_def s2_def s3_def s4_def s5_def s6_def s7_def s8_def s9_def Get_def AddHandler_def Callable_delete_def
    GetHandler_def notify_handler_def new_callable_def
  have "callable_step new_callable s1" unfolding s1_def by (rule callable_step.get) (simp add: new_callable_def)
  moreover have "callable_step s1 s2" using callable_step.get_notify [of s1] by (simp add: defs)
  moreover have "callable_step s2 s3" using callable_step.called [of s2] by (simp add: defs)
  moreover have "callable_step s3 s4" unfolding s4_def by (rule callable_step.take_handler) (simp add: defs)
  moreover have "callable_step s4 s5" using callable_step.serve [of s4] by (simp add: defs)
  moreover have "callable_step s5 s6" unfolding s6_def by (rule callable_step.delete) (simp add: defs)
  moreover have "callable_step s6 s7" using callable_step.delete_notify [of s6] by (simp add: defs)
  moreover have "callable_step s7 s8" unfolding s8_def by (rule callable_step.take_handler) (simp add: defs)
  moreover have "callable_step s8 s9" using callable_step.joined [of s8] by (simp add: defs)
  ultimately have run: "callable_step\<^sup>*\<^sup>* new_callable s9"
    by (meson converse_rtranclp_into_rtranclp rtranclp.rtrancl_refl)
  moreover have "owner s9 = OwnerJoined" "gets s9 = 1" by (simp_all add: defs)
  ultimately show ?thesis using callable_spec [OF run] by blast
qed

text \<open>
  The destructor ends.  \<open>calls_come\<close>: for every \<open>Get\<close> there is a call that was served or waits to be.
\<close>

fun thread_rank :: "thread_point \<Rightarrow> nat" where
  "thread_rank Ended = 0"
| "thread_rank Getting = 1"
| "thread_rank Awake = 1"
| "thread_rank _ = 2"

fun owner_rank :: "owner_point \<Rightarrow> nat" where
  "owner_rank StopNotify = 2"
| "owner_rank OwnerJoining = 1"
| "owner_rank _ = 0"

definition stop_rank :: "callable \<Rightarrow> nat" where
  "stop_rank s = 3 * length (m_handlers s) + thread_rank (thread s) + owner_rank (owner s)"

definition calls_come :: "callable \<Rightarrow> bool" where
  "calls_come s \<longleftrightarrow> gets s \<le> served s + incoming s"

definition in_destructor :: "callable \<Rightarrow> bool" where
  "in_destructor s \<longleftrightarrow> callable_ok s \<and> owner s \<in> {StopNotify, OwnerJoining, OwnerJoined} \<and> calls_come s"

lemma stop_rank_GetHandler:
  "m_handlers s \<noteq> [] \<Longrightarrow> thread s \<in> {Getting, Awake} \<Longrightarrow> stop_rank (GetHandler s) < stop_rank s"
  by (cases "m_handlers s") (auto simp: stop_rank_def GetHandler_def split: handler.split)

lemma destructor_handlers: "in_destructor s \<Longrightarrow> thread s \<noteq> Ended \<Longrightarrow> m_handlers s \<noteq> []"
  by (auto simp: in_destructor_def callable_ok_def)

lemma destructor_rank:
  assumes "in_destructor s" "callable_step s s'"
  shows "s' = s\<lparr>incoming := incoming s + 1\<rparr> \<or> stop_rank s' < stop_rank s"
  using assms(2)
proof cases
  case take_handler
  then show ?thesis using stop_rank_GetHandler [of s] destructor_handlers [OF assms(1)] by auto
qed (use assms(1) in \<open>auto simp: in_destructor_def stop_rank_def notify_handler_def\<close>)

lemma destructor_keeps: "in_destructor s \<Longrightarrow> callable_step s s' \<Longrightarrow> in_destructor s'"
proof -
  assume s: "in_destructor s" "callable_step s s'"
  have "callable_ok s'" using s callable_step_ok unfolding in_destructor_def by blast
  moreover have "owner s' \<in> {StopNotify, OwnerJoining, OwnerJoined} \<and> calls_come s'"
    using s(2) by cases (use s(1) in \<open>auto simp: in_destructor_def calls_come_def notify_handler_def GetHandler_def split: list.splits\<close>)
  ultimately show ?thesis unfolding in_destructor_def by blast
qed

lemma destructor_enabled:
  assumes "in_destructor s" "owner s \<noteq> OwnerJoined"
  shows "\<exists>s'. callable_step s s' \<and> s' \<noteq> s\<lparr>incoming := incoming s + 1\<rparr>"
proof -
  have step: ?thesis if "callable_step s s'" "owner s' \<noteq> owner s \<or> thread s' \<noteq> thread s" for s'
    using that by (intro exI [of _ s']) auto
  show ?thesis
  proof (cases "thread s = InStep")
    case True
    then have "0 < incoming s" using assms by (auto simp: in_destructor_def callable_ok_def calls_come_def)
    from callable_step.serve [OF True this] show ?thesis by (rule step) (simp add: True)
  next
    case False
    show ?thesis
    proof (cases "owner s = StopNotify")
      case True
      from callable_step.delete_notify [OF this] show ?thesis by (rule step) (simp add: True)
    next
      case joining: False
      then have owner: "owner s = OwnerJoining" using assms by (auto simp: in_destructor_def)
      show ?thesis
      proof (cases "thread s = Ended")
        case True
        from callable_step.joined [OF owner this] show ?thesis by (rule step) (simp add: owner)
      next
        case run: False
        then have "thread s = Getting \<or> thread s = Awake"
          using False owner assms by (cases "thread s") (auto simp: in_destructor_def callable_ok_def)
        from callable_step.take_handler [OF this] show ?thesis
          using destructor_handlers [OF assms(1) run] \<open>thread s = Getting \<or> thread s = Awake\<close>
          by (intro step) (auto simp: GetHandler_def split: list.splits handler.splits)
      qed
    qed
  qed
qed

interpretation destructor: stopping callable_step in_destructor "\<lambda>s. owner s = OwnerJoined" stop_rank
proof
  fix s assume s: "in_destructor s" "owner s \<noteq> OwnerJoined"
  then obtain s' where "callable_step s s'" "s' \<noteq> s\<lparr>incoming := incoming s + 1\<rparr>" using destructor_enabled by blast
  then show "\<exists>s'. callable_step s s' \<and> in_destructor s' \<and> stop_rank s' < stop_rank s"
    using s destructor_rank destructor_keeps by blast
qed

text \<open>The destructor calls no \<open>Get\<close>.\<close>

lemma destructor_gets: "callable_step\<^sup>*\<^sup>* s t \<Longrightarrow> owner s \<notin> {OwnerIdle, OwnerNotify} \<Longrightarrow> gets t = gets s"
proof (induction rule: converse_rtranclp_induct)
  case (step s s')
  from step(1) have "gets s' = gets s \<and> owner s' \<notin> {OwnerIdle, OwnerNotify}"
    by cases (use step.prems in \<open>auto simp: notify_handler_def GetHandler_def split: list.splits\<close>)
  then show ?case using step.IH by simp
qed simp

lemma destructor_joins:
  assumes "callable_step\<^sup>*\<^sup>* new_callable s" "owner s \<in> {StopNotify, OwnerJoining}" "gets s \<le> served s + incoming s"
  shows "\<exists>t. callable_step\<^sup>*\<^sup>* s t \<and> owner t = OwnerJoined \<and> served t = gets s"
proof -
  have "in_destructor s"
    using assms callable_inv.inv_reachable [OF assms(1)] by (auto simp: in_destructor_def calls_come_def)
  then obtain t where t: "callable_step\<^sup>*\<^sup>* s t" "in_destructor t" "owner t = OwnerJoined" using destructor.can_stop by blast
  then have "served t = gets t" by (auto simp: in_destructor_def callable_ok_def)
  moreover have "gets t = gets s" using destructor_gets [OF t(1)] assms(2) by auto
  ultimately show ?thesis using t by auto
qed

lemma demo_called:
  "\<exists>s. callable_step\<^sup>*\<^sup>* new_callable s \<and> owner s = StopNotify \<and> gets s = 1 \<and> served s = 0 \<and> incoming s = 1"
proof -
  define s1 where "s1 = Get new_callable"
  define s2 where "s2 = s1\<lparr>owner := OwnerIdle\<rparr>"
  define s3 where "s3 = s2\<lparr>incoming := 1\<rparr>"
  define s4 where "s4 = Callable_delete s3"
  note defs = s1_def s2_def s3_def s4_def Get_def AddHandler_def Callable_delete_def notify_handler_def new_callable_def
  have "callable_step new_callable s1" unfolding s1_def by (rule callable_step.get) (simp add: new_callable_def)
  moreover have "callable_step s1 s2" using callable_step.get_notify [of s1] by (simp add: defs)
  moreover have "callable_step s2 s3" using callable_step.called [of s2] by (simp add: defs)
  moreover have "callable_step s3 s4" unfolding s4_def by (rule callable_step.delete) (simp add: defs)
  ultimately have "callable_step\<^sup>*\<^sup>* new_callable s4"
    by (meson converse_rtranclp_into_rtranclp rtranclp.rtrancl_refl)
  moreover have "owner s4 = StopNotify" "gets s4 = 1" "served s4 = 0" "incoming s4 = 1" by (simp_all add: defs)
  ultimately show ?thesis by blast
qed

text \<open>C16: Once the destructor of \<open>Callable\<close> was entered and a call has come for every \<open>Get\<close>, the threads can always
  finish, and every step they make brings the end closer: no step but the arrival of further calls keeps the
  rank, so the destructor returns after at most that many steps.\<close>

theorem destructor_returns:
  assumes "callable_step\<^sup>*\<^sup>* new_callable s" "owner s \<in> {StopNotify, OwnerJoining}" "gets s \<le> served s + incoming s"
  shows "(\<exists>t. callable_step\<^sup>*\<^sup>* s t \<and> owner t = OwnerJoined \<and> served t = gets s) \<and>
    (\<forall>s'. callable_step s s' \<longrightarrow> s' = s\<lparr>incoming := incoming s + 1\<rparr> \<or> stop_rank s' < stop_rank s)"
proof -
  have s: "in_destructor s"
    using assms callable_inv.inv_reachable [OF assms(1)] by (auto simp: in_destructor_def calls_come_def)
  then show ?thesis using destructor_joins [OF assms] destructor_rank [OF s] by blast
qed

theorem destructor_returns_witness:
  "\<exists>s t. callable_step\<^sup>*\<^sup>* new_callable s \<and> owner s = StopNotify \<and> gets s = 1 \<and> callable_step\<^sup>*\<^sup>* s t \<and> owner t = OwnerJoined \<and> served t = 1"
proof -
  obtain s where s: "callable_step\<^sup>*\<^sup>* new_callable s" "owner s = StopNotify" "gets s = 1" "served s = 0" "incoming s = 1"
    using demo_called by blast
  then obtain t where "callable_step\<^sup>*\<^sup>* s t" "owner t = OwnerJoined" "served t = 1" using destructor_returns [OF s(1)] by auto
  with s show ?thesis by blast
qed

text \<open>The handles a run of the constructor leaves open.\<close>

fun handle_effect :: "handle_event \<Rightarrow> nat set \<Rightarrow> nat set" where
  "handle_effect (HandlesConnected (l, s, c)) H = {l, s, c} \<union> H"
| "handle_effect (HandleClosed h _) H = H - {h}"
| "handle_effect (UserObjectCreated _ _ (rc, h)) H = (if rc = 0 then insert h H else H)"

text \<open>When the handle of the client differs from the other two, the constructor keeps exactly the handle it listens on and the
  callback handle; when it throws, the handle it listens on stays open.\<close>

lemma Callable_new_spec:
  assumes "run_io (Callable_new api riid) w = (r, es)" "HandlesConnected (l, s, c) \<in> set es" "c \<noteq> l" "c \<noteq> s"
  shows "fold handle_effect es {} = (case r of Inl _ \<Rightarrow> {l} | Inr (h, l', st) \<Rightarrow> {l, h}) \<and>
    (\<forall>h l' st. r = Inr (h, l', st) \<longrightarrow> l' = l \<and> st = new_callable)"
proof -
  have "io_post (Callable_new api riid) (\<lambda>r es. \<forall>l s c. HandlesConnected (l, s, c) \<in> set es \<longrightarrow> c \<noteq> l \<longrightarrow> c \<noteq> s \<longrightarrow>
      fold handle_effect es {} = (case r of Inl _ \<Rightarrow> {l} | Inr (h, l', st) \<Rightarrow> {l, h}) \<and>
      (\<forall>h l' st. r = Inr (h, l', st) \<longrightarrow> l' = l \<and> st = new_callable))"
    unfolding Callable_new_def by (intro io_rules io_nested) auto
  from io_post_run [OF this assms(1)] show ?thesis using assms(2-4) by blast
qed

text \<open>The client asks for the names in order, with one \<open>Get\<close> for each, up to the first call that throws.  In that case one
  more callback was announced than the resolver will make, and the destructor of \<open>Callable\<close> waits for it.\<close>

definition asked :: "string list \<Rightarrow> client_event list" where
  "asked names = concat (map (\<lambda>nm. [Got (), ResolveCalled nm None]) names)"

definition names_asked :: "string list \<Rightarrow> bool \<Rightarrow> client_event list \<Rightarrow> bool" where
  "names_asked names ok es \<longleftrightarrow> (if ok then es = asked names else
     \<exists>before nm exc rest. names = before @ nm # rest \<and> es = asked before @ [Got (), ResolveCalled nm (Some exc)])"

lemma names_asked_intros:
  "names_asked [] True []"
  "names_asked (nm # names) False [Got (), ResolveCalled nm (Some exc)]"
  "names_asked names ok es \<Longrightarrow> names_asked (nm # names) ok (Got () # ResolveCalled nm None # es)"
proof -
  show "names_asked (nm # names) ok (Got () # ResolveCalled nm None # es)" if "names_asked names ok es"
  proof (cases ok)
    case False
    then obtain before x exc rest where "names = before @ x # rest" "es = asked before @ [Got (), ResolveCalled x (Some exc)]"
      using \<open>names_asked names ok es\<close> by (auto simp: names_asked_def)
    then show ?thesis using False unfolding names_asked_def
      by (simp only: if_False, intro exI [of _ "nm # before"] exI [of _ x] exI [of _ exc] exI [of _ rest]) (simp add: asked_def)
  qed (use \<open>names_asked names ok es\<close> in \<open>simp add: names_asked_def asked_def\<close>)
  show "names_asked (nm # names) False [Got (), ResolveCalled nm (Some exc)]"
    unfolding names_asked_def
    by (simp only: if_False, intro exI [of _ "[]"] exI [of _ nm] exI [of _ exc] exI [of _ names]) (simp add: asked_def)
qed (simp add: names_asked_def asked_def)

lemma resolve_names_post: "io_post (resolve_names api names) (names_asked names)"
proof (induction names)
  case (Cons nm names)
  show ?case unfolding resolve_names.simps
    by (intro io_rules io_post_mono [OF Cons.IH]) (simp_all add: names_asked_intros, metis names_asked_intros(2) option.exhaust)
qed (auto intro!: io_rules names_asked_intros(1))

definition client_outcome :: "string list \<Rightarrow> int \<Rightarrow> client_event list \<Rightarrow> bool" where
  "client_outcome names code es \<longleftrightarrow>
    (\<exists>e. code = EXIT_FAILURE \<and> (es = [CallableMade (Some e)] \<or> es = [CallableMade None, ProxyMade (Some e), CallableDestroyed ()])) \<or>
    (\<exists>body ok. names_asked names ok body \<and> es = CallableMade None # ProxyMade None # body @ [CallableDestroyed ()] \<and>
      code = (if ok then EXIT_SUCCESS else EXIT_FAILURE))"

lemma client_outcome_intros:
  "client_outcome names EXIT_FAILURE [CallableMade (Some e)]"
  "client_outcome names EXIT_FAILURE [CallableMade None, ProxyMade (Some e), CallableDestroyed ()]"
  "names_asked names ok body \<Longrightarrow>
    client_outcome names (if ok then EXIT_SUCCESS else EXIT_FAILURE) (CallableMade None # ProxyMade None # body @ [CallableDestroyed ()])"
  unfolding client_outcome_def by blast+

lemma main_resolver_client_spec:
  assumes "run_io (main_resolver_client api names) w = (code, es)" "names \<noteq> []"
  shows "client_outcome names code es"
proof -
  have "io_post (main_resolver_client api names) (client_outcome names)"
    unfolding main_resolver_client_def if_not_P [OF assms(2)]
    apply (intro io_rules io_nested io_post_bind [OF resolve_names_post])
    subgoal for e by (cases e) (simp_all add: client_outcome_intros(1))
    subgoal for e e' by (cases e') (simp_all add: client_outcome_intros(2))
    subgoal for e e' ok body by (simp add: client_outcome_intros(3))
    done
  from io_post_run [OF this assms(1)] show ?thesis .
qed

text \<open>How many callbacks a run of the client announced, and how many calls of the resolver were accepted.\<close>

definition announced_calls :: "client_event list \<Rightarrow> nat" where
  "announced_calls es = length (filter (\<lambda>e. e = Got ()) es)"

fun accepted_call :: "client_event \<Rightarrow> bool" where
  "accepted_call (ResolveCalled nm None) = True"
| "accepted_call _ = False"

definition accepted_calls :: "client_event list \<Rightarrow> nat" where
  "accepted_calls es = length (filter accepted_call es)"

lemma counts_asked [simp]: "announced_calls (asked names) = length names" "accepted_calls (asked names) = length names"
  by (induction names) (simp_all add: announced_calls_def accepted_calls_def asked_def)

lemma counts_append [simp]:
  "announced_calls (es @ es') = announced_calls es + announced_calls es'" "accepted_calls (es @ es') = accepted_calls es + accepted_calls es'"
  by (simp_all add: announced_calls_def accepted_calls_def)

lemma counts_Cons [simp]:
  "announced_calls [] = 0" "announced_calls (e # es) = (if e = Got () then 1 else 0) + announced_calls es"
  "accepted_calls [] = 0" "accepted_calls (e # es) = (if accepted_call e then 1 else 0) + accepted_calls es"
  by (simp_all add: announced_calls_def accepted_calls_def)

lemma client_counts:
  assumes "client_outcome names code es"
  shows "code = EXIT_SUCCESS \<Longrightarrow> announced_calls es = length names \<and> accepted_calls es = length names"
    "code = EXIT_FAILURE \<Longrightarrow> announced_calls es = 0 \<or> announced_calls es = accepted_calls es + 1"
  using assms by (auto simp: client_outcome_def names_asked_def split: if_splits)

end
