(* ===== verification/Execmgr.thy ===== *)
theory Execmgr
  imports Effects Kosipc
begin

section \<open>The execution manager example\<close>

text \<open>
  \<^verbatim>\<open>examples/execution_manager_separated_vfs\<close>: a client that starts two applications through the execution manager, waits
  for a notification of each and stops them, and the application.  The name server, the connection
  manager, the IPC transport and the execution manager are parameters.  Messages on \<open>std::cerr\<close> are left out.
\<close>

subsection \<open>The client\<close>

datatype Result = Ok | TransferError | OtherResult nat

record StartEntityInfo =
  entityName :: "string option"
  eiid :: "string option"
  ei_args :: "string list"
  ei_envs :: "string list"

record StartEntityResultInfo =
  sid :: nat
  entId :: nat

text \<open>\<open>recv_request\<close> is \<open>nk_transport_recv\<close> with the answer to whether the request calls \<open>Notification\<close>.\<close>

record 'w execmgr_api =
  NsCreate :: "'w \<Rightarrow> (Result \<times> nat) \<times> 'w"
  NsPublishService :: "nat \<Rightarrow> string \<Rightarrow> string \<Rightarrow> string \<Rightarrow> 'w \<Rightarrow> Result \<times> 'w"
  CreateExecutionManager :: "string \<Rightarrow> string \<Rightarrow> string \<Rightarrow> 'w \<Rightarrow> Result \<times> 'w"
  GetApplicationController :: "'w \<Rightarrow> Result \<times> 'w"
  StartEntity :: "string \<Rightarrow> StartEntityInfo \<Rightarrow> 'w \<Rightarrow> (Result \<times> StartEntityResultInfo) \<times> 'w"
  StopEntity :: "nat \<Rightarrow> 'w \<Rightarrow> Result \<times> 'w"
  KnCmListen :: "'w \<Rightarrow> (Result \<times> string \<times> string) \<times> 'w"
  KnCmAccept :: "string \<Rightarrow> string \<Rightarrow> 'w \<Rightarrow> (Result \<times> nat) \<times> 'w"
  recv_request :: "nat \<Rightarrow> 'w \<Rightarrow> (nk_err \<times> bool) \<times> 'w"
  send_reply :: "nat \<Rightarrow> 'w \<Rightarrow> nk_err \<times> 'w"

datatype execmgr_event =
    NsCreated "Result \<times> nat"
  | ServicePublished nat string string string Result
  | ManagerCreated string string string Result
  | ControllerGot Result
  | EntityStarted string StartEntityInfo "Result \<times> StartEntityResultInfo"
  | EntityStopped nat Result
  | Listened "Result \<times> string \<times> string"
  | Accepted string string "Result \<times> nat"
  | Received nat "nk_err \<times> bool"
  | Replied nat nk_err
  | Printed string

type_synonym ('w, 'a) execmgr_io = "('w, execmgr_event, 'a) io"

definition Tag_client :: string where "Tag_client = ''[Client]''"

definition client_line :: "string \<Rightarrow> string" where
  "client_line s = Tag_client @ '': '' @ s @ [CHR 0x0A]"

definition sid_line :: "nat \<Rightarrow> string" where
  "sid_line n = client_line (''Application started with SID '' @ dec n)"

definition PublishService :: "'w execmgr_api \<Rightarrow> ('w, Result) execmgr_io" where
  "PublishService api = do {
     (rc, ns) \<leftarrow> call NsCreated (NsCreate api);
     if rc \<noteq> Ok then io_return rc
     else call (ServicePublished ns ''client.Notification'' ''client.Client'' ''client.Client.notificationImpl'')
       (NsPublishService api ns ''client.Notification'' ''client.Client'' ''client.Client.notificationImpl'') }"

definition Notification_impl :: "('w, nk_err) execmgr_io" where
  "Notification_impl = do {
     _ \<leftarrow> emit (Printed (client_line ''Received notification from the application''));
     io_return NK_EOK }"

text \<open>The dispatcher generated from the interface calls the implementation when the request is for it; its result is not
  used.\<close>

definition WaitForNotification :: "'w execmgr_api \<Rightarrow> ('w, Result) execmgr_io" where
  "WaitForNotification api = do {
     (rc, client, service) \<leftarrow> call Listened (KnCmListen api);
     if rc \<noteq> Ok then io_return rc
     else do {
       (rc, handle) \<leftarrow> call (Accepted client service) (KnCmAccept api client service);
       if rc \<noteq> Ok then io_return rc
       else do {
         (nk_rc, notification) \<leftarrow> call (Received handle) (recv_request api handle);
         if nk_rc \<noteq> NK_EOK then io_return TransferError
         else do {
           _ \<leftarrow> (if notification then Notification_impl else io_return NK_EOK);
           nk_rc \<leftarrow> call (Replied handle) (send_reply api handle);
           if nk_rc \<noteq> NK_EOK then io_return TransferError else io_return Ok } } } }"

definition mainConnection :: string where "mainConnection = ''ExecMgrEntity''"
definition appControlInterface :: string where "appControlInterface = ''kl.execution_manager.ExecutionManager.iac''"
definition appStateInterface :: string where "appStateInterface = ''kl.execution_manager.ExecutionManager.ias''"

definition appPath :: string where "appPath = ''/Application''"

definition info1 :: StartEntityInfo where
  "info1 = \<lparr>entityName = None, eiid = Some ''application.Application'', ei_args = [''1'', ''ARG1'', ''ARG2'', ''ARG3''],
     ei_envs = [''ENV1=10'', ''ENV2=envStr'', ''VFS_FILESYSTEM_BACKEND=client:kl.VfsSdCardFs'']\<rparr>"

definition info2 :: StartEntityInfo where
  "info2 = \<lparr>entityName = Some ''application.Application'', eiid = Some ''application.Application'', ei_args = [''2''],
     ei_envs = [''VFS_FILESYSTEM_BACKEND=client:kl.VfsSdCardFs'']\<rparr>"

definition main_execmgr :: "'w execmgr_api \<Rightarrow> ('w, int) execmgr_io" where
  "main_execmgr api = do {
     _ \<leftarrow> emit (Printed (client_line ''Client started''));
     rc \<leftarrow> PublishService api;
     if rc \<noteq> Ok then io_return EXIT_FAILURE
     else do {
       rc \<leftarrow> call (ManagerCreated mainConnection appControlInterface appStateInterface)
         (CreateExecutionManager api mainConnection appControlInterface appStateInterface);
       if rc \<noteq> Ok then io_return EXIT_FAILURE
       else do {
         rc \<leftarrow> call ControllerGot (GetApplicationController api);
         if rc \<noteq> Ok then io_return EXIT_FAILURE
         else do {
           _ \<leftarrow> emit (Printed (client_line ''Starting applications from ELF''));
           (rc, result) \<leftarrow> call (EntityStarted appPath info1) (StartEntity api appPath info1);
           if rc \<noteq> Ok then io_return EXIT_FAILURE
           else do {
             _ \<leftarrow> emit (Printed (sid_line (sid result)));
             let firstAppId = entId result;
             rc \<leftarrow> WaitForNotification api;
             if rc \<noteq> Ok then io_return EXIT_FAILURE
             else do {
               (rc, result) \<leftarrow> call (EntityStarted appPath info2) (StartEntity api appPath info2);
               if rc \<noteq> Ok then io_return EXIT_FAILURE
               else do {
                 let secondAppId = entId result;
                 rc \<leftarrow> WaitForNotification api;
                 if rc \<noteq> Ok then io_return EXIT_FAILURE
                 else do {
                   rc \<leftarrow> call (EntityStopped firstAppId) (StopEntity api firstAppId);
                   if rc \<noteq> Ok then io_return EXIT_FAILURE
                   else do {
                     rc \<leftarrow> call (EntityStopped secondAppId) (StopEntity api secondAppId);
                     if rc \<noteq> Ok then io_return EXIT_FAILURE
                     else io_return EXIT_SUCCESS } } } } } } } } }"


subsection \<open>The application\<close>

record 'w app_api =
  KnTaskGetName :: "'w \<Rightarrow> (Retcode \<times> string) \<times> 'w"
  app_NsCreate :: "'w \<Rightarrow> Retcode \<times> 'w"
  NsEnumServices :: "string \<Rightarrow> 'w \<Rightarrow> (Retcode \<times> string \<times> string) \<times> 'w"
  KnCmConnect :: "string \<Rightarrow> string \<Rightarrow> 'w \<Rightarrow> (Retcode \<times> nat \<times> nat) \<times> 'w"
  call_Notification :: "nat \<Rightarrow> nat \<Rightarrow> 'w \<Rightarrow> Retcode \<times> 'w"

datatype app_event =
    TaskName "Retcode \<times> string"
  | AppNsCreated Retcode
  | ServicesListed string "Retcode \<times> string \<times> string"
  | Connected string string "Retcode \<times> nat \<times> nat"
  | NotificationSent nat nat Retcode
  | AppPrinted string
  | Slept nat

definition SendNotificationToClient :: "'w app_api \<Rightarrow> ('w, app_event, Retcode) io" where
  "SendNotificationToClient api = do {
     rc \<leftarrow> call AppNsCreated (app_NsCreate api);
     if rc \<noteq> rcOk then io_return rc
     else do {
       (rc, server, service) \<leftarrow> call (ServicesListed ''client.Notification'') (NsEnumServices api ''client.Notification'');
       if rc \<noteq> rcOk then io_return rc
       else do {
         (rc, handle, rsid) \<leftarrow> call (Connected server service) (KnCmConnect api server service);
         if rc \<noteq> rcOk then io_return rc
         else call (NotificationSent handle rsid) (call_Notification api handle rsid) } } }"

definition app_line :: "string \<Rightarrow> string" where
  "app_line s = ''[Application]: '' @ s"

fun alive_loop :: "string \<Rightarrow> nat \<Rightarrow> ('w, app_event, unit) io" where
  "alive_loop buf 0 = io_return ()"
| "alive_loop buf (Suc n) = do {
     _ \<leftarrow> emit (AppPrinted (app_line (''Task with name = '' @ buf @ '' is still alive...'' @ [CHR 0x0A])));
     _ \<leftarrow> emit (Slept 20);
     alive_loop buf n }"

text \<open>\<^term>\<open>None\<close>: still alive after \<open>n\<close> rounds of the last loop.  \<open>argv\<close> has the name of the program first.\<close>

definition main_application :: "'w app_api \<Rightarrow> nat \<Rightarrow> string list \<Rightarrow> string list \<Rightarrow> ('w, app_event, Retcode option) io" where
  "main_application api n argv envs = do {
     (rc, buf) \<leftarrow> call TaskName (KnTaskGetName api);
     let idx = (if length argv > 1 then argv ! 1 else []);
     _ \<leftarrow> emit (AppPrinted (app_line (''application'' @ idx @ '' started'' @ [CHR 0x0A])));
     if rc \<noteq> rcOk then io_return (Some rc)
     else do {
       _ \<leftarrow> emit (AppPrinted (app_line (''ARGS: '' @ concat (map (\<lambda>a. a @ '', '') argv) @ [CHR 0x0A])));
       _ \<leftarrow> emit (AppPrinted (app_line (''ENVS: '' @ concat (map (\<lambda>e. e @ '', '') envs) @ [CHR 0x0A])));
       rc \<leftarrow> SendNotificationToClient api;
       if rc \<noteq> rcOk then io_return (Some rc)
       else do { _ \<leftarrow> alive_loop buf n; io_return None } } }"


subsection \<open>Contracts\<close>

text \<open>The trace of a notification that was received and answered.\<close>

definition notified :: "string \<Rightarrow> string \<Rightarrow> nat \<Rightarrow> bool \<Rightarrow> execmgr_event list" where
  "notified client service handle notification =
     [Listened (Ok, client, service), Accepted client service (Ok, handle), Received handle (NK_EOK, notification)] @
     (if notification then [Printed (client_line ''Received notification from the application'')] else []) @ [Replied handle NK_EOK]"

text \<open>The applications that were started, and those that were stopped.\<close>

fun started_id :: "execmgr_event \<Rightarrow> nat list" where
  "started_id (EntityStarted _ _ (Ok, info)) = [entId info]"
| "started_id _ = []"

fun stopped_id :: "execmgr_event \<Rightarrow> nat list" where
  "stopped_id (EntityStopped i Ok) = [i]"
| "stopped_id _ = []"

definition started :: "execmgr_event list \<Rightarrow> nat list" where "started es = concat (map started_id es)"
definition stopped :: "execmgr_event list \<Rightarrow> nat list" where "stopped es = concat (map stopped_id es)"

lemma started_simps [simp]: "started [] = []" "started (e # es) = started_id e @ started es" "started (es @ es') = started es @ started es'"
  by (simp_all add: started_def)

lemma stopped_simps [simp]: "stopped [] = []" "stopped (e # es) = stopped_id e @ stopped es" "stopped (es @ es') = stopped es @ stopped es'"
  by (simp_all add: stopped_def)

lemma stopped_id_failed [simp]: "r \<noteq> Ok \<Longrightarrow> stopped_id (EntityStopped i r) = []"
  by (cases r) auto

lemma WaitForNotification_post:
  "io_post (WaitForNotification api) (\<lambda>r es. started es = [] \<and> stopped es = [] \<and> (r = Ok \<longrightarrow> (\<exists>c s h b. es = notified c s h b)))"
  unfolding WaitForNotification_def Notification_impl_def
  by (intro io_rules io_nested) (auto simp: notified_def)

definition published :: "nat \<Rightarrow> execmgr_event list" where
  "published ns = [NsCreated (Ok, ns), ServicePublished ns ''client.Notification'' ''client.Client'' ''client.Client.notificationImpl'' Ok]"

lemma PublishService_post:
  "io_post (PublishService api) (\<lambda>r es. started es = [] \<and> stopped es = [] \<and> (r = Ok \<longrightarrow> (\<exists>ns. es = published ns)))"
  unfolding PublishService_def by (intro io_rules) (auto simp: published_def)

text \<open>C21: The client of the execution manager: it exits with success exactly when it published its service, started the two
  applications with their parameters, received and answered a notification after each start and before going on, and
  then stopped the first and the second one.  In every run it stops only applications it has started, in
  that order; a run that fails leaves those it has not stopped running.\<close>

theorem main_execmgr_spec:
  assumes "run_io (main_execmgr api) w = (code, es)"
  shows "(\<exists>running. started es = stopped es @ running) \<and> code \<in> {EXIT_SUCCESS, EXIT_FAILURE} \<and>
    (code = EXIT_SUCCESS \<longrightarrow> (\<exists>ns r1 r2 c1 s1 h1 b1 c2 s2 h2 b2.
       es = Printed (client_line ''Client started'') # published ns @
         [ManagerCreated mainConnection appControlInterface appStateInterface Ok, ControllerGot Ok,
           Printed (client_line ''Starting applications from ELF''), EntityStarted appPath info1 (Ok, r1),
           Printed (sid_line (sid r1))] @ notified c1 s1 h1 b1 @
         [EntityStarted appPath info2 (Ok, r2)] @ notified c2 s2 h2 b2 @
         [EntityStopped (entId r1) Ok, EntityStopped (entId r2) Ok])) \<and>
    (code = EXIT_FAILURE \<longrightarrow> length (stopped es) < 2)" (is "?Q code es")
proof -
  have none: "started (notified c s h b) = []" "stopped (notified c s h b) = []" "started (published ns) = []" "stopped (published ns) = []"
    for c s h b ns by (simp_all add: notified_def published_def)
  define Q where "Q = (\<lambda>code es. ?Q code es)"
  have failed: "Q EXIT_FAILURE es" if "\<exists>running. started es = stopped es @ running" "length (stopped es) < 2" for es
    using that by (simp add: Q_def)
  have success: "Q EXIT_SUCCESS (Printed (client_line ''Client started'') # published ns @
      ManagerCreated mainConnection appControlInterface appStateInterface Ok # ControllerGot Ok #
      Printed (client_line ''Starting applications from ELF'') # EntityStarted appPath info1 (Ok, r1) #
      Printed (sid_line (sid r1)) # notified c1 s1 h1 b1 @
      EntityStarted appPath info2 (Ok, r2) # notified c2 s2 h2 b2 @ [EntityStopped (entId r1) Ok, EntityStopped (entId r2) Ok])"
    for ns r1 r2 c1 s1 h1 b1 c2 s2 h2 b2
    unfolding Q_def using none by simp (intro exI conjI; rule refl)
  have "io_post (main_execmgr api) Q"
    unfolding main_execmgr_def Let_def
    by (intro io_rules io_post_bind [OF PublishService_post] io_post_bind [OF WaitForNotification_post])
      (auto simp: none intro!: failed success [simplified])
  from io_post_run [OF this assms] show ?thesis unfolding Q_def .
qed

text \<open>Services that always succeed.\<close>

definition demo_execmgr :: "unit execmgr_api" where
  "demo_execmgr = \<lparr>NsCreate = Pair (Ok, 1), NsPublishService = (\<lambda>_ _ _ _. Pair Ok), CreateExecutionManager = (\<lambda>_ _ _. Pair Ok),
     GetApplicationController = Pair Ok, StartEntity = (\<lambda>_ info. Pair (Ok, \<lparr>sid = 3, entId = length (ei_args info)\<rparr>)),
     StopEntity = (\<lambda>_. Pair Ok), KnCmListen = Pair (Ok, ''app'', ''notify''), KnCmAccept = (\<lambda>_ _. Pair (Ok, 7)), recv_request = (\<lambda>_. Pair (NK_EOK, True)),
     send_reply = (\<lambda>_. Pair NK_EOK)\<rparr>"

theorem main_execmgr_spec_witness:
  "\<exists>es. run_io (main_execmgr demo_execmgr) () = (EXIT_SUCCESS, es) \<and> started es = stopped es \<and> started es = [4, 1]"
proof -
  obtain code es where run: "run_io (main_execmgr demo_execmgr) () = (code, es)" by fastforce
  have "fst (run_io (main_execmgr demo_execmgr) ()) = EXIT_SUCCESS" "started (snd (run_io (main_execmgr demo_execmgr) ())) = [4, 1]"
    "length (stopped (snd (run_io (main_execmgr demo_execmgr) ()))) = 2"
    by (simp_all add: run_io_def main_execmgr_def PublishService_def WaitForNotification_def Notification_impl_def
        demo_execmgr_def info1_def info2_def)
  then have code: "code = EXIT_SUCCESS" "started es = [4, 1]" "length (stopped es) = 2" using run by simp_all
  from main_execmgr_spec [OF run] obtain running where "started es = stopped es @ running" by blast
  with code have "started es = stopped es" by (auto simp: length_Suc_conv numeral_2_eq_2)
  with run code show ?thesis by simp
qed

text \<open>The application ends only with an error code: once the client has its notification it prints that it is alive for as
  long as it runs.\<close>

definition alive :: "string \<Rightarrow> nat \<Rightarrow> app_event list" where
  "alive buf n = concat (replicate n [AppPrinted (app_line (''Task with name = '' @ buf @ '' is still alive...'' @ [CHR 0x0A])), Slept 20])"

lemma alive_loop_post: "io_post (alive_loop buf n) (\<lambda>_ es. es = alive buf n)"
proof (induction n)
  case (Suc n)
  show ?case unfolding alive_loop.simps by (intro io_rules io_post_mono [OF Suc.IH]) (simp add: alive_def)
qed (auto intro!: io_rules simp: alive_def)

lemma SendNotificationToClient_post:
  "io_post (SendNotificationToClient api) (\<lambda>r es. r = rcOk \<longrightarrow> (\<exists>pre handle rsid. es = pre @ [NotificationSent handle rsid rcOk]))"
  unfolding SendNotificationToClient_def by (intro io_rules) auto

lemma main_application_spec:
  assumes "run_io (main_application api n argv envs) w = (r, es)"
  shows "r \<noteq> Some rcOk \<and> (r = None \<longrightarrow> (\<exists>pre buf handle rsid. es = pre @ NotificationSent handle rsid rcOk # alive buf n))"
proof -
  have "io_post (main_application api n argv envs) (\<lambda>r es. r \<noteq> Some rcOk \<and>
     (r = None \<longrightarrow> (\<exists>pre buf handle rsid. es = pre @ NotificationSent handle rsid rcOk # alive buf n)))"
    unfolding main_application_def Let_def
    by (intro io_rules io_post_bind [OF SendNotificationToClient_post] io_post_bind [OF alive_loop_post])
      (simp_all, metis append.assoc append_Cons append_Nil)
  from io_post_run [OF this assms] show ?thesis .
qed

end
