(* ===== verification/Greeter.thy ===== *)
theory Greeter
  imports Effects "HOL-Library.Sublist"
begin

section \<open>The gRPC greeter\<close>

text \<open>
  \<^verbatim>\<open>examples/grpc\<close> as it is built for KasperskyOS: the command line arguments, the files of certificates, the
  client and the server.  The gRPC library, the network and the file system are parameters.
\<close>

subsection \<open>Arguments and files\<close>

definition Separator :: char where "Separator = CHR ''=''"

text \<open>\<open>TryParse\<close> for an option without and with a value: \<^term>\<open>Inl\<close> is a \<open>std::runtime_error\<close>; otherwise whether the argument
  was accepted, and the value.\<close>

definition TryParse_bool :: "string \<Rightarrow> string \<Rightarrow> bool \<Rightarrow> string + bool \<times> bool" where
  "TryParse_bool argName argText val =
    (if prefix argName argText
     then if length argText = length argName then Inr (True, True)
          else if argText ! length argName = Separator then Inl (''The only correct argument syntax is '' @ argName)
          else Inr (False, val)
     else Inr (False, val))"

definition TryParse_string :: "string \<Rightarrow> string \<Rightarrow> string \<Rightarrow> string + bool \<times> string" where
  "TryParse_string argName argText val =
    (if prefix argName argText
     then if length argText > length argName
          then if argText ! length argName = Separator then Inr (True, drop (length argName + 1) argText) else Inr (False, val)
          else Inl (''The only correct argument syntax is '' @ argName @ [Separator] @ ''argument_value'')
     else Inr (False, val))"

text \<open>A file system is what \<open>std::ifstream\<close> finds under a name.\<close>

definition ReadFile :: "(string \<Rightarrow> string option) \<Rightarrow> string \<Rightarrow> string + string" where
  "ReadFile files filename = (case files filename of None \<Rightarrow> Inl (''File not found: '' @ filename) | Some s \<Rightarrow> Inr s)"

definition arg_secure :: string where "arg_secure = ''--secure''"
definition arg_target :: string where "arg_target = ''--target''"
definition nl :: string where "nl = [CHR 0x0A]"

fun client_args :: "string list \<Rightarrow> bool \<Rightarrow> string \<Rightarrow> string + bool \<times> string" where
  "client_args [] useSecureConnection targetEndpoint = Inr (useSecureConnection, targetEndpoint)"
| "client_args (a # argv) useSecureConnection targetEndpoint =
    (case TryParse_bool arg_secure a useSecureConnection of
       Inl e \<Rightarrow> Inl e
     | Inr (True, s) \<Rightarrow> client_args argv s targetEndpoint
     | Inr (False, s) \<Rightarrow>
        (case TryParse_string arg_target a targetEndpoint of
           Inl e \<Rightarrow> Inl e
         | Inr (True, t) \<Rightarrow> client_args argv s t
         | Inr (False, t) \<Rightarrow> Inl (''The only acceptable arguments are'' @ nl @ arg_secure @ nl @ arg_target)))"

fun server_args :: "string list \<Rightarrow> bool \<Rightarrow> string + bool" where
  "server_args [] useSecureConnection = Inr useSecureConnection"
| "server_args (a # argv) useSecureConnection =
    (case TryParse_bool arg_secure a useSecureConnection of
       Inl e \<Rightarrow> Inl e
     | Inr (True, s) \<Rightarrow> server_args argv s
     | Inr (False, s) \<Rightarrow> Inl (''The only acceptable argument is'' @ nl @ arg_secure))"


subsection \<open>Service and client\<close>

definition SayHello_service :: "string \<Rightarrow> string" where
  "SayHello_service name_of_user = ''KOS-Hello '' @ name_of_user"

datatype status = StatusOk string | StatusError int string

definition show_int :: "int \<Rightarrow> string" where
  "show_int i = (if i < 0 then ''-'' else []) @ dec (nat \<bar>i\<bar>)"

definition SayHello_result :: "status \<Rightarrow> string" where
  "SayHello_result st = (case st of StatusOk message \<Rightarrow> message
     | StatusError code message \<Rightarrow> ''RPC failed ('' @ show_int code @ '') '' @ message)"

datatype credentials = Insecure | SslClient string | SslServer string string string

record 'w greeter_api =
  iface_up :: "'w \<Rightarrow> bool \<times> 'w"
  make_channel :: "string \<Rightarrow> credentials \<Rightarrow> string option \<Rightarrow> 'w \<Rightarrow> unit \<times> 'w"
  stub_SayHello :: "string \<Rightarrow> 'w \<Rightarrow> status \<times> 'w"
  build_and_start :: "string \<Rightarrow> credentials \<Rightarrow> 'w \<Rightarrow> bool \<times> 'w"
  server_wait :: "'w \<Rightarrow> unit \<times> 'w"

datatype greeter_event =
    Cout string
  | IfaceUp bool
  | SleptS nat
  | ChannelMade string credentials "string option" unit
  | Called string status
  | ServerStarted string credentials bool
  | Waited unit

definition client_tag :: string where "client_tag = ''[GreeterClient] ''"
definition server_tag :: string where "server_tag = ''[GreeterServer] ''"
definition boolalpha :: "bool \<Rightarrow> string" where "boolalpha b = (if b then ''true'' else ''false'')"

definition GetSecureCredentials_client :: "(string \<Rightarrow> string option) \<Rightarrow> string + credentials" where
  "GetSecureCredentials_client files = (case ReadFile files ''/cert/ca.pem'' of
     Inl e \<Rightarrow> Inl e | Inr cacert \<Rightarrow> Inr (SslClient cacert))"

text \<open>The argument \<open>GRPC_SSL_TARGET_NAME_OVERRIDE_ARG\<close> of a secure channel.\<close>

definition target_name :: "string option" where "target_name = Some ''foo.test.google.fr''"

definition CreateChannel :: "'w greeter_api \<Rightarrow> (string \<Rightarrow> string option) \<Rightarrow> string \<Rightarrow> bool \<Rightarrow>
    ('w, greeter_event, string + unit) io" where
  "CreateChannel api files target isSecure =
    (if isSecure
     then (case GetSecureCredentials_client files of
         Inl e \<Rightarrow> io_return (Inl e)
       | Inr cr \<Rightarrow> do { _ \<leftarrow> call (ChannelMade target cr target_name) (make_channel api target cr target_name); io_return (Inr ()) })
     else do { _ \<leftarrow> call (ChannelMade target Insecure None) (make_channel api target Insecure None); io_return (Inr ()) })"

definition user :: string where "user = ''KasperskyOS world''"

fun greet_loop :: "'w greeter_api \<Rightarrow> nat list \<Rightarrow> ('w, greeter_event, unit) io" where
  "greet_loop api [] = io_return ()"
| "greet_loop api (i # is) = do {
     _ \<leftarrow> emit (Cout (client_tag @ ''send request '' @ dec (i + 1) @ nl));
     st \<leftarrow> call (Called user) (stub_SayHello api user);
     _ \<leftarrow> emit (Cout (client_tag @ ''received: '' @ SayHello_result st @ nl));
     _ \<leftarrow> emit (SleptS 2);
     greet_loop api is }"

definition DEFAULT_ENDPOINT_ADDRESS :: string where "DEFAULT_ENDPOINT_ADDRESS = ''10.0.2.2:50051''"

definition main_greeter_client :: "'w greeter_api \<Rightarrow> (string \<Rightarrow> string option) \<Rightarrow> string list \<Rightarrow>
    ('w, greeter_event, int) io" where
  "main_greeter_client api files argv = do {
     _ \<leftarrow> emit (Cout (client_tag @ ''starting...'' @ nl));
     (case client_args argv False DEFAULT_ENDPOINT_ADDRESS of
        Inl e \<Rightarrow> do { _ \<leftarrow> emit (Cout (client_tag @ ''Error: '' @ e @ nl)); io_return EXIT_FAILURE }
      | Inr (secure, target) \<Rightarrow> do {
          _ \<leftarrow> emit (Cout (client_tag @ ''waiting for network...'' @ nl));
          up \<leftarrow> call IfaceUp (iface_up api);
          if \<not> up
          then do { _ \<leftarrow> emit (Cout (client_tag @ ''Error: Wait for network failed!'' @ nl)); io_return EXIT_FAILURE }
          else do {
            _ \<leftarrow> emit (SleptS 5);
            _ \<leftarrow> emit (Cout (client_tag @ ''target: '' @ target @ nl));
            _ \<leftarrow> emit (Cout (client_tag @ ''using secure connection: '' @ boolalpha secure @ nl));
            r \<leftarrow> CreateChannel api files target secure;
            (case r of
               Inl e \<Rightarrow> do { _ \<leftarrow> emit (Cout (client_tag @ ''Error: '' @ e @ nl)); io_return EXIT_FAILURE }
             | Inr _ \<Rightarrow> do { _ \<leftarrow> greet_loop api [0..<20000]; io_return EXIT_SUCCESS }) } }) }"


subsection \<open>The server\<close>

definition GetSecureCredentials_server :: "(string \<Rightarrow> string option) \<Rightarrow> string + credentials" where
  "GetSecureCredentials_server files = (case ReadFile files ''/cert/ca.pem'' of Inl e \<Rightarrow> Inl e
     | Inr serverCA \<Rightarrow> (case ReadFile files ''/cert/server1.pem'' of Inl e \<Rightarrow> Inl e
     | Inr servercert \<Rightarrow> (case ReadFile files ''/cert/server1.key'' of Inl e \<Rightarrow> Inl e
     | Inr serverkey \<Rightarrow> Inr (SslServer serverCA servercert serverkey))))"

text \<open>\<open>BuildAndStart\<close> gives a null pointer when the server cannot be started; the call of \<open>Wait\<close> is then undefined
  behaviour, the result \<^term>\<open>False\<close>.\<close>

definition RunServer :: "'w greeter_api \<Rightarrow> string \<Rightarrow> credentials \<Rightarrow> ('w, greeter_event, bool) io" where
  "RunServer api serverAddress cr = do {
     started \<leftarrow> call (ServerStarted serverAddress cr) (build_and_start api serverAddress cr);
     _ \<leftarrow> emit (Cout (server_tag @ ''listening on '' @ serverAddress @ nl));
     if started then do { _ \<leftarrow> call Waited (server_wait api); io_return True }
     else io_return False }"

definition ServerAddress :: string where "ServerAddress = ''0.0.0.0:50051''"

definition server_error :: "string \<Rightarrow> ('w, greeter_event, int option) io" where
  "server_error e = do { _ \<leftarrow> emit (Cout (server_tag @ ''Error: '' @ e @ nl)); io_return (Some EXIT_FAILURE) }"

definition main_greeter_server :: "'w greeter_api \<Rightarrow> (string \<Rightarrow> string option) \<Rightarrow> string list \<Rightarrow>
    ('w, greeter_event, int option) io" where
  "main_greeter_server api files argv = do {
     _ \<leftarrow> emit (Cout (server_tag @ ''starting...'' @ nl));
     (case server_args argv False of
        Inl e \<Rightarrow> server_error e
      | Inr secure \<Rightarrow> do {
          _ \<leftarrow> emit (Cout (server_tag @ ''waiting for network...'' @ nl));
          up \<leftarrow> call IfaceUp (iface_up api);
          if \<not> up then server_error ''Wait for network failed!''
          else do {
            _ \<leftarrow> emit (SleptS 5);
            (case (if secure then GetSecureCredentials_server files else Inr Insecure) of
               Inl e \<Rightarrow> server_error e
             | Inr cr \<Rightarrow> do {
                 _ \<leftarrow> emit (Cout (server_tag @ ''using secure connection: '' @ boolalpha secure @ nl));
                 ok \<leftarrow> RunServer api ServerAddress cr;
                 io_return (if ok then Some EXIT_SUCCESS else None) }) } }) }"


subsection \<open>Arguments\<close>

text \<open>The options as a user writes them.\<close>

definition target_value :: "string \<Rightarrow> string option" where
  "target_value a = (if prefix ''--target='' a then Some (drop 9 a) else None)"

definition acceptable :: "string list \<Rightarrow> bool" where
  "acceptable argv \<longleftrightarrow> list_all (\<lambda>a. a = ''--secure'' \<or> target_value a \<noteq> None) argv"

fun last_target :: "string \<Rightarrow> string list \<Rightarrow> string" where
  "last_target t [] = t"
| "last_target t (a # argv) = last_target (case target_value a of None \<Rightarrow> t | Some v \<Rightarrow> v) argv"

lemma TryParse_secure:
  "TryParse_bool arg_secure a s = (if a = ''--secure'' then Inr (True, True)
     else if prefix ''--secure='' a then Inl ''The only correct argument syntax is --secure'' else Inr (False, s))"
proof (cases "prefix ''--secure'' a")
  case True
  then obtain r where "a = ''--secure'' @ r" by (auto simp: prefix_def)
  then show ?thesis by (cases r) (auto simp: TryParse_bool_def arg_secure_def Separator_def)
next
  case False
  then have "a \<noteq> ''--secure''" by auto
  moreover have "\<not> prefix ''--secure='' a"
    using False prefix_order.trans [of "''--secure''" "''--secure=''" a] by auto
  ultimately show ?thesis using False by (simp add: TryParse_bool_def arg_secure_def)
qed

lemma TryParse_target:
  "TryParse_string arg_target a t = (case target_value a of Some v \<Rightarrow> Inr (True, v)
     | None \<Rightarrow> if a = ''--target'' then Inl ''The only correct argument syntax is --target=argument_value'' else Inr (False, t))"
proof (cases "prefix ''--target'' a")
  case True
  then obtain r where "a = ''--target'' @ r" by (auto simp: prefix_def)
  then show ?thesis by (cases r) (auto simp: TryParse_string_def arg_target_def target_value_def Separator_def)
next
  case False
  then have "a \<noteq> ''--target''" by auto
  moreover have "\<not> prefix ''--target='' a"
    using False prefix_order.trans [of "''--target''" "''--target=''" a] by auto
  ultimately show ?thesis using False by (simp add: TryParse_string_def arg_target_def target_value_def)
qed

lemma target_not_secure: "target_value a = Some v \<Longrightarrow> a \<noteq> ''--secure'' \<and> \<not> prefix ''--secure='' a"
  by (auto simp: target_value_def split: if_splits elim!: prefixE)

lemma client_args_iff:
  "client_args argv s t = Inr (s', t') \<longleftrightarrow>
    acceptable argv \<and> s' = (s \<or> ''--secure'' \<in> set argv) \<and> t' = last_target t argv"
proof (induction argv arbitrary: s t)
  case (Cons a argv)
  show ?case
  proof (cases "target_value a")
    case (Some v)
    then show ?thesis using Cons.IH target_not_secure [OF Some]
      by (auto simp: TryParse_secure TryParse_target acceptable_def)
  next
    case None
    then show ?thesis using Cons.IH by (auto simp: TryParse_secure TryParse_target acceptable_def)
  qed
qed (auto simp: acceptable_def)

lemma server_args_iff:
  "server_args argv s = Inr s' \<longleftrightarrow> list_all (\<lambda>a. a = ''--secure'') argv \<and> s' = (s \<or> argv \<noteq> [])"
  by (induction argv arbitrary: s) (auto simp: TryParse_secure)


subsection \<open>Contracts\<close>

fun quiet :: "greeter_event \<Rightarrow> bool" where
  "quiet (ChannelMade _ _ _ _) = False"
| "quiet (Called _ _) = False"
| "quiet (ServerStarted _ _ _) = False"
| "quiet (Waited _) = False"
| "quiet _ = True"

text \<open>The trace of the requests \<open>is\<close> answered with \<open>sts\<close>.\<close>

definition greeted :: "nat list \<Rightarrow> status list \<Rightarrow> greeter_event list" where
  "greeted is sts = concat (map (\<lambda>(i, st). [Cout (client_tag @ ''send request '' @ dec (i + 1) @ nl), Called ''KasperskyOS world'' st,
     Cout (client_tag @ ''received: '' @ SayHello_result st @ nl), SleptS 2]) (zip is sts))"

lemma greet_loop_post: "io_post (greet_loop api is) (\<lambda>_ es. \<exists>sts. length sts = length is \<and> es = greeted is sts)"
proof (induction "is")
  case (Cons i "is")
  have more: "\<exists>sts'. length sts' = length (i # is) \<and> Cout (client_tag @ ''send request '' @ dec (i + 1) @ nl) # Called user st #
      Cout (client_tag @ ''received: '' @ SayHello_result st @ nl) # SleptS 2 # greeted is sts = greeted (i # is) sts'"
    if "length sts = length is" for st sts
    using that by (intro exI [of _ "st # sts"]) (simp add: greeted_def user_def del: dec.simps)
  show ?case unfolding greet_loop.simps
    by (intro io_rules io_post_mono [OF Cons.IH]) (use more in \<open>auto simp del: dec.simps\<close>)
qed (auto intro!: io_rules simp: greeted_def)

definition client_credentials :: "(string \<Rightarrow> string option) \<Rightarrow> bool \<Rightarrow> credentials \<Rightarrow> bool" where
  "client_credentials files secure cr \<longleftrightarrow> (if secure then \<exists>ca. files ''/cert/ca.pem'' = Some ca \<and> cr = SslClient ca else cr = Insecure)"

lemma CreateChannel_post:
  "io_post (CreateChannel api files target secure) (\<lambda>r es. case r of Inl _ \<Rightarrow> es = []
     | Inr _ \<Rightarrow> \<exists>cr. client_credentials files secure cr \<and> es = [ChannelMade target cr (if secure then target_name else None) ()])"
  unfolding CreateChannel_def
  by (intro io_rules) (auto simp: client_credentials_def GetSecureCredentials_client_def ReadFile_def split: option.splits)


lemma CreateChannel_fails:
  "io_post (CreateChannel api files target secure) (\<lambda>r es. (\<exists>e. r = Inl e) \<longleftrightarrow> secure \<and> files ''/cert/ca.pem'' = None)"
  unfolding CreateChannel_def
  by (intro io_rules) (auto simp: GetSecureCredentials_client_def ReadFile_def split: option.splits)

lemmas CreateChannel_spec = io_post_conj [OF CreateChannel_fails CreateChannel_post]

text \<open>C23: The greeter client succeeds exactly when its arguments are only \<open>--secure\<close> and \<open>--target=\<close>, the network is up and, for a
  secure connection, the certificate can be read.  It then opens one channel, to the last target given or
  else the default one, with the credentials asked for, and makes 20000 numbered requests, printing what each answers,
  failed ones included.  In every other case it opens no channel and makes no request.\<close>

theorem main_greeter_client_spec:
  assumes "run_io (main_greeter_client api files argv) w = (code, es)"
  shows "code \<in> {EXIT_SUCCESS, EXIT_FAILURE} \<and>
    (code = EXIT_SUCCESS \<longleftrightarrow> acceptable argv \<and> IfaceUp True \<in> set es \<and>
       (''--secure'' \<in> set argv \<longrightarrow> files ''/cert/ca.pem'' \<noteq> None)) \<and>
    (if code = EXIT_SUCCESS
     then \<exists>pre cr sts. list_all quiet pre \<and> client_credentials files (''--secure'' \<in> set argv) cr \<and> length sts = 20000 \<and>
       es = pre @ ChannelMade (last_target ''10.0.2.2:50051'' argv) cr (if ''--secure'' \<in> set argv then target_name else None) () #
         greeted [0..<20000] sts
     else list_all quiet es)" (is "?Q code es")
proof -
  define Q where "Q = (\<lambda>code es. ?Q code es)"
  have failed: "Q EXIT_FAILURE es" if "list_all quiet es"
    "\<not> (acceptable argv \<and> IfaceUp True \<in> set es \<and> (''--secure'' \<in> set argv \<longrightarrow> files ''/cert/ca.pem'' \<noteq> None))" for es
    using that by (auto simp: Q_def)
  have success: "Q EXIT_SUCCESS (pre @ ChannelMade (last_target ''10.0.2.2:50051'' argv) cr
        (if ''--secure'' \<in> set argv then target_name else None) () # greeted [0..<20000] sts)"
    if "acceptable argv" "list_all quiet pre" "IfaceUp True \<in> set pre" "client_credentials files (''--secure'' \<in> set argv) cr"
      "length sts = 20000" for pre cr sts
  proof -
    have "\<exists>pre' cr' sts'. list_all quiet pre' \<and> client_credentials files (''--secure'' \<in> set argv) cr' \<and> length sts' = 20000 \<and>
        pre @ ChannelMade (last_target ''10.0.2.2:50051'' argv) cr (if ''--secure'' \<in> set argv then target_name else None) () #
         greeted [0..<20000] sts = pre' @ ChannelMade (last_target ''10.0.2.2:50051'' argv) cr'
           (if ''--secure'' \<in> set argv then target_name else None) () # greeted [0..<20000] sts'"
      using that(2,4,5) by blast
    then show ?thesis unfolding Q_def using that(1,3,4) by (auto simp: client_credentials_def)
  qed
  have connected: "io_post (do {
       r \<leftarrow> CreateChannel api files (last_target ''10.0.2.2:50051'' argv) (''--secure'' \<in> set argv);
       (case r of
          Inl e \<Rightarrow> do { _ \<leftarrow> emit (Cout (client_tag @ ''Error: '' @ e @ nl)); io_return EXIT_FAILURE }
        | Inr _ \<Rightarrow> do { _ \<leftarrow> greet_loop api [0..<20000]; io_return EXIT_SUCCESS }) })
      (\<lambda>r es. Q r (pre @ es))"
    if "acceptable argv" "list_all quiet pre" "IfaceUp True \<in> set pre" for pre
    apply (intro io_rules io_post_bind [OF CreateChannel_spec] io_post_bind [OF greet_loop_post])
    subgoal for r es e using that by (intro failed) auto
    subgoal for r es u v es' using that success [of pre] by auto
    done
  have "io_post (main_greeter_client api files argv) Q"
    unfolding main_greeter_client_def DEFAULT_ENDPOINT_ADDRESS_def
    apply (intro io_rules)
    subgoal for e using client_args_iff [of argv False] by (intro failed) auto
    subgoal by (intro failed) auto
    subgoal for x secure target up
      using connected [of "[Cout (client_tag @ ''starting...'' @ nl), Cout (client_tag @ ''waiting for network...'' @ nl), IfaceUp True,
          SleptS 5, Cout (client_tag @ ''target: '' @ target @ nl), Cout (client_tag @ ''using secure connection: '' @ boolalpha secure @ nl)]"]
      by (simp add: client_args_iff)
    done
  from io_post_run [OF this assms] show ?thesis unfolding Q_def .
qed

text \<open>A network that is up, and the service of the repository behind the stub.\<close>

definition demo_greeter :: "unit greeter_api" where
  "demo_greeter = \<lparr>iface_up = Pair True, make_channel = (\<lambda>_ _ _. Pair ()),
     stub_SayHello = (\<lambda>name. Pair (StatusOk (SayHello_service name))), build_and_start = (\<lambda>_ _. Pair True), server_wait = Pair ()\<rparr>"

lemma greet_loop_keeps: "e \<in> set (trace s) \<Longrightarrow> e \<in> set (trace (snd (run_state (greet_loop api is) s)))"
  using greet_loop_post [unfolded io_post_def, rule_format, of api "is" s] by auto

theorem main_greeter_client_spec_witness:
  "\<exists>es. run_io (main_greeter_client demo_greeter (\<lambda>_. None) [''--target=a:1'', ''--target=b:2'']) () = (EXIT_SUCCESS, es) \<and>
     ChannelMade ''b:2'' Insecure None () \<in> set es"
proof -
  define argv where "argv = [''--target=a:1'', ''--target=b:2'']"
  obtain code es where run: "run_io (main_greeter_client demo_greeter (\<lambda>_. None) argv) () = (code, es)" by fastforce
  have args: "acceptable argv" "''--secure'' \<notin> set argv" "last_target ''10.0.2.2:50051'' argv = ''b:2''"
    by (simp_all add: argv_def acceptable_def target_value_def)
  have "client_args argv False DEFAULT_ENDPOINT_ADDRESS = Inr (False, ''b:2'')"
    using args by (simp add: client_args_iff DEFAULT_ENDPOINT_ADDRESS_def)
  then have "IfaceUp True \<in> set (snd (run_io (main_greeter_client demo_greeter (\<lambda>_. None) argv) ()))"
    by (auto simp: run_io_def main_greeter_client_def demo_greeter_def CreateChannel_def split_beta intro!: greet_loop_keeps
        simp del: upt_rec_numeral)
  with run have "code = EXIT_SUCCESS" using main_greeter_client_spec [OF run] args by auto
  moreover from this have "ChannelMade ''b:2'' Insecure None () \<in> set es"
    using main_greeter_client_spec [OF run] args by (auto simp: client_credentials_def simp del: upt_rec_numeral)
  ultimately show ?thesis using run by (auto simp: argv_def)
qed

text \<open>With the service of the repository behind the stub every answer is the greeting.\<close>

lemma greet_loop_service:
  assumes "\<And>name w. fst (stub_SayHello api name w) = StatusOk (SayHello_service name)"
  shows "io_post (greet_loop api is) (\<lambda>_ es. es = greeted is (replicate (length is) (StatusOk ''KOS-Hello KasperskyOS world'')))"
proof (induction "is")
  case (Cons i "is")
  have "fst (stub_SayHello api user w) = StatusOk ''KOS-Hello KasperskyOS world''" for w
    by (simp add: assms SayHello_service_def user_def)
  then show ?case using Cons.IH
    by (simp add: io_post_def greeted_def user_def SayHello_result_def del: dec.simps)
qed (auto intro!: io_rules simp: greeted_def)

text \<open>The server: it starts at most once, at its address and with the credentials asked for, and only when its arguments, the network
  and the three files are in order; when the library does not start it, the null pointer is used.\<close>

lemma main_greeter_server_spec:
  assumes "run_io (main_greeter_server api files argv) w = (r, es)"
  shows "(r = Some EXIT_FAILURE \<longrightarrow> list_all quiet es) \<and>
    (r \<noteq> Some EXIT_FAILURE \<longrightarrow> list_all (\<lambda>a. a = ''--secure'') argv \<and> (\<exists>pre cr out started. list_all quiet pre \<and>
       es = pre @ ServerStarted ''0.0.0.0:50051'' cr started # Cout out # (if started then [Waited ()] else []) \<and>
       (r = (if started then Some EXIT_SUCCESS else None)) \<and>
       (if argv = [] then cr = Insecure else \<exists>ca cert key. files ''/cert/ca.pem'' = Some ca \<and> files ''/cert/server1.pem'' = Some cert \<and>
          files ''/cert/server1.key'' = Some key \<and> cr = SslServer ca cert key)))" (is "?Q r es")
proof -
  define Q where "Q = (\<lambda>r es. ?Q r es)"
  have failed: "Q (Some EXIT_FAILURE) es" if "list_all quiet es" for es using that by (simp add: Q_def)
  have run: "Q (if started then Some EXIT_SUCCESS else None)
      (pre @ ServerStarted ''0.0.0.0:50051'' cr started # Cout out # (if started then [Waited ()] else []))"
    if "server_args argv False = Inr secure" "list_all quiet pre"
      "(if secure then GetSecureCredentials_server files else Inr Insecure) = Inr cr" for secure pre cr out started
  proof -
    have "if argv = [] then cr = Insecure else \<exists>ca cert key. files ''/cert/ca.pem'' = Some ca \<and> files ''/cert/server1.pem'' = Some cert \<and>
          files ''/cert/server1.key'' = Some key \<and> cr = SslServer ca cert key"
      using that by (auto simp: server_args_iff GetSecureCredentials_server_def ReadFile_def split: option.splits)
    then show ?thesis using that(1,2) unfolding Q_def server_args_iff by (intro conjI impI exI) (auto split: if_splits)
  qed
  have "io_post (main_greeter_server api files argv) Q"
    unfolding main_greeter_server_def RunServer_def server_error_def ServerAddress_def
    apply (intro io_rules io_nested)
    subgoal by (intro failed) auto
    subgoal by (intro failed) auto
    subgoal by (intro failed) auto
    subgoal for secure up cr started u
      using run [of secure "[Cout (server_tag @ ''starting...'' @ nl), Cout (server_tag @ ''waiting for network...'' @ nl),
        IfaceUp True, SleptS 5, Cout (server_tag @ ''using secure connection: '' @ boolalpha secure @ nl)]" cr True] by auto
    subgoal for secure up cr started
      using run [of secure "[Cout (server_tag @ ''starting...'' @ nl), Cout (server_tag @ ''waiting for network...'' @ nl),
        IfaceUp True, SleptS 5, Cout (server_tag @ ''using secure connection: '' @ boolalpha secure @ nl)]" cr False] by auto
    done
  from io_post_run [OF this assms] show ?thesis unfolding Q_def .
qed

end
