(* ===== verification/Addressbook.thy ===== *)
theory Addressbook
  imports Effects
begin

section \<open>The address book producer and consumer\<close>

text \<open>
  \<^verbatim>\<open>examples/protobuf\<close>: a producer that reads address books from JSON files and sends each as a Protocol Buffers message, and a
  consumer that logs the books it receives.  The JSON library, the Protocol Buffers library, the file system, the clock and
  the IPC proxy are parameters.
\<close>

subsection \<open>Messages\<close>

text \<open>The enumeration is open, as in proto3: a parsed message may hold any number.\<close>

definition MOBILE :: int where "MOBILE = 0"
definition HOME :: int where "HOME = 1"
definition WORK :: int where "WORK = 2"

record PhoneNumber =
  number :: string
  phone_type :: int

record 't Person =
  name :: string
  person_id :: int
  email :: string
  phones :: "PhoneNumber list"
  last_updated :: "'t option"

type_synonym 't AddressBook = "'t Person list"

definition MaxMessageSize :: nat where "MaxMessageSize = 1024"

text \<open>What the programs use of the libraries: \<open>operator>>\<close>, \<open>operator[]\<close> of a document and of a constant document, the range loop,
  \<open>contains\<close> and \<open>value\<close> of a JSON document, where \<^term>\<open>Inl\<close> is an exception; and the two conversions of a message and of
  a time.\<close>

record ('j, 't) libraries =
  json_read :: "string \<Rightarrow> string + 'j"
  json_index :: "'j \<Rightarrow> string \<Rightarrow> string + 'j"
  json_at :: "'j \<Rightarrow> string \<Rightarrow> string + 'j"
  json_items :: "'j \<Rightarrow> 'j list"
  json_contains :: "'j \<Rightarrow> string \<Rightarrow> bool"
  json_value :: "'j \<Rightarrow> string \<Rightarrow> string \<Rightarrow> string + string"
  SerializeToOstream :: "'t AddressBook \<Rightarrow> string option"
  ParseFromIstream :: "string \<Rightarrow> 't AddressBook option"
  SecondsToTimestamp :: "int \<Rightarrow> 't"
  TimeToString :: "'t \<Rightarrow> string"

datatype level = INFO | WARNING | ERROR

datatype producer_event =
    Log level string
  | Connected "string option"
  | FileRead string "string option"
  | TimeRead int
  | Sent string "string option"

record 'w producer_api =
  connect :: "'w \<Rightarrow> string option \<times> 'w"
  read_file :: "string \<Rightarrow> 'w \<Rightarrow> string option \<times> 'w"
  time_now :: "'w \<Rightarrow> int \<times> 'w"
  consume_call :: "string \<Rightarrow> 'w \<Rightarrow> string option \<times> 'w"


subsection \<open>The producer\<close>

definition phoneTypes_producer :: "string \<Rightarrow> int option" where
  "phoneTypes_producer s = (if s = ''Home'' then Some HOME else if s = ''Work'' then Some WORK
     else if s = ''Mobile'' then Some MOBILE else None)"

fun read_phones :: "('j, 't) libraries \<Rightarrow> 'j list \<Rightarrow> string + PhoneNumber list" where
  "read_phones lib [] = Inr []"
| "read_phones lib (phoneInfo # js) =
    (case json_value lib phoneInfo ''number'' [] of
       Inl e \<Rightarrow> Inl e
     | Inr num \<Rightarrow>
        (case json_value lib phoneInfo ''type'' [] of
           Inl e \<Rightarrow> Inl e
         | Inr ty \<Rightarrow>
            (case read_phones lib js of
               Inl e \<Rightarrow> Inl e
             | Inr ps \<Rightarrow> Inr (\<lparr>number = num,
                 phone_type = (case phoneTypes_producer ty of Some t \<Rightarrow> t | None \<Rightarrow> MOBILE)\<rparr> # ps))))"

definition person_phones :: "('j, 't) libraries \<Rightarrow> 'j \<Rightarrow> string + PhoneNumber list" where
  "person_phones lib personInfo =
    (if json_contains lib personInfo ''phones''
     then (case json_at lib personInfo ''phones'' of Inl e \<Rightarrow> Inl e | Inr js \<Rightarrow> read_phones lib (json_items lib js))
     else Inr [])"

text \<open>The loop of \<open>ReadAddressBook\<close>.  The static counter is passed along; it is an \<open>int\<close>, which the number of people in files
  does not exhaust.\<close>

fun read_people :: "('j, 't) libraries \<Rightarrow> 'w producer_api \<Rightarrow> 'j list \<Rightarrow> int \<Rightarrow>
    ('w, producer_event, (string + 't Person list) \<times> int) io" where
  "read_people lib api [] k = io_return (Inr [], k)"
| "read_people lib api (personInfo # js) k =
    (case json_value lib personInfo ''name'' [] of
       Inl e \<Rightarrow> io_return (Inl e, k + 1)
     | Inr nm \<Rightarrow>
        (case json_value lib personInfo ''email'' [] of
           Inl e \<Rightarrow> io_return (Inl e, k + 1)
         | Inr em \<Rightarrow> do {
             t \<leftarrow> call TimeRead (time_now api);
             (case person_phones lib personInfo of
                Inl e \<Rightarrow> io_return (Inl e, k + 1)
              | Inr ps \<Rightarrow> do {
                  r \<leftarrow> read_people lib api js (k + 1);
                  (case r of
                     (Inl e, k') \<Rightarrow> io_return (Inl e, k')
                   | (Inr people, k') \<Rightarrow> io_return (Inr (\<lparr>name = nm, person_id = k, email = em, phones = ps,
                       last_updated = Some (SecondsToTimestamp lib t)\<rparr> # people), k')) }) }))"

definition ReadAddressBook :: "('j, 't) libraries \<Rightarrow> 'w producer_api \<Rightarrow> string \<Rightarrow> int \<Rightarrow>
    ('w, producer_event, (string + 't AddressBook) \<times> int) io" where
  "ReadAddressBook lib api is_text k =
    (case json_read lib is_text of
       Inl e \<Rightarrow> io_return (Inl e, k)
     | Inr content \<Rightarrow>
        (case json_index lib content ''addressBook'' of
           Inl e \<Rightarrow> io_return (Inl e, k)
         | Inr js \<Rightarrow> read_people lib api (json_items lib js) k))"

text \<open>One round of the loop over the files; \<^term>\<open>Inl\<close> is an exception that ends the loop.\<close>

definition send_book :: "('j, 't) libraries \<Rightarrow> 'w producer_api \<Rightarrow> string \<Rightarrow> 't AddressBook \<Rightarrow>
    ('w, producer_event, string option) io" where
  "send_book lib api file addressBook =
    (case SerializeToOstream lib addressBook of
       Some message \<Rightarrow>
         if message = [] then do {
           _ \<leftarrow> emit (Log WARNING (''Address book from file '' @ file @ '' is empty.''));
           io_return None }
         else if length message > MaxMessageSize then do {
           _ \<leftarrow> emit (Log WARNING (''Address book from file '' @ file @ '' is too big.''));
           io_return None }
         else call (Sent message) (consume_call api message)
     | None \<Rightarrow> do {
         _ \<leftarrow> emit (Log ERROR (''Failed to serialize address book from file: '' @ file));
         io_return None })"

fun send_files :: "('j, 't) libraries \<Rightarrow> 'w producer_api \<Rightarrow> string list \<Rightarrow> int \<Rightarrow> ('w, producer_event, string option) io" where
  "send_files lib api [] k = io_return None"
| "send_files lib api (file # argv) k = do {
     ifs \<leftarrow> call (FileRead file) (read_file api file);
     (case ifs of
        None \<Rightarrow> do {
          _ \<leftarrow> emit (Log WARNING (''Address book file '' @ file @ '' not found.''));
          send_files lib api argv k }
      | Some is_text \<Rightarrow> do {
          r \<leftarrow> ReadAddressBook lib api is_text k;
          (case r of
             (Inl e, k') \<Rightarrow> io_return (Some e)
           | (Inr addressBook, k') \<Rightarrow> do {
               ex \<leftarrow> send_book lib api file addressBook;
               (case ex of Some e \<Rightarrow> io_return (Some e) | None \<Rightarrow> send_files lib api argv k') }) }) }"

definition main_producer :: "('j, 't) libraries \<Rightarrow> 'w producer_api \<Rightarrow> string list \<Rightarrow> ('w, producer_event, int) io" where
  "main_producer lib api argv = do {
     _ \<leftarrow> emit (Log INFO ''Started'');
     if argv = [] then do {
       _ \<leftarrow> emit (Log INFO ''No address book file passed - nothing to do.'');
       io_return EXIT_SUCCESS }
     else do {
       c \<leftarrow> call Connected (connect api);
       ex \<leftarrow> (case c of Some e \<Rightarrow> io_return (Some e) | None \<Rightarrow> send_files lib api argv 0);
       (case ex of
          Some e \<Rightarrow> do { _ \<leftarrow> emit (Log ERROR (''Error occurred: '' @ e)); io_return EXIT_FAILURE }
        | None \<Rightarrow> io_return EXIT_SUCCESS) } }"


subsection \<open>The consumer\<close>

definition phoneTypes_consumer :: "int \<Rightarrow> string option" where
  "phoneTypes_consumer t = (if t = HOME then Some ''Home'' else if t = WORK then Some ''Work''
     else if t = MOBILE then Some ''Mobile'' else None)"

definition show_id :: "int \<Rightarrow> string" where
  "show_id i = (if i < 0 then ''-'' else []) @ dec (nat \<bar>i\<bar>)"

definition print_phone :: "PhoneNumber \<Rightarrow> level \<times> string" where
  "print_phone phone_number = (INFO, ''  '' @ (case phoneTypes_consumer (phone_type phone_number) of Some t \<Rightarrow> t | None \<Rightarrow> ''Unknown'') @
     '' '' @ ''phone #:'' @ '' '' @ number phone_number)"

definition print_person :: "('j, 't) libraries \<Rightarrow> 't Person \<Rightarrow> (level \<times> string) list" where
  "print_person lib person =
    [(INFO, ''Person ID: '' @ show_id (person_id person)), (INFO, ''  Name: '' @ name person)] @
    (if email person \<noteq> [] then [(INFO, ''  E-mail address: '' @ email person)] else []) @
    map print_phone (phones person) @
    (case last_updated person of Some t \<Rightarrow> [(INFO, ''  Updated: '' @ TimeToString lib t)] | None \<Rightarrow> [])"

definition PrintAddressBook :: "('j, 't) libraries \<Rightarrow> 't AddressBook \<Rightarrow> (level \<times> string) list" where
  "PrintAddressBook lib address_book = concat (map (print_person lib) address_book)"

definition Consume :: "('j, 't) libraries \<Rightarrow> string \<Rightarrow> (level \<times> string) list" where
  "Consume lib message = (case ParseFromIstream lib message of
     Some addressBook \<Rightarrow> PrintAddressBook lib addressBook
   | None \<Rightarrow> [(ERROR, ''Failed to parse address book.'')])"

text \<open>The consumer: \<open>loop.Run()\<close> of the framework dispatches the messages that arrive, one after the other, and ends with an
  exception, whose text is \<open>ended\<close>, or returns.\<close>

definition main_consumer_book :: "('j, 't) libraries \<Rightarrow> string list \<Rightarrow> string option \<Rightarrow> (level \<times> string) list \<times> int" where
  "main_consumer_book lib messages ended =
    ((INFO, ''Started'') # concat (map (Consume lib) messages) @
       (case ended of Some e \<Rightarrow> [(ERROR, ''Error occurred: '' @ e)] | None \<Rightarrow> []),
     case ended of Some _ \<Rightarrow> EXIT_FAILURE | None \<Rightarrow> EXIT_SUCCESS)"


subsection \<open>Books and files\<close>

text \<open>What a phone number, a person and a book have to do with the JSON text.\<close>

definition phone_of :: "('j, 't) libraries \<Rightarrow> 'j \<Rightarrow> PhoneNumber \<Rightarrow> bool" where
  "phone_of lib j p \<longleftrightarrow> json_value lib j ''number'' [] = Inr (number p) \<and>
    (\<exists>ty. json_value lib j ''type'' [] = Inr ty \<and>
       phone_type p = (if ty = ''Home'' then HOME else if ty = ''Work'' then WORK else MOBILE))"

definition phones_of :: "('j, 't) libraries \<Rightarrow> 'j \<Rightarrow> PhoneNumber list \<Rightarrow> bool" where
  "phones_of lib j ps \<longleftrightarrow> (if json_contains lib j ''phones''
     then \<exists>js. json_at lib j ''phones'' = Inr js \<and> list_all2 (phone_of lib) (json_items lib js) ps else ps = [])"

definition person_of :: "('j, 't) libraries \<Rightarrow> 'j \<Rightarrow> 't Person \<Rightarrow> bool" where
  "person_of lib j p \<longleftrightarrow> json_value lib j ''name'' [] = Inr (name p) \<and> json_value lib j ''email'' [] = Inr (email p) \<and>
    phones_of lib j (phones p) \<and> (\<exists>t. last_updated p = Some (SecondsToTimestamp lib t))"

definition describes :: "('j, 't) libraries \<Rightarrow> string \<Rightarrow> 't AddressBook \<Rightarrow> bool" where
  "describes lib s b \<longleftrightarrow> (\<exists>content js. json_read lib s = Inr content \<and> json_index lib content ''addressBook'' = Inr js \<and>
     list_all2 (person_of lib) (json_items lib js) b)"

lemma phone_type_of:
  "(case phoneTypes_producer ty of Some t \<Rightarrow> t | None \<Rightarrow> MOBILE) = (if ty = ''Home'' then HOME else if ty = ''Work'' then WORK else MOBILE)"
  by (simp add: phoneTypes_producer_def)

lemma phone_of_iff:
  "phone_of lib j p \<longleftrightarrow> (\<exists>num ty. json_value lib j ''number'' [] = Inr num \<and> json_value lib j ''type'' [] = Inr ty \<and>
     p = \<lparr>number = num, phone_type = (case phoneTypes_producer ty of Some t \<Rightarrow> t | None \<Rightarrow> MOBILE)\<rparr>)"
proof -
  have eq: "p = \<lparr>number = num, phone_type = t\<rparr> \<longleftrightarrow> number p = num \<and> phone_type p = t" for num t
    by (cases p) simp
  show ?thesis unfolding phone_of_def phone_type_of eq by (rule iffI; elim conjE exE; intro exI conjI; assumption?; simp)
qed

lemma read_phones_Cons:
  "read_phones lib (j # js) = Inr ps \<longleftrightarrow> (\<exists>p qs. ps = p # qs \<and> phone_of lib j p \<and> read_phones lib js = Inr qs)"
  unfolding phone_of_iff
  by (cases "json_value lib j ''number'' []"; cases "json_value lib j ''type'' []"; cases "read_phones lib js") auto

lemma read_phones_iff: "read_phones lib js = Inr ps \<longleftrightarrow> list_all2 (phone_of lib) js ps"
proof (induction js arbitrary: ps)
  case (Cons j js)
  show ?case unfolding read_phones_Cons Cons.IH list_all2_Cons1 by blast
qed auto

lemma person_phones_iff: "person_phones lib j = Inr ps \<longleftrightarrow> phones_of lib j ps"
  by (auto simp: person_phones_def phones_of_def read_phones_iff split: sum.splits)

text \<open>The files a run asked for, those it could read with their contents, and the messages it sent.\<close>

fun asked_file :: "producer_event \<Rightarrow> string list" where
  "asked_file (FileRead f _) = [f]"
| "asked_file _ = []"

fun loaded_file :: "producer_event \<Rightarrow> string list" where
  "loaded_file (FileRead f (Some s)) = [s]"
| "loaded_file _ = []"

fun sent_message :: "producer_event \<Rightarrow> string list" where
  "sent_message (Sent m _) = [m]"
| "sent_message _ = []"

definition asked :: "producer_event list \<Rightarrow> string list" where "asked es = concat (map asked_file es)"
definition loaded :: "producer_event list \<Rightarrow> string list" where "loaded es = concat (map loaded_file es)"
definition messages :: "producer_event list \<Rightarrow> string list" where "messages es = concat (map sent_message es)"

lemma event_lists [simp]:
  "asked [] = []" "asked (e # es) = asked_file e @ asked es" "asked (es @ es') = asked es @ asked es'"
  "loaded [] = []" "loaded (e # es) = loaded_file e @ loaded es" "loaded (es @ es') = loaded es @ loaded es'"
  "messages [] = []" "messages (e # es) = sent_message e @ messages es" "messages (es @ es') = messages es @ messages es'"
  by (simp_all add: asked_def loaded_def messages_def)

abbreviation silent :: "producer_event list \<Rightarrow> bool" where
  "silent es \<equiv> asked es = [] \<and> loaded es = [] \<and> messages es = []"

lemma read_people_post:
  "io_post (read_people lib api js k) (\<lambda>(r, k') es. silent es \<and>
     (\<forall>people. r = Inr people \<longrightarrow> list_all2 (person_of lib) js people \<and> k' = k + int (length people) \<and>
        map person_id people = [k..k' - 1]))"
proof (induction js arbitrary: k)
  case (Cons j js)
  show ?case unfolding read_people.simps
    by (intro io_rules io_post_bind [OF Cons.IH])
      (auto intro!: io_rules simp: person_of_def person_phones_iff upto_rec1 split: sum.splits)
qed (auto intro!: io_rules)

lemma ReadAddressBook_post:
  "io_post (ReadAddressBook lib api s k) (\<lambda>(r, k') es. silent es \<and>
     (\<forall>b. r = Inr b \<longrightarrow> describes lib s b \<and> k' = k + int (length b) \<and> map person_id b = [k..k' - 1]))"
  unfolding ReadAddressBook_def
  by (intro io_rules io_post_mono [OF read_people_post]) (auto simp: describes_def)

definition fits :: "('j, 't) libraries \<Rightarrow> 't AddressBook \<Rightarrow> bool" where
  "fits lib b = (case SerializeToOstream lib b of None \<Rightarrow> False | Some m \<Rightarrow> m \<noteq> [] \<and> length m \<le> 1024)"

definition sent :: "('j, 't) libraries \<Rightarrow> 't AddressBook list \<Rightarrow> string list" where
  "sent lib bs = map (\<lambda>b. the (SerializeToOstream lib b)) (filter (fits lib) bs)"

lemma send_book_post:
  "io_post (send_book lib api f b) (\<lambda>ex es. asked es = [] \<and> loaded es = [] \<and> messages es = sent lib [b])"
  unfolding send_book_def by (intro io_rules) (auto simp: sent_def fits_def MaxMessageSize_def)

text \<open>The books read from the files of a run, numbered from \<open>k\<close> on.\<close>

definition books_read :: "('j, 't) libraries \<Rightarrow> int \<Rightarrow> producer_event list \<Rightarrow> 't AddressBook list \<Rightarrow> bool" where
  "books_read lib k es bs \<longleftrightarrow> length bs \<le> length (loaded es) \<and> list_all2 (describes lib) (take (length bs) (loaded es)) bs \<and>
    map person_id (concat bs) = [k..k + int (length (concat bs)) - 1] \<and> messages es = sent lib bs"

lemma books_read_Nil [simp]: "messages es = [] \<Longrightarrow> books_read lib k es []"
  by (simp add: books_read_def sent_def)

lemma upto_append: "k \<le> m \<Longrightarrow> m - 1 \<le> n \<Longrightarrow> [k..m - 1] @ [m..n] = [k..n]"
  by (cases "m \<le> n") (auto simp: upto_split1 [of k m n] intro: arg_cong [where f = "upto k"])

lemma books_read_Cons:
  assumes "books_read lib (k + int (length b)) es' bs" "loaded es = [s]" "messages es = sent lib [b]" "describes lib s b"
    "map person_id b = [k..k + int (length b) - 1]"
  shows "books_read lib k (es @ es') (b # bs)"
  using assms upto_append [of k "k + int (length b)" "k + int (length b) + int (length (concat bs)) - 1"]
  by (simp add: books_read_def sent_def add.assoc)

text \<open>What is promised of a run of \<open>send_files\<close>.\<close>

definition files_sent :: "('j, 't) libraries \<Rightarrow> int \<Rightarrow> string list \<Rightarrow> string option \<Rightarrow> producer_event list \<Rightarrow> bool" where
  "files_sent lib k argv ex es \<longleftrightarrow>
    (\<exists>bs. books_read lib k es bs \<and> (ex = None \<longrightarrow> length bs = length (loaded es) \<and> asked es = argv))"

lemma files_sent_failed: "messages es = [] \<Longrightarrow> files_sent lib k argv (Some e) es"
  unfolding files_sent_def by (intro exI [of _ "[]"]) simp

lemma files_sent_not_found:
  "files_sent lib k argv ex es \<Longrightarrow> files_sent lib k (f # argv) ex (FileRead f None # Log l t # es)"
  by (auto simp: files_sent_def books_read_def)

lemma files_sent_Cons:
  assumes "files_sent lib (k + int (length b)) argv ex es''" "silent es" "asked es' = []" "loaded es' = []"
    "messages es' = sent lib [b]" "describes lib s b" "map person_id b = [k..k + int (length b) - 1]"
  shows "files_sent lib k (f # argv) ex (FileRead f (Some s) # es @ es' @ es'')"
proof -
  from assms(1) obtain bs where bs: "books_read lib (k + int (length b)) es'' bs"
    "ex = None \<longrightarrow> length bs = length (loaded es'') \<and> asked es'' = argv"
    unfolding files_sent_def by blast
  have "books_read lib k ((FileRead f (Some s) # es @ es') @ es'') (b # bs)"
    by (rule books_read_Cons [OF bs(1)]) (use assms in simp_all)
  then show ?thesis using bs(2) assms unfolding files_sent_def by (intro exI [of _ "b # bs"]) simp
qed

lemma files_sent_broken:
  assumes "silent es" "asked es' = []" "loaded es' = []"
    "messages es' = sent lib [b]" "describes lib s b" "map person_id b = [k..k + int (length b) - 1]"
  shows "files_sent lib k argv (Some e) (FileRead f (Some s) # es @ es')"
proof -
  have "files_sent lib (k + int (length b)) [] (Some e) []" by (rule files_sent_failed) simp
  from files_sent_Cons [OF this assms, of f] show ?thesis by (simp add: files_sent_def)
qed

lemma send_files_post: "io_post (send_files lib api argv k) (files_sent lib k argv)"
proof (induction argv arbitrary: k)
  case (Cons f argv)
  show ?case unfolding send_files.simps
    by (intro io_rules io_post_bind [OF ReadAddressBook_post] io_post_bind [OF send_book_post] io_post_mono [OF Cons.IH])
      (auto intro: files_sent_not_found files_sent_failed files_sent_Cons files_sent_broken)
qed (auto intro!: io_rules exI [of _ "[]"] simp: files_sent_def)


lemma main_producer_post:
  "io_post (main_producer lib api argv) (\<lambda>code es. \<exists>bs. books_read lib 0 es bs \<and> code \<in> {EXIT_SUCCESS, EXIT_FAILURE} \<and>
     (code = EXIT_SUCCESS \<longrightarrow> length bs = length (loaded es) \<and> asked es = argv))"
proof -
  have files: "io_post (case c of Some e \<Rightarrow> io_return (Some e) | None \<Rightarrow> send_files lib api argv 0) (files_sent lib 0 argv)" for c
    by (cases c) (auto intro!: io_rules send_files_post files_sent_failed)
  show ?thesis unfolding main_producer_def
    by (intro io_rules io_post_bind [OF files]) (auto simp: files_sent_def books_read_def sent_def intro!: exI [of _ "[]"])
qed

subsection \<open>From the files to the log\<close>

lemma Consume_sent:
  assumes "\<And>b m. SerializeToOstream lib b = Some m \<Longrightarrow> ParseFromIstream lib m = Some b"
  shows "concat (map (Consume lib) (sent lib bs)) = concat (map (PrintAddressBook lib) (filter (fits lib) bs))"
  by (induction bs) (auto simp: sent_def Consume_def fits_def assms split: option.splits)

text \<open>C22: For a message format that can be read back, the consumer logs, for whatever the producer sends, exactly the address
  books of the files the producer could read, in the order of the arguments, leaving out those whose message is empty or longer than
  1024 bytes; each book has the people, the mail addresses, and the numbers and kinds of phones its file describes, and the people
  are numbered one after the other from 0 over all the books.  A producer that succeeds has read every file it was given and
  found.\<close>

theorem address_books_arrive:
  assumes run: "run_io (main_producer lib api argv) w = (code, es)"
    and format: "\<And>b m. SerializeToOstream lib b = Some m \<Longrightarrow> ParseFromIstream lib m = Some b"
  shows "\<exists>bs. fst (main_consumer_book lib (messages es) None) =
        (INFO, ''Started'') # concat (map (PrintAddressBook lib) (filter (fits lib) bs)) \<and>
      list_all2 (describes lib) (take (length bs) (loaded es)) bs \<and>
      map person_id (concat bs) = [0..int (length (concat bs)) - 1] \<and>
      (code = EXIT_SUCCESS \<longrightarrow> length bs = length (loaded es) \<and> asked es = argv)"
proof -
  from io_post_run [OF main_producer_post run] obtain bs where bs: "books_read lib 0 es bs"
    "code = EXIT_SUCCESS \<longrightarrow> length bs = length (loaded es) \<and> asked es = argv" by auto
  then have "fst (main_consumer_book lib (messages es) None) =
      (INFO, ''Started'') # concat (map (PrintAddressBook lib) (filter (fits lib) bs))"
    using Consume_sent [OF format] by (simp add: main_consumer_book_def books_read_def)
  with bs show ?thesis unfolding books_read_def by (intro exI [of _ bs]) simp
qed

text \<open>A JSON library with texts for the names of one document, and messages that spell out one person each.\<close>

definition demo_libraries :: "(string list, int) libraries" where
  "demo_libraries = \<lparr>json_read = (\<lambda>s. Inr [s]), json_index = (\<lambda>j _. Inr j), json_at = (\<lambda>j _. Inr j), json_items = (\<lambda>j. [j]),
     json_contains = (\<lambda>_ _. True), json_value = (\<lambda>j k _. Inr (if k = ''type'' then ''Work'' else concat j)),
     SerializeToOstream = (\<lambda>b. if b = [\<lparr>name = ''Ann'', person_id = 0, email = ''Ann'', phones = [\<lparr>number = ''Ann'', phone_type = WORK\<rparr>],
       last_updated = Some 5\<rparr>] then Some ''A'' else None),
     ParseFromIstream = (\<lambda>m. if m = ''A'' then Some [\<lparr>name = ''Ann'', person_id = 0, email = ''Ann'',
       phones = [\<lparr>number = ''Ann'', phone_type = WORK\<rparr>], last_updated = Some 5\<rparr>] else None),
     SecondsToTimestamp = (\<lambda>t. t), TimeToString = (\<lambda>_. ''now'')\<rparr>"

definition demo_producer :: "unit producer_api" where
  "demo_producer = \<lparr>connect = Pair None, read_file = (\<lambda>f. Pair (if f = ''a.json'' then Some ''Ann'' else None)),
     time_now = Pair 5, consume_call = (\<lambda>_. Pair None)\<rparr>"

theorem address_books_arrive_witness:
  "\<exists>es. run_io (main_producer demo_libraries demo_producer [''b.json'', ''a.json'']) () = (EXIT_SUCCESS, es) \<and> messages es = [''A''] \<and>
     asked es = [''b.json'', ''a.json''] \<and> fst (main_consumer_book demo_libraries (messages es) None) =
       [(INFO, ''Started''), (INFO, ''Person ID: 0''), (INFO, ''  Name: Ann''), (INFO, ''  E-mail address: Ann''),
        (INFO, ''  Work phone #: Ann''), (INFO, ''  Updated: now'')]"
proof -
  have format: "SerializeToOstream demo_libraries b = Some m \<Longrightarrow> ParseFromIstream demo_libraries m = Some b" for b m
    by (simp add: demo_libraries_def split: if_splits)
  obtain code es where run: "run_io (main_producer demo_libraries demo_producer [''b.json'', ''a.json'']) () = (code, es)" by fastforce
  have "run_io (main_producer demo_libraries demo_producer [''b.json'', ''a.json'']) () =
     (EXIT_SUCCESS, [Log INFO ''Started'', Connected None, FileRead ''b.json'' None, Log WARNING ''Address book file b.json not found.'',
       FileRead ''a.json'' (Some ''Ann''), TimeRead 5, Sent ''A'' None])"
    by (simp add: run_io_def main_producer_def demo_libraries_def demo_producer_def ReadAddressBook_def person_phones_def
        phoneTypes_producer_def send_book_def MaxMessageSize_def)
  with run have es: "code = EXIT_SUCCESS" "messages es = [''A'']" by auto
  have "show_id 0 = ''0''" by code_simp
  with es have "fst (main_consumer_book demo_libraries (messages es) None) =
       [(INFO, ''Started''), (INFO, ''Person ID: 0''), (INFO, ''  Name: Ann''), (INFO, ''  E-mail address: Ann''),
        (INFO, ''  Work phone #: Ann''), (INFO, ''  Updated: now'')]"
    by (simp add: main_consumer_book_def Consume_def PrintAddressBook_def print_person_def print_phone_def phoneTypes_consumer_def
        demo_libraries_def HOME_def WORK_def)
  then show ?thesis using run es address_books_arrive [OF run format] by auto
qed

text \<open>The two tables of phone types agree: the consumer shows the kind the file names, and \<open>Mobile\<close> for any other.\<close>

lemma phone_types_agree:
  "phoneTypes_consumer (case phoneTypes_producer s of Some t \<Rightarrow> t | None \<Rightarrow> MOBILE) =
     Some (if s \<in> {''Home'', ''Work''} then s else ''Mobile'')"
  by (simp add: phone_type_of phoneTypes_consumer_def HOME_def WORK_def MOBILE_def)

end
