(* ===== verification/Hasher.thy ===== *)
theory Hasher
  imports Prelude
begin

section \<open>The message hasher\<close>

text \<open>
  \<^verbatim>\<open>examples/boringssl\<close>: an object that hashes what is shifted into it, and the program that prints the digest of a message given in
  parts.  The BoringSSL functions are parameters.
\<close>

subsection \<open>The code\<close>

text \<open>The library: a new context or a null pointer, a digest by its name, and the three operations on a context.\<close>

record ('m, 'c) evp =
  EVP_MD_CTX_new :: "'c option"
  EVP_get_digestbyname :: "string \<Rightarrow> 'm option"
  EVP_DigestInit_ex :: "'c \<Rightarrow> 'm \<Rightarrow> 'c option"
  EVP_DigestUpdate :: "'c \<Rightarrow> string \<Rightarrow> 'c"
  EVP_DigestFinal_ex :: "'c \<Rightarrow> u8 list"

definition EVP_MAX_MD_SIZE :: nat where "EVP_MAX_MD_SIZE = 64"

text \<open>\<open>operator<<\<close> for a vector of \<open>unsigned char\<close>.\<close>

definition show_data :: "u8 list \<Rightarrow> string" where
  "show_data vect = concat (map (\<lambda>v. setw (CHR ''0'') 2 (hex (unat v))) vect)"

record 'c Digest =
  m_name :: string
  m_context :: "'c option"
  m_value :: "u8 list"

text \<open>The constructor fails with an exception, or uses a null pointer when no context could be allocated.\<close>

datatype failure = RuntimeError string | NullPointer

definition Digest_new :: "('m, 'c) evp \<Rightarrow> string \<Rightarrow> failure + 'c Digest" where
  "Digest_new lib nam =
    (let context = EVP_MD_CTX_new lib; val = replicate EVP_MAX_MD_SIZE 0 in
     case EVP_get_digestbyname lib nam of
       None \<Rightarrow> Inl (RuntimeError (''Unknown message digest'' @ nam))
     | Some md \<Rightarrow>
        (case context of
           None \<Rightarrow> Inl NullPointer
         | Some c \<Rightarrow>
            (case EVP_DigestInit_ex lib c md of
               None \<Rightarrow> Inl (RuntimeError ''Digest initialization failed'')
             | Some c' \<Rightarrow> Inr \<lparr>m_name = nam, m_context = Some c', m_value = val\<rparr>)))"

text \<open>Data is a string; the null pointer is not passed by anyone.\<close>

definition Digest_Update :: "('m, 'c) evp \<Rightarrow> 'c Digest \<Rightarrow> string \<Rightarrow> 'c Digest" where
  "Digest_Update lib d dat = (case m_context d of
     Some c \<Rightarrow> if length dat \<noteq> 0 then d\<lparr>m_context := Some (EVP_DigestUpdate lib c dat)\<rparr> else d
   | None \<Rightarrow> d)"

definition Digest_shift :: "('m, 'c) evp \<Rightarrow> 'c Digest \<Rightarrow> string \<Rightarrow> 'c Digest" where
  "Digest_shift lib d dat = (if m_context d \<noteq> None \<and> dat \<noteq> [] then Digest_Update lib d dat else d)"

text \<open>\<open>Get\<close>: the library writes the digest to \<open>m_value\<close>, which is then cut to its length; \<^term>\<open>None\<close> is a write
  behind the end of the vector.\<close>

definition Digest_Get :: "('m, 'c) evp \<Rightarrow> 'c Digest \<Rightarrow> (u8 list \<times> 'c Digest) option" where
  "Digest_Get lib d = (case m_context d of
     Some c \<Rightarrow>
       (let v = EVP_DigestFinal_ex lib c in
        if length v > length (m_value d) then None
        else let d' = d\<lparr>m_value := take (length v) (blit 0 v (m_value d)), m_context := None\<rparr> in Some (m_value d', d'))
   | None \<Rightarrow> Some (m_value d, d))"

definition Digest_Name :: "'c Digest \<Rightarrow> string" where
  "Digest_Name d = m_name d"

text \<open>What \<open>PrintMessageDigest\<close> writes; \<^term>\<open>None\<close> when memory is used that is not there.\<close>

definition PrintMessageDigest :: "('m, 'c) evp \<Rightarrow> string \<Rightarrow> string list \<Rightarrow> string option" where
  "PrintMessageDigest lib digestAlgorithm msgParts = (case Digest_new lib digestAlgorithm of
     Inl (RuntimeError e) \<Rightarrow> Some (''Error occurred :'' @ e @ [CHR 0x0A])
   | Inl NullPointer \<Rightarrow> None
   | Inr d \<Rightarrow>
      (let digest = foldl (Digest_shift lib) d msgParts in
       case Digest_Get lib digest of
         None \<Rightarrow> None
       | Some (v, _) \<Rightarrow> Some (''Message parts: '' @ concat (map (\<lambda>p. ''['' @ p @ '']'') msgParts) @ [CHR 0x0A] @
           ''Message digest obtain with '' @ Digest_Name digest @ '' algorithm is: '' @ show_data v @ [CHR 0x0A])))"

definition main_hasher :: "('m, 'c) evp \<Rightarrow> (string \<times> int) option" where
  "main_hasher lib = (case PrintMessageDigest lib ''sha256'' [''Test'', ''Message'', ''Hello'', ''World''] of
     None \<Rightarrow> None | Some out \<Rightarrow> Some (out, EXIT_SUCCESS))"


subsection \<open>Hexadecimal text\<close>

definition hex_digit :: "nat \<Rightarrow> char" where
  "hex_digit d = char_of ((if d < 10 then 48 else 87) + d)"

definition nibble :: "char \<Rightarrow> nat" where
  "nibble c = (let n = of_char c in if n < 58 then n - 48 else n - 87)"

fun unhex :: "string \<Rightarrow> u8 list" where
  "unhex (a # b # s) = of_nat (16 * nibble a + nibble b) # unhex s"
| "unhex _ = []"

lemma nibble_hex_digit: "d < 16 \<Longrightarrow> nibble (hex_digit d) = d"
  by (simp add: nibble_def hex_digit_def)

lemma hex_byte: "n < 256 \<Longrightarrow> setw (CHR ''0'') 2 (hex n) = [hex_digit (n div 16), hex_digit (n mod 16)]"
proof -
  assume n: "n < 256"
  have small: "hex m = [hex_digit m]" if "m < 16" for m
    using that by (subst hex.simps) (simp add: hex_digit_def)
  have zero: "hex_digit 0 = CHR ''0''" by code_simp
  show ?thesis
  proof (cases "n < 16")
    case True
    then show ?thesis using zero by (simp add: small setw_def)
  next
    case False
    have "hex n = hex (n div 16) @ [hex_digit (n mod 16)]"
      using False by (subst hex.simps) (simp add: hex_digit_def Let_def)
    also have "hex (n div 16) = [hex_digit (n div 16)]" using n by (intro small) simp
    finally show ?thesis by (simp add: setw_def)
  qed
qed

lemma unhex_show_data: "unhex (show_data v) = v"
proof (induction v)
  case (Cons b v)
  have b: "unat b < 256" using unsigned_less [of b, where ?'a = nat] by simp
  then have "16 * nibble (hex_digit (unat b div 16)) + nibble (hex_digit (unat b mod 16)) = unat b"
    by (simp add: nibble_hex_digit less_mult_imp_div_less)
  then show ?case using Cons.IH b by (simp add: show_data_def hex_byte)
qed (simp add: show_data_def)


subsection \<open>The digest of a message\<close>

lemma Digest_shift_context:
  "m_context (Digest_shift lib d s) = map_option (\<lambda>c. if s = [] then c else EVP_DigestUpdate lib c s) (m_context d)"
  "m_value (Digest_shift lib d s) = m_value d" "m_name (Digest_shift lib d s) = m_name d"
  by (auto simp: Digest_shift_def Digest_Update_def split: option.splits)

lemma shifted:
  assumes "m_context d = Some c"
  shows "m_context (foldl (Digest_shift lib) d parts) = Some (foldl (EVP_DigestUpdate lib) c (filter (\<lambda>p. p \<noteq> []) parts))"
    "m_value (foldl (Digest_shift lib) d parts) = m_value d" "m_name (foldl (Digest_shift lib) d parts) = m_name d"
  using assms by (induction parts arbitrary: d c) (auto simp: Digest_shift_context)

text \<open>After \<open>Get\<close> the object is closed: the same digest is returned again and nothing more is hashed.\<close>

lemma Get_again: "Digest_Get lib d = Some (v, d') \<Longrightarrow> Digest_Get lib (foldl (Digest_shift lib) d' parts) = Some (v, d')"
proof -
  assume get: "Digest_Get lib d = Some (v, d')"
  then have d': "m_context d' = None" "m_value d' = v" by (auto simp: Digest_Get_def Let_def split: option.splits if_splits)
  have "foldl (Digest_shift lib) d' parts = d'"
    using d'(1) by (induction parts) (auto simp: Digest_shift_def)
  then show ?thesis using d' by (simp add: Digest_Get_def)
qed

text \<open>C24: For a library whose digest of data given in pieces is the hash of the whole, and no longer than the largest
  digest, the program prints the parts of the message and then, in hexadecimal, exactly the hash of the message put together;
  the text can be read back.\<close>

theorem PrintMessageDigest_spec:
  assumes "EVP_get_digestbyname lib alg = Some md" "EVP_MD_CTX_new lib = Some c" "EVP_DigestInit_ex lib c md = Some c'"
    and hash: "\<And>ps. EVP_DigestFinal_ex lib (foldl (EVP_DigestUpdate lib) c' ps) = H (concat ps)"
    and short: "\<And>s. length (H s) \<le> 64"
  shows "PrintMessageDigest lib alg parts = Some (''Message parts: '' @ concat (map (\<lambda>p. ''['' @ p @ '']'') parts) @ [CHR 0x0A] @
      ''Message digest obtain with '' @ alg @ '' algorithm is: '' @ show_data (H (concat parts)) @ [CHR 0x0A]) \<and>
    unhex (show_data (H (concat parts))) = H (concat parts)"
proof -
  define d where "d = \<lparr>m_name = alg, m_context = Some c', m_value = replicate EVP_MAX_MD_SIZE (0::u8)\<rparr>"
  have new: "Digest_new lib alg = Inr d" using assms(1-3) by (simp add: Digest_new_def d_def)
  have "concat (filter (\<lambda>p. p \<noteq> []) parts) = concat parts" by (induction parts) auto
  then have "EVP_DigestFinal_ex lib (foldl (EVP_DigestUpdate lib) c' (filter (\<lambda>p. p \<noteq> []) parts)) = H (concat parts)"
    by (simp add: hash)
  then have "\<exists>d'. Digest_Get lib (foldl (Digest_shift lib) d parts) = Some (H (concat parts), d')"
    using shifted [of d c' lib parts] short [of "concat parts"]
    by (simp add: Digest_Get_def d_def EVP_MAX_MD_SIZE_def blit_def Let_def)
  then show ?thesis using new shifted(3) [of d c' lib parts]
    by (auto simp: PrintMessageDigest_def Digest_Name_def d_def unhex_show_data)
qed

text \<open>A library whose only digest is the last character of the data.\<close>

definition demo_evp :: "(unit, string) evp" where
  "demo_evp = \<lparr>EVP_MD_CTX_new = Some [], EVP_get_digestbyname = (\<lambda>n. if n = ''sha256'' then Some () else None),
     EVP_DigestInit_ex = (\<lambda>_ _. Some []), EVP_DigestUpdate = (@),
     EVP_DigestFinal_ex = (\<lambda>s. if s = [] then [] else [of_nat (of_char (last s))])\<rparr>"

theorem PrintMessageDigest_spec_witness:
  "PrintMessageDigest demo_evp ''sha256'' [''Te'', [], ''st''] =
     Some (''Message parts: [Te][][st]'' @ [CHR 0x0A] @ ''Message digest obtain with sha256 algorithm is: 74'' @ [CHR 0x0A])"
proof -
  define H where "H = (\<lambda>s. if s = [] then [] else [of_nat (of_char (last s)) :: u8])"
  have fold: "foldl (@) s ps = s @ concat ps" for s :: string and ps by (induction ps arbitrary: s) auto
  have "show_data (H ''Test'') = ''74''" unfolding H_def by code_simp
  then show ?thesis
    using PrintMessageDigest_spec [of demo_evp "''sha256''" "()" "[]" "[]" H "[''Te'', [], ''st'']"]
    by (simp add: demo_evp_def fold) (simp add: H_def)
qed

text \<open>An unknown digest is reported; no digest is printed.\<close>

lemma unknown_digest:
  "EVP_get_digestbyname lib alg = None \<Longrightarrow>
    PrintMessageDigest lib alg parts = Some (''Error occurred :Unknown message digest'' @ alg @ [CHR 0x0A])"
  by (simp add: PrintMessageDigest_def Digest_new_def)

end
