(* ===== verification/Package_Manager.thy ===== *)
theory Package_Manager
  imports Effects
begin

section \<open>The package manager example\<close>

text \<open>
  \<^verbatim>\<open>examples/package_manager_utilities\<close>: a launcher that starts the program of an installed package in its first run
  configuration, and that program, which shows a text file.  The package manager and the execution manager are parameters; the
  messages of the launcher on \<open>std::cerr\<close> are left out.
\<close>

subsection \<open>The launcher\<close>

record RunConfigurationInfo =
  cfg_id :: string
  cfg_name :: string

text \<open>Every operation tells whether its result code is \<open>Ok\<close>; \<open>DcmConnect\<close> whether its pointer is not null.\<close>

record 'w launcher_api =
  CreatePackageManager :: "string \<Rightarrow> string \<Rightarrow> 'w \<Rightarrow> bool \<times> 'w"
  GetPackageController :: "'w \<Rightarrow> bool \<times> 'w"
  GetManifest :: "string \<Rightarrow> 'w \<Rightarrow> bool \<times> 'w"
  GetRunConfigurationsInfo :: "'w \<Rightarrow> (bool \<times> RunConfigurationInfo list) \<times> 'w"
  DcmConnect :: "'w \<Rightarrow> bool \<times> 'w"
  GetProcessController :: "'w \<Rightarrow> bool \<times> 'w"
  StartProcess :: "string \<Rightarrow> string \<Rightarrow> 'w \<Rightarrow> bool \<times> 'w"

datatype launcher_event =
    ManagerCreated string string bool
  | ControllerGot bool
  | ManifestGot string bool
  | ConfigurationsGot "bool \<times> RunConfigurationInfo list"
  | ExecConnected bool
  | ProcessControllerGot bool
  | ProcessStarted string string bool

definition pkgMgrMainConnection :: string where "pkgMgrMainConnection = ''PkgMgrEntity''"
definition pkgControlInterface :: string where "pkgControlInterface = ''kl.package_manager.PackageManager.ipkgc''"

text \<open>The package is fixed by the build.\<close>

definition main_launcher :: "'w launcher_api \<Rightarrow> string \<Rightarrow> ('w, launcher_event, int) io" where
  "main_launcher api PACKAGE_ID = do {
     ok \<leftarrow> call (ManagerCreated pkgMgrMainConnection pkgControlInterface)
       (CreatePackageManager api pkgMgrMainConnection pkgControlInterface);
     if \<not> ok then io_return EXIT_FAILURE else do {
     ok \<leftarrow> call ControllerGot (GetPackageController api);
     if \<not> ok then io_return EXIT_FAILURE else do {
     ok \<leftarrow> call (ManifestGot PACKAGE_ID) (GetManifest api PACKAGE_ID);
     if \<not> ok then io_return EXIT_FAILURE else do {
     (ok, pkg_run_cfgs) \<leftarrow> call ConfigurationsGot (GetRunConfigurationsInfo api);
     if \<not> ok then io_return EXIT_FAILURE else do {
     ok \<leftarrow> call ExecConnected (DcmConnect api);
     if \<not> ok then io_return EXIT_FAILURE else do {
     ok \<leftarrow> call ProcessControllerGot (GetProcessController api);
     if \<not> ok then io_return EXIT_FAILURE else do {
     let run_cfg_id = (if pkg_run_cfgs = [] then [] else cfg_id (pkg_run_cfgs ! 0));
     ok \<leftarrow> call (ProcessStarted PACKAGE_ID run_cfg_id) (StartProcess api PACKAGE_ID run_cfg_id);
     if \<not> ok then io_return EXIT_FAILURE else io_return EXIT_SUCCESS } } } } } } }"


subsection \<open>The application\<close>

definition Tag_pkg :: string where "Tag_pkg = ''[Application] ''"

text \<open>The loop over \<open>std::getline\<close>.\<close>

function show_lines :: "stream_state \<Rightarrow> string list" where
  "show_lines content = (case getline (CHR 0x0A) content of
     None \<Rightarrow> []
   | Some (line, content') \<Rightarrow> (Tag_pkg @ line) # show_lines content')"
  by pat_completeness auto
termination
  by (relation "measure left") (auto intro: getline_left)

declare show_lines.simps [simp del]

text \<open>The lines written: \<open>argv\<close> has the program first, a file is its contents or the text of the error.\<close>

definition main_package_app :: "(string \<Rightarrow> string + string) \<Rightarrow> string list \<Rightarrow> string list \<times> int" where
  "main_package_app files argv =
    ((Tag_pkg @ ''Application started'') #
     (if length argv > 1
      then (Tag_pkg @ ''Open resource file '' @ argv ! 1) #
        (case files (argv ! 1) of
           Inr content \<Rightarrow> (Tag_pkg @ ''Content:'') # show_lines (Some content)
         | Inl err \<Rightarrow> [Tag_pkg @ ''Fails to open: '' @ err])
      else [Tag_pkg @ ''Resource file is not specified'']) @
     [Tag_pkg @ ''Application finished''], EXIT_SUCCESS)"


subsection \<open>Contracts\<close>

fun started_process :: "launcher_event \<Rightarrow> (string \<times> string) list" where
  "started_process (ProcessStarted p c _) = [(p, c)]"
| "started_process _ = []"

definition starts :: "launcher_event list \<Rightarrow> (string \<times> string) list" where
  "starts es = concat (map started_process es)"

lemma starts_simps [simp]: "starts [] = []" "starts (e # es) = started_process e @ starts es"
  by (simp_all add: starts_def)

text \<open>The launcher starts at most one process, of the package it was built for and as its last act; it succeeds exactly when all
  went well.  A package without run configurations is started with an empty identifier.\<close>

lemma main_launcher_spec:
  assumes "run_io (main_launcher api p) w = (code, es)"
  shows "code \<in> {EXIT_SUCCESS, EXIT_FAILURE} \<and> length (starts es) \<le> 1 \<and>
    (code = EXIT_SUCCESS \<longrightarrow> (\<exists>cfgs. es = [ManagerCreated ''PkgMgrEntity'' ''kl.package_manager.PackageManager.ipkgc'' True,
       ControllerGot True, ManifestGot p True, ConfigurationsGot (True, cfgs), ExecConnected True, ProcessControllerGot True,
       ProcessStarted p (if cfgs = [] then [] else cfg_id (hd cfgs)) True]))"
proof -
  have "io_post (main_launcher api p) (\<lambda>code es. code \<in> {EXIT_SUCCESS, EXIT_FAILURE} \<and> length (starts es) \<le> 1 \<and>
    (code = EXIT_SUCCESS \<longrightarrow> (\<exists>cfgs. es = [ManagerCreated ''PkgMgrEntity'' ''kl.package_manager.PackageManager.ipkgc'' True,
       ControllerGot True, ManifestGot p True, ConfigurationsGot (True, cfgs), ExecConnected True, ProcessControllerGot True,
       ProcessStarted p (if cfgs = [] then [] else cfg_id (hd cfgs)) True])))"
    unfolding main_launcher_def Let_def
    by (intro io_rules) (simp_all add: pkgMgrMainConnection_def pkgControlInterface_def hd_conv_nth)
  from io_post_run [OF this assms] show ?thesis .
qed

text \<open>The application shows the lines of its file, one for one, whether or not the last line ends with a line break.\<close>

lemma show_lines_append:
  assumes "list_all (\<lambda>l. CHR 0x0A \<notin> set l) ls"
  shows "show_lines (Some (concat (map (\<lambda>l. l @ [CHR 0x0A]) ls) @ rest)) = map (\<lambda>l. Tag_pkg @ l) ls @ show_lines (Some rest)"
  using assms
proof (induction ls)
  case (Cons l ls)
  then show ?case by (subst show_lines.simps) (simp del: getline.simps)
qed simp

lemma show_lines_end: "CHR 0x0A \<notin> set l \<Longrightarrow> show_lines (Some l) = (if l = [] then [] else [Tag_pkg @ l])"
  by (subst show_lines.simps, subst show_lines.simps) simp

lemma main_package_app_lines:
  assumes "list_all (\<lambda>l. CHR 0x0A \<notin> set l) ls" "CHR 0x0A \<notin> set l"
    "files f = Inr (concat (map (\<lambda>l. l @ [CHR 0x0A]) ls) @ l)"
  shows "main_package_app files [prog, f] = (map (\<lambda>l. Tag_pkg @ l)
    ([''Application started'', ''Open resource file '' @ f, ''Content:''] @ ls @ (if l = [] then [] else [l]) @ [''Application finished'']),
    EXIT_SUCCESS)"
  using assms by (simp add: main_package_app_def show_lines_append show_lines_end)

end
