(* ===== verification/Iperf.thy ===== *)
theory Iperf
  imports Effects Kosipc
begin

section \<open>The iperf server\<close>

text \<open>
  \<^verbatim>\<open>examples/wifi/iperf_wifi\<close>: a program that waits for the wireless network and runs one test of the iperf library.  The
  network functions and the library are parameters; a test is a handle, and the null pointer is \<^term>\<open>None\<close>.  Messages on
  \<open>stderr\<close> are left out.
\<close>

subsection \<open>The code\<close>

record 'w iperf_api =
  wait_for_iface :: "string \<Rightarrow> nat \<Rightarrow> 'w \<Rightarrow> bool \<times> 'w"
  list_network_ifaces :: "'w \<Rightarrow> bool \<times> 'w"
  iperf_new_test :: "'w \<Rightarrow> nat option \<times> 'w"
  iperf_defaults :: "nat \<Rightarrow> 'w \<Rightarrow> int \<times> 'w"
  iperf_parse_arguments :: "nat \<Rightarrow> string list \<Rightarrow> 'w \<Rightarrow> int \<times> 'w"
  run_test :: "nat \<Rightarrow> 'w \<Rightarrow> int \<times> 'w"
  iperf_free_test :: "nat \<Rightarrow> 'w \<Rightarrow> unit \<times> 'w"

datatype iperf_event =
    IfaceWaited string nat bool
  | IfacesListed bool
  | TestNew "nat option"
  | DefaultsSet nat int
  | ArgumentsParsed nat "string list" int
  | TestRun nat int
  | TestFreed nat unit

definition WLAN_INTERFACE :: string where "WLAN_INTERFACE = ''wl0''"

definition SetupNetwork :: "'w iperf_api \<Rightarrow> ('w, iperf_event, Retcode) io" where
  "SetupNetwork api = do {
     up \<leftarrow> call (IfaceWaited WLAN_INTERFACE 60) (wait_for_iface api WLAN_INTERFACE 60);
     if \<not> up then io_return rcFail
     else do {
       listed \<leftarrow> call IfacesListed (list_network_ifaces api);
       if \<not> listed then io_return rcFail else io_return rcOk } }"

definition main_iperf :: "'w iperf_api \<Rightarrow> string list \<Rightarrow> ('w, iperf_event, int) io" where
  "main_iperf api argv = do {
     rc \<leftarrow> SetupNetwork api;
     if rc \<noteq> rcOk then io_return EXIT_FAILURE
     else do {
       iperfTest \<leftarrow> call TestNew (iperf_new_test api);
       (case iperfTest of
          None \<Rightarrow> io_return EXIT_FAILURE
        | Some t \<Rightarrow> do {
            r \<leftarrow> call (DefaultsSet t) (iperf_defaults api t);
            if r < 0 then do { _ \<leftarrow> call (TestFreed t) (iperf_free_test api t); io_return EXIT_FAILURE }
            else do {
              r \<leftarrow> call (ArgumentsParsed t argv) (iperf_parse_arguments api t argv);
              if r < 0 then do { _ \<leftarrow> call (TestFreed t) (iperf_free_test api t); io_return EXIT_FAILURE }
              else do {
                r \<leftarrow> call (TestRun t) (run_test api t);
                if r < 0 then do { _ \<leftarrow> call (TestFreed t) (iperf_free_test api t); io_return EXIT_FAILURE }
                else do { _ \<leftarrow> call (TestFreed t) (iperf_free_test api t); io_return EXIT_SUCCESS } } } }) } }"


subsection \<open>Contract\<close>

fun test_use :: "iperf_event \<Rightarrow> nat resource_use" where
  "test_use (TestNew (Some t)) = Opens t"
| "test_use (DefaultsSet t _) = Uses t"
| "test_use (ArgumentsParsed t _ _) = Uses t"
| "test_use (TestRun t _) = Uses t"
| "test_use (TestFreed t _) = Closes t"
| "test_use _ = NoUse"

lemma SetupNetwork_post:
  "io_post (SetupNetwork api) (\<lambda>rc es. no_use test_use es \<and> (rc = rcOk \<longrightarrow> es = [IfaceWaited ''wl0'' 60 True, IfacesListed True]))"
  unfolding SetupNetwork_def WLAN_INTERFACE_def by (intro io_rules) simp_all

text \<open>A test that was created is used only while it exists and freed exactly once, on every path; the program succeeds
  exactly when the network was up and the test was set up with the arguments and ran without an error.\<close>

lemma main_iperf_spec:
  assumes "run_io (main_iperf api argv) w = (code, es)"
  shows "resource_ok test_use None es \<and> code \<in> {EXIT_SUCCESS, EXIT_FAILURE} \<and>
    (code = EXIT_SUCCESS \<longleftrightarrow> (\<exists>t r1 r2 r3. 0 \<le> r1 \<and> 0 \<le> r2 \<and> 0 \<le> r3 \<and>
       es = [IfaceWaited ''wl0'' 60 True, IfacesListed True, TestNew (Some t), DefaultsSet t r1, ArgumentsParsed t argv r2,
         TestRun t r3, TestFreed t ()]))"
proof -
  have "io_post (main_iperf api argv) (\<lambda>code es. resource_ok test_use None es \<and> code \<in> {EXIT_SUCCESS, EXIT_FAILURE} \<and>
    (code = EXIT_SUCCESS \<longleftrightarrow> (\<exists>t r1 r2 r3. 0 \<le> r1 \<and> 0 \<le> r2 \<and> 0 \<le> r3 \<and>
       es = [IfaceWaited ''wl0'' 60 True, IfacesListed True, TestNew (Some t), DefaultsSet t r1, ArgumentsParsed t argv r2,
         TestRun t r3, TestFreed t ()])))"
    unfolding main_iperf_def
    by (intro io_rules io_post_bind [OF SetupNetwork_post]) auto
  from io_post_run [OF this assms] show ?thesis .
qed

end
